theory Spec2Isabelle
  imports Complex_Main
begin

section \<open>Numbers, errors and the coordinate store\<close>

text \<open>
  The program is written in JavaScript.  Its numbers are modelled as real numbers: a
  statement below is about exact arithmetic unless it says otherwise, so rounding, overflow
  to Infinity and NaN are outside this model.  The one place where the source itself
  produces a non-finite number from finite ones (the division in \<open>orthogonalProjection\<close>)
  is modelled explicitly.  What rounding changes in the oriented placement is the subject
  of a second model, in the section on double precision.

  A \<open>Coordinate\<close> is a mutable object that many wires and pins may share.  Objects that
  can be shared live in a store (an arena): an address is an index into the store, a
  reference is an address, \<open>new Coordinate\<close> appends a cell and an assignment to
  \<open>coord.x\<close> overwrites a cell.  Objects that are created by \<open>clone()\<close> and never
  escape the function that created them are handled by value.

  An uncaught exception of the source is the left summand of a result.
\<close>

datatype error = TypeError

record coordinate =
  cx :: real
  cy :: real

type_synonym store = "coordinate list"

definition newCoordinate :: "store \<Rightarrow> real \<Rightarrow> real \<Rightarrow> store \<times> nat" where
  "newCoordinate st a b = (st @ [\<lparr>cx = a, cy = b\<rparr>], length st)"

subsection \<open>Coordinate methods (coordinate.mjs), on values\<close>

text \<open>\<open>equals(other)\<close>: \<open>!!other && this.x === other.x && this.y === other.y\<close>.\<close>

definition equals :: "coordinate \<Rightarrow> coordinate option \<Rightarrow> bool" where
  "equals this other =
     (case other of None \<Rightarrow> False | Some c \<Rightarrow> cx this = cx c \<and> cy this = cy c)"

definition getDistance :: "coordinate \<Rightarrow> coordinate \<Rightarrow> real" where
  "getDistance this other = sqrt ((cx this - cx other)\<^sup>2 + (cy this - cy other)\<^sup>2)"

definition add :: "coordinate \<Rightarrow> coordinate \<Rightarrow> coordinate" where
  "add this other = \<lparr>cx = cx this + cx other, cy = cy this + cy other\<rparr>"

definition subtract :: "coordinate \<Rightarrow> coordinate \<Rightarrow> coordinate" where
  "subtract this other = \<lparr>cx = cx this - cx other, cy = cy this - cy other\<rparr>"

definition mirrorX :: "coordinate \<Rightarrow> coordinate" where
  "mirrorX this = this\<lparr>cy := - cy this\<rparr>"

definition mirrorY :: "coordinate \<Rightarrow> coordinate" where
  "mirrorY this = this\<lparr>cx := - cx this\<rparr>"

text \<open>
  \<open>scale(scaleX = 1, scaleY = 1)\<close> multiplies a component only by a finite factor.  The
  first argument is \<open>None\<close> when it is not finite (NaN); the second argument is a factor
  or the value \<open>true\<close>, which asks for the first factor.
\<close>

datatype scaleArg = Factor real | UseScaleX

definition scale :: "real option \<Rightarrow> scaleArg \<Rightarrow> coordinate \<Rightarrow> coordinate" where
  "scale scaleX scaleY this =
     (let c1 = (case scaleX of Some s \<Rightarrow> this\<lparr>cx := cx this * s\<rparr> | None \<Rightarrow> this)
      in case scaleY of
           Factor t \<Rightarrow> c1\<lparr>cy := cy c1 * t\<rparr>
         | UseScaleX \<Rightarrow> (case scaleX of Some s \<Rightarrow> c1\<lparr>cy := cy c1 * s\<rparr> | None \<Rightarrow> c1))"

text \<open>
  The two loops \<open>while (angle <= -180) angle += 360; while (angle > 180) angle -= 360\<close>.
  Over the real numbers both end for every angle, which the two termination proofs show.
  Over the numbers of the source they do not end for an infinite angle, nor for a finite
  one of so large a magnitude that the sum with 360 is rounded back to the angle, such
  as \<open>- (2 ^ 63)\<close>; \<open>normalizeUpF\<close> and \<open>normalizeDownF\<close> in the section on double
  precision are the loops with rounding.
\<close>

function normalizeUp :: "real \<Rightarrow> real" where
  "normalizeUp angle = (if angle \<le> - 180 then normalizeUp (angle + 360) else angle)"
  by pat_completeness auto
termination
proof (relation "measure (\<lambda>a. nat (\<lfloor>(- 180 - a) / 360\<rfloor> + 1))")
  show "wf (measure (\<lambda>a. nat (\<lfloor>(- 180 - a) / 360\<rfloor> + 1)))" by simp
next
  fix angle :: real
  assume a: "angle \<le> - 180"
  have "(- 180 - (angle + 360)) / 360 = (- 180 - angle) / 360 - 1" by (simp add: field_simps)
  then have f: "\<lfloor>(- 180 - (angle + 360)) / 360\<rfloor> = \<lfloor>(- 180 - angle) / 360\<rfloor> - 1"
    by (simp only: floor_diff_one)
  have "0 \<le> (- 180 - angle) / 360" using a by simp
  then have "0 \<le> \<lfloor>(- 180 - angle) / 360\<rfloor>" by simp
  then show "(angle + 360, angle) \<in> measure (\<lambda>a. nat (\<lfloor>(- 180 - a) / 360\<rfloor> + 1))"
    by (simp only: in_measure f)
qed

function normalizeDown :: "real \<Rightarrow> real" where
  "normalizeDown angle = (if angle > 180 then normalizeDown (angle - 360) else angle)"
  by pat_completeness auto
termination
proof (relation "measure (\<lambda>a. nat (\<lfloor>(a - 180) / 360\<rfloor> + 2))")
  show "wf (measure (\<lambda>a. nat (\<lfloor>(a - 180) / 360\<rfloor> + 2)))" by simp
next
  fix angle :: real
  assume a: "180 < angle"
  have "(angle - 360 - 180) / 360 = (angle - 180) / 360 - 1" by (simp add: field_simps)
  then have f: "\<lfloor>(angle - 360 - 180) / 360\<rfloor> = \<lfloor>(angle - 180) / 360\<rfloor> - 1"
    by (simp only: floor_diff_one)
  have "0 \<le> (angle - 180) / 360" using a by simp
  then have "0 \<le> \<lfloor>(angle - 180) / 360\<rfloor>" by simp
  then show "(angle - 360, angle) \<in> measure (\<lambda>a. nat (\<lfloor>(a - 180) / 360\<rfloor> + 2))"
    by (simp only: in_measure f)
qed

declare normalizeUp.simps [simp del]
declare normalizeDown.simps [simp del]

definition normalizeAngle :: "real \<Rightarrow> real" where
  "normalizeAngle angle = normalizeDown (normalizeUp angle)"

text \<open>
  \<open>rotate(angle, centerCoord)\<close>: counter-clockwise, in degrees, with the four exact cases of
  the \<open>switch\<close> before the general one.
\<close>

definition rotate_c :: "real \<Rightarrow> coordinate option \<Rightarrow> coordinate \<Rightarrow> coordinate" where
  "rotate_c angle0 centerCoord this =
     (let angle = normalizeAngle angle0;
          c1 = (case centerCoord of Some m \<Rightarrow> subtract this m | None \<Rightarrow> this);
          c2 = (if angle = 0 then c1
                else if angle = 90 then \<lparr>cx = - cy c1, cy = cx c1\<rparr>
                else if angle = 180 then \<lparr>cx = - cx c1, cy = - cy c1\<rparr>
                else if angle = - 90 then \<lparr>cx = cy c1, cy = - cx c1\<rparr>
                else (let radians = (pi / 180) * angle
                      in \<lparr>cx = cos radians * cx c1 - sin radians * cy c1,
                          cy = sin radians * cx c1 + cos radians * cy c1\<rparr>))
      in case centerCoord of Some m \<Rightarrow> add c2 m | None \<Rightarrow> c2)"

text \<open>
  \<open>orthogonalProjection(lineStart, lineEnd)\<close>.  When the two points of the line coincide
  the quotient is \<open>0 / 0\<close>, which is NaN in the source; \<open>scale(NaN, true)\<close> then leaves the
  line vector as it is.  The result is the exact one; \<open>orthogonalProjectionF\<close> in the
  section on double precision rounds every operation.
\<close>

definition orthogonalProjection :: "coordinate \<Rightarrow> coordinate \<Rightarrow> coordinate \<Rightarrow> coordinate" where
  "orthogonalProjection this lineStart lineEnd =
     (let lineVector = subtract lineEnd lineStart;
          helpVector = subtract this lineStart;
          denominator = (cx lineVector)\<^sup>2 + (cy lineVector)\<^sup>2;
          lambda = (if denominator = 0 then None
                    else Some ((cx lineVector * cx helpVector + cy lineVector * cy helpVector)
                               / denominator))
      in add (scale lambda UseScaleX lineVector) lineStart)"

subsection \<open>Coordinate methods on the store\<close>

text \<open>
  \<open>add(other)\<close> as a method: it reads \<open>this.x\<close> first, so a call whose receiver is
  \<open>undefined\<close> (\<open>None\<close>) raises a TypeError; otherwise it overwrites the receiver.
\<close>

definition add_m :: "store \<Rightarrow> nat option \<Rightarrow> nat \<Rightarrow> error + store" where
  "add_m st this other =
     (case this of
        None \<Rightarrow> Inl TypeError
      | Some a \<Rightarrow> Inr (st[a := add (st ! a) (st ! other)]))"

text \<open>\<open>Array.prototype.forEach\<close> over a callback that may raise.\<close>

fun forEach :: "(store \<Rightarrow> 'a \<Rightarrow> error + store) \<Rightarrow> store \<Rightarrow> 'a list \<Rightarrow> error + store" where
  "forEach f st [] = Inr st"
| "forEach f st (v # vs) = (case f st v of Inl e \<Rightarrow> Inl e | Inr st' \<Rightarrow> forEach f st' vs)"

text \<open>
  \<open>sum(...others)\<close>: \<open>const coordSum = new Coordinate(this.x, this.y);
  others.forEach(coordSum.add); return coordSum\<close>.  The method is handed to \<open>forEach\<close>
  without its receiver, and \<open>forEach\<close> calls it with \<open>this\<close> undefined (class bodies are
  strict code).
\<close>

definition sum_c :: "store \<Rightarrow> nat \<Rightarrow> nat list \<Rightarrow> error + store \<times> nat" where
  "sum_c st this others =
     (let (st1, coordSum) = newCoordinate st (cx (st ! this)) (cy (st ! this))
      in case forEach (\<lambda>s other. add_m s None other) st1 others of
           Inl e \<Rightarrow> Inl e
         | Inr st2 \<Rightarrow> Inr (st2, coordSum))"

section \<open>Pins and placed components\<close>

text \<open>
  A \<open>Pin\<close> of an instance (pin.mjs) refers to its coordinate and its net by reference.
  \<open>None\<close> stands for \<open>null\<close> or \<open>undefined\<close>.  The constructor stores
  \<open>instTermNumber || 0\<close>, a number.
\<close>

record pin =
  p_coord :: "nat option"
  p_name :: "string option"
  p_instTermNumber :: int
  p_net :: "nat option"

text \<open>
  A pin of a stencil of the catalog (components.mjs) is created once with a coordinate of
  its own and no net; placement only ever clones it.  Its coordinate is held by value.
\<close>

record stencilPin =
  s_coord :: coordinate
  s_name :: "string option"
  s_instTermNumber :: int

text \<open>
  A coordinate field of a placed component: an object of its own that nothing else
  refers to, or a reference into the store.
\<close>

datatype cref = Fresh coordinate | Ref nat

definition deref :: "store \<Rightarrow> cref \<Rightarrow> coordinate" where
  "deref st r = (case r of Fresh c \<Rightarrow> c | Ref a \<Rightarrow> st ! a)"

text \<open>
  \<open>PathComponent\<close> (pathComponent.mjs) as placed: \<open>useAsStencil\<close> passes the name of the
  drawing symbol, the instance name, the pins and the angle.
\<close>

record pathComponent =
  pc_tikzComponentName :: string
  pc_instanceName :: string
  pc_pins :: "pin list"
  pc_angle :: real

text \<open>
  \<open>Transistor\<close> (transistor.mjs).  The catalog's templates hold stencil pins and a
  coordinate by value; a placed transistor holds the instance's pins, in the order of the
  anatomical pins, with \<open>None\<close> where no pin of the instance matched.
\<close>

record ('p, 'c) transistor =
  t_tikzComponentName :: string
  t_instanceName :: string
  t_pins :: "'p list"
  t_anchorNames :: "string list"
  t_anchorNr :: "nat option"
  t_nodeName :: string
  t_anchorCoord :: "'c option"
  t_angle :: real
  t_mirrorX :: bool
  t_mirrorY :: bool

text \<open>\<open>PotentialComponent\<close> (potentialComponent.mjs): a ground or supply symbol.\<close>

record potentialType =
  pt_tikzComponentName :: string
  pt_printNetName :: bool

record potentialComponent =
  po_potentialType :: potentialType
  po_pin :: pin
  po_angle :: real
  po_mirrorX :: bool
  po_mirrorY :: bool

datatype component =
    PathC pathComponent
  | TransistorC "(pin option, cref) transistor"
  | PotentialC potentialComponent

section \<open>Serialization\<close>

text \<open>
  The text of a JavaScript number (\<open>"" + x\<close>) is not modelled: the serializers take the
  conversion as the parameter \<open>str\<close>.
\<close>

definition isLetter :: "char \<Rightarrow> bool" where
  "isLetter c = (let n = (of_char c :: nat) in (65 \<le> n \<and> n \<le> 90) \<or> (97 \<le> n \<and> n \<le> 122))"

definition isDigit :: "char \<Rightarrow> bool" where
  "isDigit c = (let n = (of_char c :: nat) in 48 \<le> n \<and> n \<le> 57)"

definition isSeparator :: "char \<Rightarrow> bool" where
  "isSeparator c = (c = CHR ''_'' \<or> c = CHR ''-'')"

text \<open>
  \<open>instanceName.match(/^([a-zA-Z]+)[_-]?([0-9]+)$/)\<close>: the result is \<open>null\<close> (\<open>None\<close>) or
  the array of the whole match and the two groups.  The three character classes are
  disjoint, so the greedy reading below is the only way the expression can match.
\<close>

definition matchInstanceName :: "string \<Rightarrow> (string \<times> string \<times> string) option" where
  "matchInstanceName s =
     (let name = takeWhile isLetter s;
          r1 = dropWhile isLetter s;
          r2 = (case r1 of [] \<Rightarrow> r1 | c # cs \<Rightarrow> if isSeparator c then cs else r1);
          index = takeWhile isDigit r2;
          r3 = dropWhile isDigit r2
      in if name \<noteq> [] \<and> index \<noteq> [] \<and> r3 = [] then Some (s, name, index) else None)"

text \<open>
  The pattern in words: letters, then at most one separator, then digits, and nothing
  else.
\<close>

definition lettersThenDigits :: "string \<Rightarrow> bool" where
  "lettersThenDigits s =
     (\<exists>name sep index. s = name @ sep @ index \<and> name \<noteq> [] \<and> list_all isLetter name \<and>
        (sep = [] \<or> (\<exists>c. sep = [c] \<and> isSeparator c)) \<and> index \<noteq> [] \<and> list_all isDigit index)"

text \<open>\<open>Number.parseInt\<close> on a string that starts with a digit or is empty; \<open>None\<close> is NaN.\<close>

definition parseInt :: "string \<Rightarrow> nat option" where
  "parseInt s =
     (let ds = takeWhile isDigit s
      in if ds = [] then None
         else Some (foldl (\<lambda>n c. 10 * n + ((of_char c :: nat) - 48)) 0 ds))"

text \<open>
  The label of an instance name, as \<open>PathComponent.serialize\<close> and \<open>Transistor.nodeText\<close>
  both compute it: \<open>let [_fullMatch, name, index] = this.instanceName.match(...)\<close> raises
  a TypeError when the match is \<open>null\<close>.
\<close>

definition nameLabel :: "(real \<Rightarrow> string) \<Rightarrow> string \<Rightarrow> error + string" where
  "nameLabel str instanceName =
     (case matchInstanceName instanceName of
        None \<Rightarrow> Inl TypeError
      | Some (fullMatch, name, index) \<Rightarrow>
          (case (if name \<noteq> [] then parseInt index else None) of
             Some i \<Rightarrow> Inr (''${'' @ name @ ''}_{'' @ str (real i) @ ''}$'')
           | None \<Rightarrow> Inr instanceName))"

definition backslash :: char where
  "backslash = CHR 0x5C"

definition tabs :: "nat \<Rightarrow> string" where
  "tabs indent = replicate indent (CHR 0x09)"

definition serializeName :: "(real \<Rightarrow> string) \<Rightarrow> coordinate \<Rightarrow> string" where
  "serializeName str c = ''('' @ str (cx c) @ '', '' @ str (cy c) @ '')''"

text \<open>\<open>PathComponent.serialize(indent)\<close>.\<close>

definition pathSerialize ::
  "(real \<Rightarrow> string) \<Rightarrow> store \<Rightarrow> pathComponent \<Rightarrow> nat \<Rightarrow> error + string" where
  "pathSerialize str st this indent =
     (case (if pc_instanceName this \<noteq> []
            then (case nameLabel str (pc_instanceName this) of
                    Inl e \<Rightarrow> Inl e | Inr l \<Rightarrow> Inr ('', l='' @ l))
            else Inr []) of
        Inl e \<Rightarrow> Inl e
      | Inr label \<Rightarrow>
          (case pc_pins this of
             p0 # p1 # _ \<Rightarrow>
               (case (p_coord p0, p_coord p1) of
                  (Some a0, Some a1) \<Rightarrow>
                    (let c0 = st ! a0; c1 = st ! a1;
                         start = tabs indent @ [backslash] @ ''draw[color=blue] ''
                                 @ serializeName str c0 @ '' '';
                         pinmark =
                           (if pc_angle this = 0 \<or> pc_angle this = 180 then
                              (if cx c0 < cx c1
                               then start @ ''++ (3pt,0) ++ (-1.25pt, -2.5pt) -- ++(2.5pt, 5pt);'' @ [CHR 0x0A]
                               else start @ ''++ (-3pt,0) ++ (-1.25pt, -2.5pt) -- ++(2.5pt, 5pt);'' @ [CHR 0x0A])
                            else if pc_angle this = 90 \<or> pc_angle this = - 90 then
                              (if cy c0 < cy c1
                               then start @ ''++ (0,3pt) ++ (-2.5pt, -1.25pt) -- ++(5pt, 2.5pt);'' @ [CHR 0x0A]
                               else start @ ''++ (0,-3pt) ++ (-2.5pt, -1.25pt) -- ++(5pt, 2.5pt);'' @ [CHR 0x0A])
                            else [])
                     in Inr (pinmark @ tabs indent @ [backslash] @ ''draw[color=blue] ''
                             @ serializeName str c0 @ '' to['' @ pc_tikzComponentName this
                             @ label @ ''] '' @ serializeName str c1 @ '';''))
                | _ \<Rightarrow> Inl TypeError)
           | _ \<Rightarrow> Inl TypeError))"

text \<open>
  \<open>NodeComponent.serialize(indent)\<close> (nodeComponent.mjs), over what the subclass's
  getters give: the node text (which may raise), the name of the symbol, the flags, the
  node name and the coordinate (\<open>None\<close> when \<open>this.coord\<close> is undefined).  \<open>debug\<close> is
  \<open>global.DEBUG\<close>.
\<close>

definition nodeSerialize ::
  "(real \<Rightarrow> string) \<Rightarrow> bool \<Rightarrow> nat \<Rightarrow> error + string \<Rightarrow> string \<Rightarrow> bool \<Rightarrow> bool \<Rightarrow> real \<Rightarrow>
   string \<Rightarrow> coordinate option \<Rightarrow> error + string" where
  "nodeSerialize str debug indent nodeText tikzComponentName mirX mirY angle nodeName coord =
     (case nodeText of
        Inl e \<Rightarrow> Inl e
      | Inr text0 \<Rightarrow>
          (let text1 = (if text0 \<noteq> [] \<and> (mirX \<or> mirY)
                        then [backslash] @ ''scalebox{'' @ (if mirY then ''-1'' else ''1'') @ ''}[''
                             @ (if mirX then ''-1'' else ''1'') @ '']{'' @ text0 @ ''}''
                        else text0);
               text2 = (if text1 \<noteq> [] \<and> angle \<noteq> 0
                        then [backslash] @ ''rotatebox{'' @ str (- angle) @ ''}{'' @ text1 @ ''}''
                        else text1)
           in case coord of
                None \<Rightarrow> Inl TypeError
              | Some c \<Rightarrow>
                  Inr (tabs indent
                       @ (if debug then [backslash] @ ''node[color=blue, '' else [backslash] @ ''node['')
                       @ tikzComponentName
                       @ (if mirX then '', yscale=-1'' else [])
                       @ (if mirY then '', xscale=-1'' else [])
                       @ (if angle \<noteq> 0 then '', rotate='' @ str angle else [])
                       @ ''] ''
                       @ (if nodeName \<noteq> [] then ''('' @ nodeName @ '') '' else [])
                       @ ''at '' @ serializeName str c @ '' {'' @ text2 @ ''};'')))"

text \<open>\<open>Transistor.nodeText\<close> and \<open>Transistor.coord\<close>.\<close>

definition transistorNodeText :: "(real \<Rightarrow> string) \<Rightarrow> string \<Rightarrow> error + string" where
  "transistorNodeText str instanceName =
     (if instanceName \<noteq> [] then nameLabel str instanceName else Inr [])"

definition transistorCoord :: "store \<Rightarrow> (pin option, cref) transistor \<Rightarrow> coordinate option" where
  "transistorCoord st this =
     (case t_anchorNr this of
        None \<Rightarrow> map_option (deref st) (t_anchorCoord this)
      | Some k \<Rightarrow>
          (if k < length (t_pins this)
           then (case t_pins this ! k of
                   None \<Rightarrow> None
                 | Some p \<Rightarrow> map_option (\<lambda>a. st ! a) (p_coord p))
           else None))"

definition transistorSerialize ::
  "(real \<Rightarrow> string) \<Rightarrow> bool \<Rightarrow> store \<Rightarrow> (pin option, cref) transistor \<Rightarrow> nat \<Rightarrow> error + string" where
  "transistorSerialize str debug st this indent =
     nodeSerialize str debug indent (transistorNodeText str (t_instanceName this))
       (t_tikzComponentName this) (t_mirrorX this) (t_mirrorY this) (t_angle this)
       (t_nodeName this) (transistorCoord st this)"

text \<open>
  \<open>PotentialComponent.nodeText\<close>:
  \<open>this.potentialType.printNetName ? (this.pin?.net?.getPrettyName() || "") : ""\<close>.  No
  version of the \<open>Net\<close> class has a method \<open>getPrettyName\<close>, so the call raises a
  TypeError whenever it is reached with a net.  A potential has no node name.
\<close>

definition potentialNodeText :: "potentialComponent \<Rightarrow> error + string" where
  "potentialNodeText this =
     (if pt_printNetName (po_potentialType this)
      then (case p_net (po_pin this) of None \<Rightarrow> Inr [] | Some n \<Rightarrow> Inl TypeError)
      else Inr [])"

definition potentialSerialize ::
  "(real \<Rightarrow> string) \<Rightarrow> bool \<Rightarrow> store \<Rightarrow> potentialComponent \<Rightarrow> nat \<Rightarrow> error + string" where
  "potentialSerialize str debug st this indent =
     nodeSerialize str debug indent (potentialNodeText this)
       (pt_tikzComponentName (po_potentialType this)) (po_mirrorX this) (po_mirrorY this)
       (po_angle this) [] (map_option (\<lambda>a. st ! a) (p_coord (po_pin this)))"

text \<open>\<open>component.serialize(indent)\<close>, by the class of the component.\<close>

definition serialize ::
  "(real \<Rightarrow> string) \<Rightarrow> bool \<Rightarrow> store \<Rightarrow> component \<Rightarrow> nat \<Rightarrow> error + string" where
  "serialize str debug st c indent =
     (case c of
        PathC pc \<Rightarrow> pathSerialize str st pc indent
      | TransistorC t \<Rightarrow> transistorSerialize str debug st t indent
      | PotentialC po \<Rightarrow> potentialSerialize str debug st po indent)"

text \<open>
  The instance name a placed component carries.  A potential component stores none: its
  \<open>useAsStencil\<close> drops the instance name.
\<close>

definition instanceNameOf :: "component \<Rightarrow> string option" where
  "instanceNameOf c =
     (case c of
        PathC pc \<Rightarrow> Some (pc_instanceName pc)
      | TransistorC t \<Rightarrow> Some (t_instanceName t)
      | PotentialC po \<Rightarrow> None)"

section \<open>Oriented three-terminal placement: the geometry\<close>

text \<open>
  The placement description of an instance (\<open>abl:PlacementTransform\<close>) together with the
  unit factor \<open>scaling\<close>.
\<close>

record placement =
  pl_x :: real
  pl_y :: real
  pl_angle :: real
  pl_xScale :: real
  pl_yScale :: real
  pl_mirrorX :: bool
  pl_mirrorY :: bool
  pl_scaling :: real

text \<open>
  A transistor template of the catalog.  Every template there is built by
  \<open>Transistor.fromStruct\<close> or by the constructor with the instance name empty or null, no
  node name, angle 0 and no mirror flag, so the template records only what varies: the
  symbol's name, the three pins, the anchor names, the anchor number and the coordinate the
  constructor stored (\<open>this.anchorNr !== null ? null : coord || new Coordinate(0, 0)\<close>).
\<close>

record transistorStencil =
  ts_tikzComponentName :: string
  ts_pins :: "stencilPin list"
  ts_anchorNames :: "string list"
  ts_anchorNr :: "nat option"
  ts_anchorCoord :: "coordinate option"

text \<open>
  \<open>Transistor.fromStruct(tikzComponentName, anchorNames, options)\<close>; an option that is not
  a finite number (\<open>None\<close>) takes its default.  \<open>new Pin(coord)\<close> has no name and the
  terminal number 0.
\<close>

record tikzTripolOptions =
  o_pgfCircRlen :: "real option"
  o_width :: "real option"
  o_connHeight :: "real option"
  o_height :: "real option"

definition fromStruct :: "string \<Rightarrow> string list \<Rightarrow> tikzTripolOptions \<Rightarrow> transistorStencil" where
  "fromStruct tikzComponentName anchorNames options =
     (let pgfCircRlen = (case o_pgfCircRlen options of Some v \<Rightarrow> v | None \<Rightarrow> 1.4);
          width0 = (case o_width options of Some v \<Rightarrow> v | None \<Rightarrow> 0.7);
          connHeight = (case o_connHeight options of Some v \<Rightarrow> v | None \<Rightarrow> 0.5);
          height = (case o_height options of Some v \<Rightarrow> v | None \<Rightarrow> 1.1);
          halfHeight = pgfCircRlen * height * 0.5;
          width = pgfCircRlen * width0;
          pins = [\<lparr>s_coord = \<lparr>cx = 0, cy = halfHeight\<rparr>, s_name = None, s_instTermNumber = 0\<rparr>,
                  \<lparr>s_coord = \<lparr>cx = 0, cy = - halfHeight\<rparr>, s_name = None, s_instTermNumber = 0\<rparr>,
                  \<lparr>s_coord = \<lparr>cx = - width, cy = halfHeight * connHeight\<rparr>, s_name = None,
                   s_instTermNumber = 0\<rparr>]
      in \<lparr>ts_tikzComponentName = tikzComponentName, ts_pins = pins, ts_anchorNames = anchorNames,
          ts_anchorNr = None, ts_anchorCoord = Some \<lparr>cx = 0, cy = 0\<rparr>\<rparr>)"

text \<open>
  \<open>Transistor.deepClone()\<close> of a template.  The pins and the coordinate are copied.  The
  call passes eleven arguments to a constructor of ten parameters (\<open>this.nodeText\<close> stands
  where \<open>nodeName\<close> is expected), so the clone's node name is the template's node text,
  its angle is \<open>this.nodeName || 0\<close>, its \<open>mirrorX\<close> is the template's angle and its
  \<open>mirrorY\<close> the template's \<open>mirrorX\<close>: for a template of the catalog the empty text, 0,
  0 (which counts as false) and false.
\<close>

definition tikzDeepClone :: "transistorStencil \<Rightarrow> (stencilPin, coordinate) transistor" where
  "tikzDeepClone this =
     \<lparr>t_tikzComponentName = ts_tikzComponentName this, t_instanceName = [],
      t_pins = ts_pins this, t_anchorNames = ts_anchorNames this, t_anchorNr = ts_anchorNr this,
      t_nodeName = [],
      t_anchorCoord =
        (case ts_anchorNr this of
           Some k \<Rightarrow> None
         | None \<Rightarrow> Some (case ts_anchorCoord this of Some c \<Rightarrow> c | None \<Rightarrow> \<lparr>cx = 0, cy = 0\<rparr>)),
      t_angle = 0, t_mirrorX = False, t_mirrorY = False\<rparr>"

text \<open>
  \<open>ABLTransistorMapper\<close> (ablTransistorMapper.mjs): the template, the anatomical pins (top,
  bottom, tap) and the number of the anchor pin.  \<open>clone()\<close> copies every pin and its
  coordinate, so the pins of a clone are handled by value.
\<close>

record mapper =
  m_tikzTransistor :: transistorStencil
  m_pins :: "stencilPin list"
  m_anchorNr :: nat

text \<open>
  \<open>lineCrossingCoord\<close>, the same getter in both classes:
  \<open>this.pins[2].coord.orthogonalProjection(this.pins[0].coord, this.pins[1].coord)\<close>.
\<close>

definition lineCrossingCoord :: "stencilPin list \<Rightarrow> error + coordinate" where
  "lineCrossingCoord pins =
     (case pins of
        p0 # p1 # p2 # _ \<Rightarrow> Inr (orthogonalProjection (s_coord p2) (s_coord p0) (s_coord p1))
      | _ \<Rightarrow> Inl TypeError)"

text \<open>
  One round of the loop of \<open>mirror\<close> when the centre \<open>mirrorMid\<close> is the coordinate object
  of the pin \<open>anchor\<close>: the centre is read from the pins as they are now, and in the round
  of the anchor pin itself the centre is the very object being changed
  (\<open>mirrorCoord.subtract(mirrorMid)\<close> makes both zero).
\<close>

definition flipCoord :: "bool \<Rightarrow> bool \<Rightarrow> coordinate \<Rightarrow> coordinate" where
  "flipCoord mX mY c =
     (let c1 = (if mX then c\<lparr>cy := - cy c\<rparr> else c)
      in if mY then c1\<lparr>cx := - cx c1\<rparr> else c1)"

definition mirrorStep :: "bool \<Rightarrow> bool \<Rightarrow> nat \<Rightarrow> stencilPin list \<Rightarrow> nat \<Rightarrow> stencilPin list" where
  "mirrorStep mX mY anchor pins i =
     (let mirrorMid = s_coord (pins ! anchor);
          c3 = flipCoord mX mY (subtract (s_coord (pins ! i)) mirrorMid);
          c4 = add c3 (if i = anchor then c3 else mirrorMid)
      in pins[i := (pins ! i)\<lparr>s_coord := c4\<rparr>])"

text \<open>The same round when the centre is an object of its own.\<close>

definition mirrorAbout :: "bool \<Rightarrow> bool \<Rightarrow> coordinate \<Rightarrow> stencilPin \<Rightarrow> stencilPin" where
  "mirrorAbout mX mY mirrorMid p =
     p\<lparr>s_coord := add (flipCoord mX mY (subtract (s_coord p) mirrorMid)) mirrorMid\<rparr>"

text \<open>
  \<open>ABLTransistorMapper.mirror(mirrorX, mirrorY)\<close>.  The loop's test
  \<open>i !== this.anchorCoord\<close> compares a number with a property the mapper does not have, so
  every pin is processed.  The flags the method stores on the clone are never read and
  are left out.
\<close>

definition mapperMirror :: "bool \<Rightarrow> bool \<Rightarrow> nat \<Rightarrow> stencilPin list \<Rightarrow> error + stencilPin list" where
  "mapperMirror mX mY anchor pins =
     (if \<not> (mX \<or> mY) then Inr pins
      else if anchor < length pins
      then Inr (foldl (mirrorStep mX mY anchor) pins [0..<length pins])
      else Inl TypeError)"

text \<open>
  \<open>ABLTransistorMapper.rotate(angle)\<close>: every pin but the anchor pin is rotated about the
  origin.
\<close>

definition mapperRotate :: "real \<Rightarrow> nat \<Rightarrow> stencilPin list \<Rightarrow> stencilPin list" where
  "mapperRotate angle anchor pins =
     (if angle = 0 then pins
      else map (\<lambda>(i, p). if i \<noteq> anchor then p\<lparr>s_coord := rotate_c angle None (s_coord p)\<rparr> else p)
             (zip [0..<length pins] pins))"

definition translatePin :: "coordinate \<Rightarrow> stencilPin \<Rightarrow> stencilPin" where
  "translatePin v p = p\<lparr>s_coord := add (s_coord p) v\<rparr>"

text \<open>
  \<open>Transistor.mirror\<close>, \<open>Transistor.rotate\<close> and \<open>Transistor.translate\<close> on a clone of a
  template.  The centre of \<open>mirror\<close> is \<open>this.coord\<close>: the transistor's own coordinate
  when it has no anchor number, the coordinate object of the anchor pin otherwise; here
  too the test \<open>i !== this.anchorCoord\<close> never excludes a pin.
\<close>

definition transistorMirror ::
  "bool \<Rightarrow> bool \<Rightarrow> (stencilPin, coordinate) transistor \<Rightarrow> error + (stencilPin, coordinate) transistor" where
  "transistorMirror mX mY this =
     (if \<not> (mX \<or> mY) then Inr this
      else
        (let this1 = this\<lparr>t_mirrorX := (t_mirrorX this \<noteq> mX), t_mirrorY := (t_mirrorY this \<noteq> mY)\<rparr>
         in case t_anchorNr this of
              None \<Rightarrow>
                (case t_anchorCoord this of
                   Some mirrorMid \<Rightarrow>
                     Inr (this1\<lparr>t_pins := map (mirrorAbout mX mY mirrorMid) (t_pins this)\<rparr>)
                 | None \<Rightarrow> if t_pins this = [] then Inr this1 else Inl TypeError)
            | Some k \<Rightarrow>
                (if k < length (t_pins this)
                 then Inr (this1\<lparr>t_pins := foldl (mirrorStep mX mY k) (t_pins this)
                                               [0..<length (t_pins this)]\<rparr>)
                 else if t_pins this = [] then Inr this1 else Inl TypeError)))"

definition transistorRotate ::
  "real \<Rightarrow> (stencilPin, coordinate) transistor \<Rightarrow> (stencilPin, coordinate) transistor" where
  "transistorRotate angle this =
     (if angle = 0 then this
      else this\<lparr>t_pins :=
                  map (\<lambda>(i, p). if Some i \<noteq> t_anchorNr this
                                then p\<lparr>s_coord := rotate_c angle None (s_coord p)\<rparr> else p)
                    (zip [0..<length (t_pins this)] (t_pins this)),
                t_angle := normalizeAngle (t_angle this + angle)\<rparr>)"

definition transistorTranslate ::
  "coordinate \<Rightarrow> (stencilPin, coordinate) transistor \<Rightarrow> (stencilPin, coordinate) transistor" where
  "transistorTranslate v this =
     this\<lparr>t_pins := map (translatePin v) (t_pins this),
          t_anchorCoord := map_option (\<lambda>c. add c v) (t_anchorCoord this)\<rparr>"

text \<open>
  The first half of \<open>ABLTransistorMapper.useAsStencil\<close>, which touches no shared object.
  The angle of the placement is normalized first and the normalized angle is used from
  then on.  \<open>placeAnatomical\<close> gives the pins of \<open>ablTransistorClone\<close> after scaling,
  rotation, mirroring and translation; \<open>placeTemplate\<close> gives \<open>transistor\<close> after
  rotation, mirroring and the translation that aligns the two line-crossing points.
\<close>

definition instanceCoordOf :: "placement \<Rightarrow> coordinate" where
  "instanceCoordOf placement =
     \<lparr>cx = pl_x placement * pl_scaling placement, cy = pl_y placement * pl_scaling placement\<rparr>"

definition placeAnatomical :: "mapper \<Rightarrow> placement \<Rightarrow> error + stencilPin list" where
  "placeAnatomical this placement =
     (let angle = normalizeAngle (pl_angle placement);
          scalingX = pl_xScale placement * pl_scaling placement;
          scalingY = pl_yScale placement * pl_scaling placement;
          pins1 = map (\<lambda>p. p\<lparr>s_coord := scale (Some scalingX) (Factor scalingY) (s_coord p)\<rparr>)
                    (m_pins this);
          pins2 = mapperRotate angle (m_anchorNr this) pins1
      in case mapperMirror (pl_mirrorX placement) (pl_mirrorY placement) (m_anchorNr this) pins2 of
           Inl e \<Rightarrow> Inl e
         | Inr pins3 \<Rightarrow> Inr (map (translatePin (instanceCoordOf placement)) pins3))"

definition placeTemplate ::
  "mapper \<Rightarrow> placement \<Rightarrow> stencilPin list \<Rightarrow> error + (stencilPin, coordinate) transistor" where
  "placeTemplate this placement ablPins =
     (let angle = normalizeAngle (pl_angle placement);
          t1 = transistorRotate angle (tikzDeepClone (m_tikzTransistor this))
      in case transistorMirror (pl_mirrorX placement) (pl_mirrorY placement) t1 of
           Inl e \<Rightarrow> Inl e
         | Inr t2 \<Rightarrow>
             (case lineCrossingCoord ablPins of
                Inl e \<Rightarrow> Inl e
              | Inr ablCrossing \<Rightarrow>
                  (case lineCrossingCoord (t_pins t2) of
                     Inl e \<Rightarrow> Inl e
                   | Inr crossing \<Rightarrow> Inr (transistorTranslate (subtract ablCrossing crossing) t2))))"

text \<open>
  Entries of the catalog (components.mjs): the anatomical pins shared by the transistor
  mappers, the \<open>npn\<close> and \<open>nigfete\<close> templates, the mappers \<open>BJT\<close> and \<open>EE_MOS1\<close>,
  and the \<open>"op amp"\<close> template with the mapper \<open>OpAmp\<close>, whose anchor is its first pin.
\<close>

definition TRANSISTOR_TOP_PIN :: stencilPin where
  "TRANSISTOR_TOP_PIN = \<lparr>s_coord = \<lparr>cx = 0.5, cy = 0.5\<rparr>, s_name = None, s_instTermNumber = 1\<rparr>"

definition TRANSISTOR_TAP_PIN :: stencilPin where
  "TRANSISTOR_TAP_PIN = \<lparr>s_coord = \<lparr>cx = 0, cy = 0\<rparr>, s_name = None, s_instTermNumber = 2\<rparr>"

definition TRANSISTOR_BOTTOM_PIN :: stencilPin where
  "TRANSISTOR_BOTTOM_PIN = \<lparr>s_coord = \<lparr>cx = 0.5, cy = - 0.5\<rparr>, s_name = None, s_instTermNumber = 3\<rparr>"

definition npn :: transistorStencil where
  "npn = fromStruct ''npn'' [''C'', ''E'', ''B'']
           \<lparr>o_pgfCircRlen = None, o_width = Some 0.6, o_connHeight = Some 0, o_height = Some 1.1\<rparr>"

definition nigfete :: transistorStencil where
  "nigfete = fromStruct ''nigfete'' [''D'', ''S'', ''G'']
           \<lparr>o_pgfCircRlen = None, o_width = Some 0.7, o_connHeight = Some (- 0.35), o_height = Some 1.1\<rparr>"

definition BJT :: mapper where
  "BJT = \<lparr>m_tikzTransistor = npn,
          m_pins = [TRANSISTOR_TOP_PIN, TRANSISTOR_BOTTOM_PIN, TRANSISTOR_TAP_PIN], m_anchorNr = 2\<rparr>"

definition EE_MOS1 :: mapper where
  "EE_MOS1 = \<lparr>m_tikzTransistor = nigfete,
          m_pins = [TRANSISTOR_TOP_PIN, TRANSISTOR_BOTTOM_PIN, TRANSISTOR_TAP_PIN], m_anchorNr = 2\<rparr>"



section \<open>The oriented geometry in double precision\<close>

text \<open>
  The numbers of the source are IEEE 754 double-precision numbers, and every arithmetic
  operation of the source rounds its exact result.  To see what the rounding changes, the
  geometry of the oriented placement is written a second time, over an arithmetic that is a
  parameter: the rounding of an exact result, the square \<open>x ** 2\<close> (which the language
  leaves to the implementation), \<open>Math.cos\<close>, \<open>Math.sin\<close> and \<open>Math.PI\<close>.  A function
  below is the function of the same name above with the suffix \<open>F\<close>, every operation in
  the place and in the order of the source; with the arithmetic \<open>exact\<close> it is the function
  above.

  \<open>double\<close> rounds a real number to the nearest number with a significand of 53 bits, a
  tie to the even significand.  The exponent is not bounded, so \<open>double\<close> is the rounding of
  the source for results of a magnitude between \<open>2 powi (- 1022)\<close> and \<open>2 powi 1024\<close>;
  subnormal numbers, Infinity and NaN are not modelled.
\<close>

definition roundEven :: "real \<Rightarrow> int" where
  "roundEven r =
     (let f = \<lfloor>r\<rfloor>; d = r - of_int f
      in if d < 1 / 2 then f else if 1 / 2 < d then f + 1 else if even f then f else f + 1)"

definition roundTo :: "int \<Rightarrow> real \<Rightarrow> real" where
  "roundTo e x = of_int (roundEven (x / 2 powi e)) * 2 powi e"

definition double :: "real \<Rightarrow> real" where
  "double x = (if x = 0 then 0 else roundTo (\<lfloor>log 2 \<bar>x\<bar>\<rfloor> - 52) x)"

record arith =
  rnd :: "real \<Rightarrow> real"
  square :: "real \<Rightarrow> real"
  mathCos :: "real \<Rightarrow> real"
  mathSin :: "real \<Rightarrow> real"
  mathPI :: real

definition exact :: arith where
  "exact = \<lparr>rnd = (\<lambda>x. x), square = (\<lambda>x. x\<^sup>2), mathCos = cos, mathSin = sin, mathPI = pi\<rparr>"

text \<open>
  An arithmetic whose operations round to double precision, the square like the product
  \<open>x * x\<close>; its cosine, its sine and its constant are those of the argument, whatever
  they are.
\<close>

definition ieee :: "arith \<Rightarrow> arith" where
  "ieee ar = ar\<lparr>rnd := double, square := (\<lambda>x. double (x * x))\<rparr>"

definition addF :: "arith \<Rightarrow> coordinate \<Rightarrow> coordinate \<Rightarrow> coordinate" where
  "addF ar this other = \<lparr>cx = rnd ar (cx this + cx other), cy = rnd ar (cy this + cy other)\<rparr>"

definition subtractF :: "arith \<Rightarrow> coordinate \<Rightarrow> coordinate \<Rightarrow> coordinate" where
  "subtractF ar this other = \<lparr>cx = rnd ar (cx this - cx other), cy = rnd ar (cy this - cy other)\<rparr>"

definition scaleF :: "arith \<Rightarrow> real option \<Rightarrow> scaleArg \<Rightarrow> coordinate \<Rightarrow> coordinate" where
  "scaleF ar scaleX scaleY this =
     (let c1 = (case scaleX of Some s \<Rightarrow> this\<lparr>cx := rnd ar (cx this * s)\<rparr> | None \<Rightarrow> this)
      in case scaleY of
           Factor t \<Rightarrow> c1\<lparr>cy := rnd ar (cy c1 * t)\<rparr>
         | UseScaleX \<Rightarrow> (case scaleX of Some s \<Rightarrow> c1\<lparr>cy := rnd ar (cy c1 * s)\<rparr> | None \<Rightarrow> c1))"

text \<open>
  The two loops of the angle normalization.  Whether they end depends on the rounding, so
  they are partial functions: \<open>None\<close> is a loop that does not end.
\<close>

partial_function (option) normalizeUpF :: "arith \<Rightarrow> real \<Rightarrow> real option" where
  "normalizeUpF ar angle =
     (if angle \<le> - 180 then normalizeUpF ar (rnd ar (angle + 360)) else Some angle)"

partial_function (option) normalizeDownF :: "arith \<Rightarrow> real \<Rightarrow> real option" where
  "normalizeDownF ar angle =
     (if angle > 180 then normalizeDownF ar (rnd ar (angle - 360)) else Some angle)"

definition normalizeAngleF :: "arith \<Rightarrow> real \<Rightarrow> real option" where
  "normalizeAngleF ar angle =
     (case normalizeUpF ar angle of None \<Rightarrow> None | Some a \<Rightarrow> normalizeDownF ar a)"

definition rotateF :: "arith \<Rightarrow> real \<Rightarrow> coordinate option \<Rightarrow> coordinate \<Rightarrow> coordinate option" where
  "rotateF ar angle0 centerCoord this =
     (case normalizeAngleF ar angle0 of
        None \<Rightarrow> None
      | Some angle \<Rightarrow>
          Some (let c1 = (case centerCoord of Some m \<Rightarrow> subtractF ar this m | None \<Rightarrow> this);
                    c2 = (if angle = 0 then c1
                          else if angle = 90 then \<lparr>cx = - cy c1, cy = cx c1\<rparr>
                          else if angle = 180 then \<lparr>cx = - cx c1, cy = - cy c1\<rparr>
                          else if angle = - 90 then \<lparr>cx = cy c1, cy = - cx c1\<rparr>
                          else (let radians = rnd ar (rnd ar (mathPI ar / 180) * angle);
                                    c = mathCos ar radians;
                                    s = mathSin ar radians
                                in \<lparr>cx = rnd ar (rnd ar (c * cx c1) - rnd ar (s * cy c1)),
                                    cy = rnd ar (rnd ar (s * cx c1) + rnd ar (c * cy c1))\<rparr>))
                in case centerCoord of Some m \<Rightarrow> addF ar c2 m | None \<Rightarrow> c2))"

definition orthogonalProjectionF ::
  "arith \<Rightarrow> coordinate \<Rightarrow> coordinate \<Rightarrow> coordinate \<Rightarrow> coordinate" where
  "orthogonalProjectionF ar this lineStart lineEnd =
     (let lineVector = subtractF ar lineEnd lineStart;
          helpVector = subtractF ar this lineStart;
          denominator = rnd ar (square ar (cx lineVector) + square ar (cy lineVector));
          lambda = (if denominator = 0 then None
                    else Some (rnd ar (rnd ar (rnd ar (cx lineVector * cx helpVector)
                                              + rnd ar (cy lineVector * cy helpVector))
                                       / denominator)))
      in addF ar (scaleF ar lambda UseScaleX lineVector) lineStart)"

definition lineCrossingCoordF :: "arith \<Rightarrow> stencilPin list \<Rightarrow> error + coordinate" where
  "lineCrossingCoordF ar pins =
     (case pins of
        p0 # p1 # p2 # _ \<Rightarrow> Inr (orthogonalProjectionF ar (s_coord p2) (s_coord p0) (s_coord p1))
      | _ \<Rightarrow> Inl TypeError)"

definition mirrorStepF ::
  "arith \<Rightarrow> bool \<Rightarrow> bool \<Rightarrow> nat \<Rightarrow> stencilPin list \<Rightarrow> nat \<Rightarrow> stencilPin list" where
  "mirrorStepF ar mX mY anchor pins i =
     (let mirrorMid = s_coord (pins ! anchor);
          c3 = flipCoord mX mY (subtractF ar (s_coord (pins ! i)) mirrorMid);
          c4 = addF ar c3 (if i = anchor then c3 else mirrorMid)
      in pins[i := (pins ! i)\<lparr>s_coord := c4\<rparr>])"

definition mirrorAboutF :: "arith \<Rightarrow> bool \<Rightarrow> bool \<Rightarrow> coordinate \<Rightarrow> stencilPin \<Rightarrow> stencilPin" where
  "mirrorAboutF ar mX mY mirrorMid p =
     p\<lparr>s_coord := addF ar (flipCoord mX mY (subtractF ar (s_coord p) mirrorMid)) mirrorMid\<rparr>"

definition mapperMirrorF ::
  "arith \<Rightarrow> bool \<Rightarrow> bool \<Rightarrow> nat \<Rightarrow> stencilPin list \<Rightarrow> error + stencilPin list" where
  "mapperMirrorF ar mX mY anchor pins =
     (if \<not> (mX \<or> mY) then Inr pins
      else if anchor < length pins
      then Inr (foldl (mirrorStepF ar mX mY anchor) pins [0..<length pins])
      else Inl TypeError)"

text \<open>
  The loop \<open>for (let i = 0; i < this.pins.length; i++) if (i !== anchor) this.pins[i].coord.rotate(angle)\<close>
  of both \<open>rotate\<close> methods, from the pin number \<open>i\<close> on; \<open>skip\<close> tells the anchor pin.
\<close>

fun rotatePinsF :: "arith \<Rightarrow> real \<Rightarrow> (nat \<Rightarrow> bool) \<Rightarrow> nat \<Rightarrow> stencilPin list \<Rightarrow> stencilPin list option" where
  "rotatePinsF ar angle skip i [] = Some []"
| "rotatePinsF ar angle skip i (p # ps) =
     (if skip i
      then (case rotatePinsF ar angle skip (Suc i) ps of None \<Rightarrow> None | Some qs \<Rightarrow> Some (p # qs))
      else (case rotateF ar angle None (s_coord p) of
              None \<Rightarrow> None
            | Some c \<Rightarrow>
                (case rotatePinsF ar angle skip (Suc i) ps of
                   None \<Rightarrow> None
                 | Some qs \<Rightarrow> Some (p\<lparr>s_coord := c\<rparr> # qs))))"

definition mapperRotateF :: "arith \<Rightarrow> real \<Rightarrow> nat \<Rightarrow> stencilPin list \<Rightarrow> stencilPin list option" where
  "mapperRotateF ar angle anchor pins =
     (if angle = 0 then Some pins else rotatePinsF ar angle (\<lambda>i. i = anchor) 0 pins)"

definition translatePinF :: "arith \<Rightarrow> coordinate \<Rightarrow> stencilPin \<Rightarrow> stencilPin" where
  "translatePinF ar v p = p\<lparr>s_coord := addF ar (s_coord p) v\<rparr>"

definition transistorMirrorF ::
  "arith \<Rightarrow> bool \<Rightarrow> bool \<Rightarrow> (stencilPin, coordinate) transistor \<Rightarrow>
   error + (stencilPin, coordinate) transistor" where
  "transistorMirrorF ar mX mY this =
     (if \<not> (mX \<or> mY) then Inr this
      else
        (let this1 = this\<lparr>t_mirrorX := (t_mirrorX this \<noteq> mX), t_mirrorY := (t_mirrorY this \<noteq> mY)\<rparr>
         in case t_anchorNr this of
              None \<Rightarrow>
                (case t_anchorCoord this of
                   Some mirrorMid \<Rightarrow>
                     Inr (this1\<lparr>t_pins := map (mirrorAboutF ar mX mY mirrorMid) (t_pins this)\<rparr>)
                 | None \<Rightarrow> if t_pins this = [] then Inr this1 else Inl TypeError)
            | Some k \<Rightarrow>
                (if k < length (t_pins this)
                 then Inr (this1\<lparr>t_pins := foldl (mirrorStepF ar mX mY k) (t_pins this)
                                               [0..<length (t_pins this)]\<rparr>)
                 else if t_pins this = [] then Inr this1 else Inl TypeError)))"

definition transistorRotateF ::
  "arith \<Rightarrow> real \<Rightarrow> (stencilPin, coordinate) transistor \<Rightarrow> (stencilPin, coordinate) transistor option" where
  "transistorRotateF ar angle this =
     (if angle = 0 then Some this
      else (case rotatePinsF ar angle (\<lambda>i. Some i = t_anchorNr this) 0 (t_pins this) of
              None \<Rightarrow> None
            | Some pins \<Rightarrow>
                (case normalizeAngleF ar (rnd ar (t_angle this + angle)) of
                   None \<Rightarrow> None
                 | Some a \<Rightarrow> Some (this\<lparr>t_pins := pins, t_angle := a\<rparr>))))"

definition transistorTranslateF ::
  "arith \<Rightarrow> coordinate \<Rightarrow> (stencilPin, coordinate) transistor \<Rightarrow> (stencilPin, coordinate) transistor" where
  "transistorTranslateF ar v this =
     this\<lparr>t_pins := map (translatePinF ar v) (t_pins this),
          t_anchorCoord := map_option (\<lambda>c. addF ar c v) (t_anchorCoord this)\<rparr>"

definition instanceCoordOfF :: "arith \<Rightarrow> placement \<Rightarrow> coordinate" where
  "instanceCoordOfF ar placement =
     \<lparr>cx = rnd ar (pl_x placement * pl_scaling placement),
      cy = rnd ar (pl_y placement * pl_scaling placement)\<rparr>"

definition placeAnatomicalF :: "arith \<Rightarrow> mapper \<Rightarrow> placement \<Rightarrow> (error + stencilPin list) option" where
  "placeAnatomicalF ar this placement =
     (case normalizeAngleF ar (pl_angle placement) of
        None \<Rightarrow> None
      | Some angle \<Rightarrow>
          (let scalingX = rnd ar (pl_xScale placement * pl_scaling placement);
               scalingY = rnd ar (pl_yScale placement * pl_scaling placement);
               pins1 = map (\<lambda>p. p\<lparr>s_coord := scaleF ar (Some scalingX) (Factor scalingY) (s_coord p)\<rparr>)
                         (m_pins this)
           in case mapperRotateF ar angle (m_anchorNr this) pins1 of
                None \<Rightarrow> None
              | Some pins2 \<Rightarrow>
                  Some (case mapperMirrorF ar (pl_mirrorX placement) (pl_mirrorY placement)
                               (m_anchorNr this) pins2 of
                          Inl e \<Rightarrow> Inl e
                        | Inr pins3 \<Rightarrow>
                            Inr (map (translatePinF ar (instanceCoordOfF ar placement)) pins3))))"

definition placeTemplateF ::
  "arith \<Rightarrow> mapper \<Rightarrow> placement \<Rightarrow> stencilPin list \<Rightarrow>
   (error + (stencilPin, coordinate) transistor) option" where
  "placeTemplateF ar this placement ablPins =
     (case normalizeAngleF ar (pl_angle placement) of
        None \<Rightarrow> None
      | Some angle \<Rightarrow>
          (case transistorRotateF ar angle (tikzDeepClone (m_tikzTransistor this)) of
             None \<Rightarrow> None
           | Some t1 \<Rightarrow>
               Some (case transistorMirrorF ar (pl_mirrorX placement) (pl_mirrorY placement) t1 of
                       Inl e \<Rightarrow> Inl e
                     | Inr t2 \<Rightarrow>
                         (case lineCrossingCoordF ar ablPins of
                            Inl e \<Rightarrow> Inl e
                          | Inr ablCrossing \<Rightarrow>
                              (case lineCrossingCoordF ar (t_pins t2) of
                                 Inl e \<Rightarrow> Inl e
                               | Inr crossing \<Rightarrow>
                                   Inr (transistorTranslateF ar (subtractF ar ablCrossing crossing) t2))))))"

text \<open>
  \<open>Transistor.fromStruct\<close> and the entries \<open>npn\<close> and \<open>BJT\<close> of the catalog: a literal of
  the source is the rounded value of its decimal numeral.  The coordinates of the anatomical
  pins, 0 and 0.5, are numbers of every binary arithmetic.
\<close>

definition fromStructF :: "arith \<Rightarrow> string \<Rightarrow> string list \<Rightarrow> tikzTripolOptions \<Rightarrow> transistorStencil" where
  "fromStructF ar tikzComponentName anchorNames options =
     (let pgfCircRlen = (case o_pgfCircRlen options of Some v \<Rightarrow> v | None \<Rightarrow> rnd ar 1.4);
          width0 = (case o_width options of Some v \<Rightarrow> v | None \<Rightarrow> rnd ar 0.7);
          connHeight = (case o_connHeight options of Some v \<Rightarrow> v | None \<Rightarrow> rnd ar 0.5);
          height = (case o_height options of Some v \<Rightarrow> v | None \<Rightarrow> rnd ar 1.1);
          halfHeight = rnd ar (rnd ar (pgfCircRlen * height) * rnd ar 0.5);
          width = rnd ar (pgfCircRlen * width0);
          pins = [\<lparr>s_coord = \<lparr>cx = 0, cy = halfHeight\<rparr>, s_name = None, s_instTermNumber = 0\<rparr>,
                  \<lparr>s_coord = \<lparr>cx = 0, cy = - halfHeight\<rparr>, s_name = None, s_instTermNumber = 0\<rparr>,
                  \<lparr>s_coord = \<lparr>cx = - width, cy = rnd ar (halfHeight * connHeight)\<rparr>, s_name = None,
                   s_instTermNumber = 0\<rparr>]
      in \<lparr>ts_tikzComponentName = tikzComponentName, ts_pins = pins, ts_anchorNames = anchorNames,
          ts_anchorNr = None, ts_anchorCoord = Some \<lparr>cx = 0, cy = 0\<rparr>\<rparr>)"

definition npnF :: "arith \<Rightarrow> transistorStencil" where
  "npnF ar = fromStructF ar ''npn'' [''C'', ''E'', ''B'']
           \<lparr>o_pgfCircRlen = None, o_width = Some (rnd ar 0.6), o_connHeight = Some 0,
            o_height = Some (rnd ar 1.1)\<rparr>"

definition BJTF :: "arith \<Rightarrow> mapper" where
  "BJTF ar = \<lparr>m_tikzTransistor = npnF ar,
          m_pins = [TRANSISTOR_TOP_PIN, TRANSISTOR_BOTTOM_PIN, TRANSISTOR_TAP_PIN], m_anchorNr = 2\<rparr>"

text \<open>
  An example in double precision: the mapper \<open>BJT\<close> placed at (-1, 0.75), not turned, with
  the unit factor 2.54 of the program, without and with \<open>mirrorX\<close>.  The pins of the
  template \<open>npn\<close> as the catalog has them and mirrored, and the anatomical pins and the
  template after the placement.
\<close>

definition inchPlacement :: placement where
  "inchPlacement = \<lparr>pl_x = - 1, pl_y = 0.75, pl_angle = 0, pl_xScale = 1, pl_yScale = 1,
     pl_mirrorX = False, pl_mirrorY = False, pl_scaling = double 2.54\<rparr>"

definition npnDouble :: "stencilPin list" where
  "npnDouble =
     [\<lparr>s_coord = \<lparr>cx = 0, cy = 1733885856537641 / 2251799813685248\<rparr>, s_name = None, s_instTermNumber = 0\<rparr>,
      \<lparr>s_coord = \<lparr>cx = 0, cy = - 1733885856537641 / 2251799813685248\<rparr>, s_name = None, s_instTermNumber = 0\<rparr>,
      \<lparr>s_coord = \<lparr>cx = - 7566047373982433 / 9007199254740992, cy = 0\<rparr>, s_name = None, s_instTermNumber = 0\<rparr>]"

definition npnDoubleMirrored :: "stencilPin list" where
  "npnDoubleMirrored =
     [\<lparr>s_coord = \<lparr>cx = 0, cy = - 1733885856537641 / 2251799813685248\<rparr>, s_name = None, s_instTermNumber = 0\<rparr>,
      \<lparr>s_coord = \<lparr>cx = 0, cy = 1733885856537641 / 2251799813685248\<rparr>, s_name = None, s_instTermNumber = 0\<rparr>,
      \<lparr>s_coord = \<lparr>cx = - 7566047373982433 / 9007199254740992, cy = 0\<rparr>, s_name = None, s_instTermNumber = 0\<rparr>]"

definition inchAnatomical :: "stencilPin list" where
  "inchAnatomical =
     [\<lparr>s_coord = \<lparr>cx = - 2859785763380265 / 2251799813685248, cy = 3574732204225331 / 1125899906842624\<rparr>,
       s_name = None, s_instTermNumber = 1\<rparr>,
      \<lparr>s_coord = \<lparr>cx = - 2859785763380265 / 2251799813685248, cy = 2859785763380265 / 4503599627370496\<rparr>,
       s_name = None, s_instTermNumber = 3\<rparr>,
      \<lparr>s_coord = \<lparr>cx = - 2859785763380265 / 1125899906842624, cy = 8579357290140795 / 4503599627370496\<rparr>,
       s_name = None, s_instTermNumber = 2\<rparr>]"

definition inchTemplate :: "(stencilPin, coordinate) transistor" where
  "inchTemplate =
     \<lparr>t_tikzComponentName = ''npn'', t_instanceName = [],
      t_pins =
        [\<lparr>s_coord = \<lparr>cx = - 2859785763380265 / 2251799813685248, cy = 3011782250804019 / 1125899906842624\<rparr>,
          s_name = None, s_instTermNumber = 0\<rparr>,
         \<lparr>s_coord = \<lparr>cx = - 2859785763380265 / 2251799813685248, cy = 5111585577065513 / 4503599627370496\<rparr>,
          s_name = None, s_instTermNumber = 0\<rparr>,
         \<lparr>s_coord = \<lparr>cx = - 4751297606875873 / 2251799813685248, cy = 8579357290140795 / 4503599627370496\<rparr>,
          s_name = None, s_instTermNumber = 0\<rparr>],
      t_anchorNames = [''C'', ''E'', ''B''], t_anchorNr = None, t_nodeName = [],
      t_anchorCoord = Some \<lparr>cx = - 2859785763380265 / 2251799813685248, cy = 8579357290140795 / 4503599627370496\<rparr>,
      t_angle = 0, t_mirrorX = False, t_mirrorY = False\<rparr>"

definition inchAnatomicalMirrored :: "stencilPin list" where
  "inchAnatomicalMirrored =
     [\<lparr>s_coord = \<lparr>cx = - 2859785763380265 / 2251799813685248, cy = 2859785763380265 / 4503599627370496\<rparr>,
       s_name = None, s_instTermNumber = 1\<rparr>,
      \<lparr>s_coord = \<lparr>cx = - 2859785763380265 / 2251799813685248, cy = 3574732204225331 / 1125899906842624\<rparr>,
       s_name = None, s_instTermNumber = 3\<rparr>,
      \<lparr>s_coord = \<lparr>cx = - 2859785763380265 / 1125899906842624, cy = 8579357290140795 / 4503599627370496\<rparr>,
       s_name = None, s_instTermNumber = 2\<rparr>]"

definition inchTemplateMirrored :: "(stencilPin, coordinate) transistor" where
  "inchTemplateMirrored =
     \<lparr>t_tikzComponentName = ''npn'', t_instanceName = [],
      t_pins =
        [\<lparr>s_coord = \<lparr>cx = - 2859785763380265 / 2251799813685248, cy = 5111585577065513 / 4503599627370496\<rparr>,
          s_name = None, s_instTermNumber = 0\<rparr>,
         \<lparr>s_coord = \<lparr>cx = - 2859785763380265 / 2251799813685248, cy = 3011782250804019 / 1125899906842624\<rparr>,
          s_name = None, s_instTermNumber = 0\<rparr>,
         \<lparr>s_coord = \<lparr>cx = - 4751297606875873 / 2251799813685248, cy = 8579357290140795 / 4503599627370496\<rparr>,
          s_name = None, s_instTermNumber = 0\<rparr>],
      t_anchorNames = [''C'', ''E'', ''B''], t_anchorNr = None, t_nodeName = [],
      t_anchorCoord = Some \<lparr>cx = - 2859785763380265 / 2251799813685248, cy = 8579357290140795 / 4503599627370496\<rparr>,
      t_angle = 0, t_mirrorX = True, t_mirrorY = False\<rparr>"

section \<open>The schematic: pool, nets, wires\<close>

text \<open>
  A \<open>Wire\<close> (wire.mjs) refers to its net and to its coordinates.  A \<open>Net\<close> (net.mjs) has a
  name and the wires pushed to it; nothing is ever pushed to its pins.  A wire is never
  changed after it is built, so the nets hold wires by value.
\<close>

record wire =
  w_net :: nat
  w_coords :: "nat list"

record net =
  n_netname :: string
  n_wires :: "wire list"

text \<open>
  The private fields of \<open>Schematic\<close> (schematic.mjs): the store of coordinate objects, the
  pool \<open>#coords\<close> (an array of references; an entry can be \<open>undefined\<close>), the \<open>Net\<close>
  objects with the table \<open>#nets\<close> from names to them, \<open>#wires\<close> and \<open>#components\<close>.
  \<open>sc_uuids\<close> counts the calls of \<open>uuid()\<close>.
\<close>

record schematic =
  sc_store :: store
  sc_coords :: "nat option list"
  sc_netObjs :: "net list"
  sc_nets :: "string \<rightharpoonup> nat"
  sc_wires :: "wire list"
  sc_components :: "component list"
  sc_uuids :: nat

definition emptySchematic :: schematic where
  "emptySchematic = \<lparr>sc_store = [], sc_coords = [], sc_netObjs = [], sc_nets = Map.empty,
     sc_wires = [], sc_components = [], sc_uuids = 0\<rparr>"

text \<open>
  \<open>coords.find((existingCoord) => c.equals(existingCoord))\<close>: the first entry of the pool
  whose value equals \<open>c\<close>.
\<close>

definition findCoord :: "store \<Rightarrow> nat option list \<Rightarrow> coordinate \<Rightarrow> nat option" where
  "findCoord st coords c =
     (case find (\<lambda>e. equals c (map_option (\<lambda>a. st ! a) e)) coords of
        Some e \<Rightarrow> e
      | None \<Rightarrow> None)"

text \<open>
  Canonicalization of a coordinate that was just created, as the source writes it in
  place wherever it needs it: \<open>const oldCoord = coords.find(...); if (oldCoord) c = oldCoord;
  else coords.push(c)\<close>.  The new object enters the store only when it is pushed.
\<close>

definition canonicalize :: "schematic \<Rightarrow> coordinate \<Rightarrow> schematic \<times> nat" where
  "canonicalize sc c =
     (case findCoord (sc_store sc) (sc_coords sc) c of
        Some a \<Rightarrow> (sc, a)
      | None \<Rightarrow>
          (sc\<lparr>sc_store := sc_store sc @ [c], sc_coords := sc_coords sc @ [Some (length (sc_store sc))]\<rparr>,
           length (sc_store sc)))"

text \<open>
  \<open>let net = this.#nets.get(netName); if (!net) this.#nets.set(netName, (net = new
  Net(netName)))\<close>.
\<close>

definition getNet :: "schematic \<Rightarrow> string \<Rightarrow> schematic \<times> nat" where
  "getNet sc netName =
     (case sc_nets sc netName of
        Some n \<Rightarrow> (sc, n)
      | None \<Rightarrow>
          (sc\<lparr>sc_netObjs := sc_netObjs sc @ [\<lparr>n_netname = netName, n_wires = []\<rparr>],
              sc_nets := (sc_nets sc)(netName \<mapsto> length (sc_netObjs sc))\<rparr>,
           length (sc_netObjs sc)))"

text \<open>
  A wire of the input, as the XML layer gives it: the name of its net (\<open>""\<close> when the tag
  or the attribute is missing) and the entries of the text of its points, each of which
  either parses to two finite numbers or does not.
\<close>

datatype coordToken = Point real real | Unparsable string

record wireXml =
  wx_netName :: string
  wx_points :: "coordToken list"

text \<open>
  One round of the \<open>reduce\<close> over the points of a wire: the state, the coordinates of the
  wire so far and the lines written to \<open>console.error\<close>.
\<close>

definition parsePoint ::
  "real \<Rightarrow> schematic \<times> nat list \<times> string list \<Rightarrow> coordToken \<Rightarrow> schematic \<times> nat list \<times> string list" where
  "parsePoint scale0 acc tok =
     (case acc of (sc, wireCoords, lg) \<Rightarrow>
        (case tok of
           Point a b \<Rightarrow>
             (let (sc1, c) = canonicalize sc \<lparr>cx = scale0 * a, cy = scale0 * b\<rparr>
              in (sc1, wireCoords @ [c], lg))
         | Unparsable str \<Rightarrow> (sc, wireCoords, lg @ [''Couldn't parse wire coordinate: '' @ str])))"

definition parseWire :: "real \<Rightarrow> schematic \<Rightarrow> wireXml \<Rightarrow> schematic \<times> string list" where
  "parseWire scale0 sc wireX =
     (let (sc1, n) = getNet sc (wx_netName wireX);
          (sc2, wireCoords, lg) = foldl (parsePoint scale0) (sc1, [], []) (wx_points wireX);
          w = \<lparr>w_net = n, w_coords = wireCoords\<rparr>;
          netObj = sc_netObjs sc2 ! n
      in (sc2\<lparr>sc_netObjs := (sc_netObjs sc2)[n := netObj\<lparr>n_wires := n_wires netObj @ [w]\<rparr>],
              sc_wires := sc_wires sc2 @ [w]\<rparr>, lg))"

definition parseWires :: "real \<Rightarrow> schematic \<Rightarrow> wireXml list \<Rightarrow> schematic \<times> string list" where
  "parseWires scale0 sc ws =
     foldl (\<lambda>(sc1, lg) wireX. let (sc2, lg2) = parseWire scale0 sc1 wireX in (sc2, lg @ lg2))
       (sc, []) ws"

section \<open>Snapping\<close>

text \<open>
  The \<open>reduce\<close> over the coordinates of one wire, starting from
  \<open>{ distance: maxDist, coord: null }\<close>: the closest coordinate of the wire that is not
  farther than \<open>maxDist\<close>, the last one among equally close ones.
\<close>

definition closestOnWire :: "store \<Rightarrow> coordinate \<Rightarrow> real \<Rightarrow> wire \<Rightarrow> real \<times> nat option" where
  "closestOnWire st c maxDist w =
     foldl (\<lambda>prevVal a. let distance = getDistance c (st ! a)
                         in if fst prevVal < distance then prevVal else (distance, Some a))
       (maxDist, None) (w_coords w)"

text \<open>
  \<open>possibleCoords.sort((a, b) => a.distance - b.distance)?.[0]?.coord\<close> over the wires whose
  net is the pin's net.  The sort is stable.  With no net the list is empty.  When the
  pin has no coordinate (\<open>None\<close>) the first call of \<open>getDistance\<close> raises a TypeError.
\<close>

definition searchWires ::
  "store \<Rightarrow> wire list \<Rightarrow> nat option \<Rightarrow> coordinate option \<Rightarrow> real \<Rightarrow> error + nat option" where
  "searchWires st wires netRef thisCoord maxDist =
     (case netRef of
        None \<Rightarrow> Inr None
      | Some n \<Rightarrow>
          (let ws = filter (\<lambda>w. w_net w = n) wires
           in case thisCoord of
                None \<Rightarrow> if list_ex (\<lambda>w. w_coords w \<noteq> []) ws then Inl TypeError else Inr None
              | Some c \<Rightarrow>
                  (case sort_key fst (map (closestOnWire st c maxDist) ws) of
                     [] \<Rightarrow> Inr None
                   | cand # _ \<Rightarrow> Inr (snd cand))))"

text \<open>
  The coordinate a pin is given before the search: the coordinate of the first stencil pin
  with the pin's terminal number, cloned, and, when \<open>relativeCoords\<close> is true, scaled,
  rotated, mirrored and moved by the coordinate of the instance; with no such stencil pin
  the coordinate of the instance itself (a reference), or nothing when \<open>relativeCoords\<close> is
  false.  \<open>rel\<close> holds the placement and the reference to the coordinate of the instance
  when \<open>relativeCoords\<close> is true.
\<close>

definition pinHint :: "stencilPin list \<Rightarrow> (placement \<times> nat) option \<Rightarrow> store \<Rightarrow> pin \<Rightarrow> cref option" where
  "pinHint pins rel st this =
     (let hint = map_option s_coord
                   (find (\<lambda>stencilPin. s_instTermNumber stencilPin = p_instTermNumber this) pins)
      in case rel of
           None \<Rightarrow> map_option Fresh hint
         | Some (placement, instanceCoord) \<Rightarrow>
             (case hint of
                None \<Rightarrow> Some (Ref instanceCoord)
              | Some h \<Rightarrow>
                  (let c1 = scale (Some (pl_xScale placement * pl_scaling placement))
                              (Factor (pl_yScale placement * pl_scaling placement)) h;
                       c2 = rotate_c (pl_angle placement) None c1;
                       c3 = (if pl_mirrorX placement then mirrorX c2 else c2);
                       c4 = (if pl_mirrorY placement then mirrorY c3 else c3)
                   in Some (Fresh (add c4 (st ! instanceCoord))))))"

text \<open>
  The search and what follows it: the pin takes the coordinate found (by reference), or
  else its own coordinate is canonicalized.  Without a coordinate of its own,
  \<open>this.coord.equals\<close> raises a TypeError on the first entry of the pool, and with an
  empty pool \<open>undefined\<close> is pushed.
\<close>

definition snapPin :: "real \<Rightarrow> schematic \<Rightarrow> pin \<Rightarrow> cref option \<Rightarrow> error + schematic \<times> pin" where
  "snapPin maxDist sc this thisCoord =
     (case searchWires (sc_store sc) (sc_wires sc) (p_net this)
             (map_option (deref (sc_store sc)) thisCoord) maxDist of
        Inl e \<Rightarrow> Inl e
      | Inr (Some a) \<Rightarrow> Inr (sc, this\<lparr>p_coord := Some a\<rparr>)
      | Inr None \<Rightarrow>
          (case thisCoord of
             None \<Rightarrow>
               (if sc_coords sc = []
                then Inr (sc\<lparr>sc_coords := [None]\<rparr>, this\<lparr>p_coord := None\<rparr>)
                else Inl TypeError)
           | Some r \<Rightarrow>
               (case findCoord (sc_store sc) (sc_coords sc) (deref (sc_store sc) r) of
                  Some a \<Rightarrow> Inr (sc, this\<lparr>p_coord := Some a\<rparr>)
                | None \<Rightarrow>
                    (case r of
                       Fresh c \<Rightarrow>
                         Inr (sc\<lparr>sc_store := sc_store sc @ [c],
                                 sc_coords := sc_coords sc @ [Some (length (sc_store sc))]\<rparr>,
                              this\<lparr>p_coord := Some (length (sc_store sc))\<rparr>)
                     | Ref a \<Rightarrow>
                         Inr (sc\<lparr>sc_coords := sc_coords sc @ [Some a]\<rparr>,
                              this\<lparr>p_coord := Some a\<rparr>)))))"

text \<open>
  \<open>Pin.findPosition(pins, placement, instanceCoord, wires, _nets, coords, relativeCoords)\<close>
  (pin.mjs): the search starts from the distance 1.
\<close>

definition findPosition ::
  "stencilPin list \<Rightarrow> (placement \<times> nat) option \<Rightarrow> schematic \<Rightarrow> pin \<Rightarrow> error + schematic \<times> pin" where
  "findPosition pins rel sc this = snapPin 1 sc this (pinHint pins rel (sc_store sc) this)"

text \<open>\<open>pins.forEach((pin) => pin.findPosition(...))\<close>, collecting the pins.\<close>

fun findPositions ::
  "stencilPin list \<Rightarrow> (placement \<times> nat) option \<Rightarrow> schematic \<Rightarrow> pin list \<Rightarrow> error + schematic \<times> pin list" where
  "findPositions pins rel sc [] = Inr (sc, [])"
| "findPositions pins rel sc (p # ps) =
     (case findPosition pins rel sc p of
        Inl e \<Rightarrow> Inl e
      | Inr (sc1, p1) \<Rightarrow>
          (case findPositions pins rel sc1 ps of
             Inl e \<Rightarrow> Inl e
           | Inr (sc2, ps2) \<Rightarrow> Inr (sc2, p1 # ps2)))"

section \<open>Placement\<close>

text \<open>
  The test of the reordering: \<open>pin.name && ablPin.name ? pin.name == ablPin.name :
  pin.instTermNumber === ablPin.instTermNumber\<close>, and the reordering itself:
  \<open>stencilPins.map((ablPin) => pins.find(...))\<close>, with \<open>None\<close> where \<open>find\<close> gives
  \<open>undefined\<close>.
\<close>

definition truthy :: "string option \<Rightarrow> bool" where
  "truthy v = (case v of None \<Rightarrow> False | Some str \<Rightarrow> str \<noteq> [])"

definition pinMatches :: "stencilPin \<Rightarrow> pin \<Rightarrow> bool" where
  "pinMatches ablPin p =
     (if truthy (p_name p) \<and> truthy (s_name ablPin) then p_name p = s_name ablPin
      else p_instTermNumber p = s_instTermNumber ablPin)"

definition reorder :: "stencilPin list \<Rightarrow> pin list \<Rightarrow> pin option list" where
  "reorder stencilPins pins = map (\<lambda>ablPin. find (pinMatches ablPin) pins) stencilPins"

text \<open>
  The start of every \<open>useAsStencil\<close>: the angle is normalized in the placement itself,
  and the coordinate of the instance is created.
\<close>

definition normalizePlacement :: "placement \<Rightarrow> placement" where
  "normalizePlacement placement = placement\<lparr>pl_angle := normalizeAngle (pl_angle placement)\<rparr>"

text \<open>
  The stencil of a path component: the name of the symbol and the pins.
  \<open>PathComponent.useAsStencil\<close> interns the coordinate of the instance, reorders the pins
  and then calls \<open>findPosition\<close> on each of the reordered pins; on an \<open>undefined\<close> one the
  call raises a TypeError.
\<close>

record pathStencil =
  ps_tikzComponentName :: string
  ps_pins :: "stencilPin list"

fun definedPins :: "pin option list \<Rightarrow> pin list option" where
  "definedPins [] = Some []"
| "definedPins (None # ps) = None"
| "definedPins (Some p # ps) = map_option (\<lambda>qs. p # qs) (definedPins ps)"

text \<open>
  \<open>forEach\<close> over the reordered pins: the defined pins before the first \<open>undefined\<close> one
  are positioned before the TypeError is raised, which only matters for the state that is
  lost with the error.
\<close>

definition pathUseAsStencil ::
  "pathStencil \<Rightarrow> string \<Rightarrow> pin list \<Rightarrow> placement \<Rightarrow> schematic \<Rightarrow> error + schematic \<times> pathComponent" where
  "pathUseAsStencil this instanceName pins placement0 sc =
     (let placement = normalizePlacement placement0;
          (sc1, instanceCoord) = canonicalize sc (instanceCoordOf placement)
      in case definedPins (reorder (ps_pins this) pins) of
           None \<Rightarrow> Inl TypeError
         | Some pins1 \<Rightarrow>
             (case findPositions (ps_pins this) (Some (placement, instanceCoord)) sc1 pins1 of
                Inl e \<Rightarrow> Inl e
              | Inr (sc2, pins2) \<Rightarrow>
                  Inr (sc2, \<lparr>pc_tikzComponentName = ps_tikzComponentName this,
                             pc_instanceName = instanceName, pc_pins = pins2,
                             pc_angle = pl_angle placement\<rparr>)))"

text \<open>
  \<open>PotentialComponent.useAsStencil\<close>: the angle is raised by 90 before it is normalized,
  and only the first pin of the instance is positioned (a TypeError without one).  The
  stencil's \<open>pin\<close> is whatever object the catalog passed to the constructor; the catalog
  passes a \<open>Coordinate\<close>, which has no terminal number, so that no pin of an instance
  finds it: this is \<open>None\<close> here.
\<close>

record potentialStencil =
  pos_potentialType :: potentialType
  pos_pin :: "stencilPin option"

definition potentialUseAsStencil ::
  "potentialStencil \<Rightarrow> pin list \<Rightarrow> placement \<Rightarrow> schematic \<Rightarrow> error + schematic \<times> potentialComponent" where
  "potentialUseAsStencil this pins placement0 sc =
     (let placement = normalizePlacement (placement0\<lparr>pl_angle := pl_angle placement0 + 90\<rparr>);
          (sc1, instanceCoord) = canonicalize sc (instanceCoordOf placement)
      in case pins of
           [] \<Rightarrow> Inl TypeError
         | p # _ \<Rightarrow>
             (case findPosition (case pos_pin this of None \<Rightarrow> [] | Some sp \<Rightarrow> [sp])
                     (Some (placement, instanceCoord)) sc1 p of
                Inl e \<Rightarrow> Inl e
              | Inr (sc2, p1) \<Rightarrow>
                  Inr (sc2, \<lparr>po_potentialType = pos_potentialType this, po_pin = p1,
                             po_angle = pl_angle placement, po_mirrorX = pl_mirrorX placement,
                             po_mirrorY = pl_mirrorY placement\<rparr>)))"

text \<open>
  The second half of \<open>ABLTransistorMapper.useAsStencil\<close>.  The coordinate of the
  instance is created and used for the translation, and is not interned.

  The block \<open>if (transistor.anchorNr != null && transistor.anchorCoord) {...}\<close> would
  canonicalize the coordinate of the transistor.
\<close>

definition internAnchor ::
  "schematic \<Rightarrow> (stencilPin, coordinate) transistor \<Rightarrow> schematic \<times> cref option" where
  "internAnchor sc t =
     (case (t_anchorNr t, t_anchorCoord t) of
        (Some k, Some c) \<Rightarrow> (let (sc1, a) = canonicalize sc c in (sc1, Some (Ref a)))
      | _ \<Rightarrow> (sc, map_option Fresh (t_anchorCoord t)))"

text \<open>
  The loop \<open>for (let i = 0; i < transistor.pins.length && i < pins.length; i++) {
  pins[i].coord.x = transistor.pins[i].coord.x; pins[i].coord.y = transistor.pins[i].coord.y
  }\<close>: the coordinate object the pin refers to is overwritten in place, and an
  \<open>undefined\<close> pin or a pin without coordinate raises a TypeError.
\<close>

fun overwriteCoords :: "store \<Rightarrow> pin option list \<Rightarrow> stencilPin list \<Rightarrow> error + store" where
  "overwriteCoords st (p # ps) (tp # tps) =
     (case p of
        None \<Rightarrow> Inl TypeError
      | Some q \<Rightarrow>
          (case p_coord q of
             None \<Rightarrow> Inl TypeError
           | Some a \<Rightarrow> overwriteCoords (st[a := s_coord tp]) ps tps))"
| "overwriteCoords st ps tps = Inr st"

definition mapperUseAsStencil ::
  "mapper \<Rightarrow> string \<Rightarrow> pin list \<Rightarrow> placement \<Rightarrow> schematic \<Rightarrow>
   error + schematic \<times> (pin option, cref) transistor" where
  "mapperUseAsStencil this instanceName pins placement sc =
     (case placeAnatomical this placement of
        Inl e \<Rightarrow> Inl e
      | Inr ablPins \<Rightarrow>
          (case placeTemplate this placement ablPins of
             Inl e \<Rightarrow> Inl e
           | Inr transistor \<Rightarrow>
               (let (sc1, anchorCoord) = internAnchor sc transistor
                in case findPositions ablPins None sc1 pins of
                     Inl e \<Rightarrow> Inl e
                   | Inr (sc2, pins1) \<Rightarrow>
                       (let pins2 = reorder ablPins pins1
                        in case overwriteCoords (sc_store sc2) pins2 (t_pins transistor) of
                             Inl e \<Rightarrow> Inl e
                           | Inr st3 \<Rightarrow>
                               Inr (sc2\<lparr>sc_store := st3\<rparr>,
                                    \<lparr>t_tikzComponentName = t_tikzComponentName transistor,
                                     t_instanceName = instanceName, t_pins = pins2,
                                     t_anchorNames = t_anchorNames transistor,
                                     t_anchorNr = t_anchorNr transistor,
                                     t_nodeName = t_nodeName transistor,
                                     t_anchorCoord = anchorCoord,
                                     t_angle = t_angle transistor,
                                     t_mirrorX = t_mirrorX transistor,
                                     t_mirrorY = t_mirrorY transistor\<rparr>)))))"

text \<open>
  The number \<open>Number.MAX_VALUE\<close>, and \<open>Component.cloneToPosition\<close> of the earlier
  \<open>Component\<close> class (component.mjs).  The body of its loop over the pins is the text of
  \<open>findPosition\<close> with \<open>relativeCoords\<close> true, except that the search starts from
  \<open>Number.MAX_VALUE\<close>; the pins are not reordered.  The component it returns has the pins,
  the coordinate of the instance, the angle and the mirror flags.
\<close>

definition MAX_VALUE :: real where
  "MAX_VALUE = (2 ^ 53 - 1) * 2 ^ 971"

record componentStencil =
  cs_tikzComponentName :: string
  cs_pins :: "stencilPin list"

record placedComponent =
  cp_tikzComponentName :: string
  cp_instanceName :: "string option"
  cp_pins :: "pin list"
  cp_coord :: nat
  cp_angle :: real
  cp_mirrorX :: bool
  cp_mirrorY :: bool

fun clonePins ::
  "stencilPin list \<Rightarrow> placement \<times> nat \<Rightarrow> schematic \<Rightarrow> pin list \<Rightarrow> error + schematic \<times> pin list" where
  "clonePins pins rel sc [] = Inr (sc, [])"
| "clonePins pins rel sc (p # ps) =
     (case snapPin MAX_VALUE sc p (pinHint pins (Some rel) (sc_store sc) p) of
        Inl e \<Rightarrow> Inl e
      | Inr (sc1, p1) \<Rightarrow>
          (case clonePins pins rel sc1 ps of
             Inl e \<Rightarrow> Inl e
           | Inr (sc2, ps2) \<Rightarrow> Inr (sc2, p1 # ps2)))"

definition cloneToPosition ::
  "componentStencil \<Rightarrow> string option \<Rightarrow> pin list \<Rightarrow> placement \<Rightarrow> schematic \<Rightarrow>
   error + schematic \<times> placedComponent" where
  "cloneToPosition this instanceNameAttribute pins placement0 sc =
     (let placement = normalizePlacement placement0;
          (sc1, instanceCoord) = canonicalize sc (instanceCoordOf placement)
      in case clonePins (cs_pins this) (placement, instanceCoord) sc1 pins of
           Inl e \<Rightarrow> Inl e
         | Inr (sc2, pins1) \<Rightarrow>
             Inr (sc2, \<lparr>cp_tikzComponentName = cs_tikzComponentName this,
                        cp_instanceName = (if truthy instanceNameAttribute then instanceNameAttribute
                                           else None),
                        cp_pins = pins1, cp_coord = instanceCoord,
                        cp_angle = pl_angle placement, cp_mirrorX = pl_mirrorX placement,
                        cp_mirrorY = pl_mirrorY placement\<rparr>))"

section \<open>Parsing the instances\<close>

text \<open>
  An instance of the input, as the XML layer gives it: the three names (\<open>""\<close> for a
  missing attribute), the placement after \<open>parseFloat\<close> and its defaults (\<open>None\<close> without
  a placement tag), and the pins with terminal number, name and net name.  The attribute
  map and the visible parameters are computed by the source and not used by
  \<open>useAsStencil\<close>; they are left out.
\<close>

record instPinXml =
  ipx_instTermNumber :: int
  ipx_pinName :: string
  ipx_netName :: string

record instanceXml =
  ix_libraryName :: string
  ix_cellName :: string
  ix_instanceName :: string
  ix_placement :: "placement option"
  ix_pins :: "instPinXml list"

text \<open>A stencil of the catalog \<open>ADS_COMPONENTS_MAP\<close>, by its class.\<close>

datatype stencil =
    PathStencil pathStencil
  | PotentialStencil potentialStencil
  | MapperStencil mapper

text \<open>
  \<open>ADS_COMPONENTS_MAP.get(libraryName + ":" + cellName) || ADS_COMPONENTS_MAP.get(cellName)\<close>.
\<close>

definition lookupStencil :: "(string \<rightharpoonup> stencil) \<Rightarrow> string \<Rightarrow> string \<Rightarrow> stencil option" where
  "lookupStencil catalog libraryName cellName =
     (case catalog (libraryName @ '':'' @ cellName) of
        Some stn \<Rightarrow> Some stn
      | None \<Rightarrow> catalog cellName)"

text \<open>
  A pin of an instance: \<open>if (!netName) netName = uuid()\<close> gives a pin without net name a
  name of its own.  \<open>uuid\<close> is the library's generator: the parameter \<open>uuid\<close> gives the
  text of its k-th call.
\<close>

definition parsePin :: "(nat \<Rightarrow> string) \<Rightarrow> schematic \<Rightarrow> instPinXml \<Rightarrow> schematic \<times> pin" where
  "parsePin uuid sc pinX =
     (let (sc1, netName) =
            (if ipx_netName pinX = []
             then (sc\<lparr>sc_uuids := Suc (sc_uuids sc)\<rparr>, uuid (sc_uuids sc))
             else (sc, ipx_netName pinX));
          (sc2, n) = getNet sc1 netName
      in (sc2, \<lparr>p_coord = None, p_name = Some (ipx_pinName pinX),
                p_instTermNumber = ipx_instTermNumber pinX, p_net = Some n\<rparr>))"

fun parsePins :: "(nat \<Rightarrow> string) \<Rightarrow> schematic \<Rightarrow> instPinXml list \<Rightarrow> schematic \<times> pin list" where
  "parsePins uuid sc [] = (sc, [])"
| "parsePins uuid sc (pinX # rest) =
     (let (sc1, p) = parsePin uuid sc pinX; (sc2, ps) = parsePins uuid sc1 rest in (sc2, p # ps))"

text \<open>
  The placement without a placement tag: the source writes \<open>mirrorX: 1, mirrorY: 1\<close>,
  which counts as true.
\<close>

definition defaultPlacement :: placement where
  "defaultPlacement = \<lparr>pl_x = 0, pl_y = 0, pl_angle = 0, pl_xScale = 1, pl_yScale = 1,
     pl_mirrorX = True, pl_mirrorY = True, pl_scaling = 1\<rparr>"

definition skipMessage :: "instanceXml \<Rightarrow> string" where
  "skipMessage instX =
     ''Skipping not identified component ''
     @ replicate (10 - length (ix_instanceName instX)) (CHR '' '') @ ix_instanceName instX
     @ '': '' @ ix_libraryName instX @ '':'' @ ix_cellName instX"

text \<open>
  One round of the \<open>reduce\<close> over the instances: the new state and the lines written to
  \<open>console.error\<close>, or the exception that ends the parse.
\<close>

definition instancePlacement :: "real \<Rightarrow> instanceXml \<Rightarrow> placement" where
  "instancePlacement scale0 instX =
     (case ix_placement instX of
        Some pl \<Rightarrow> pl\<lparr>pl_scaling := scale0\<rparr>
      | None \<Rightarrow> defaultPlacement\<lparr>pl_scaling := scale0\<rparr>)"

definition parseInstance ::
  "(string \<rightharpoonup> stencil) \<Rightarrow> (nat \<Rightarrow> string) \<Rightarrow> real \<Rightarrow> schematic \<Rightarrow> instanceXml \<Rightarrow>
   error + schematic \<times> string list" where
  "parseInstance catalog uuid scale0 sc instX =
     (case lookupStencil catalog (ix_libraryName instX) (ix_cellName instX) of
        None \<Rightarrow> Inr (sc, [skipMessage instX])
      | Some componentStencil \<Rightarrow>
          (let placement = instancePlacement scale0 instX;
               (sc1, pins) = parsePins uuid sc (ix_pins instX)
           in case componentStencil of
                PathStencil ps \<Rightarrow>
                  (case pathUseAsStencil ps (ix_instanceName instX) pins placement sc1 of
                     Inl e \<Rightarrow> Inl e
                   | Inr (sc2, c) \<Rightarrow>
                       Inr (sc2\<lparr>sc_components := sc_components sc2 @ [PathC c]\<rparr>, []))
              | PotentialStencil pos \<Rightarrow>
                  (case potentialUseAsStencil pos pins placement sc1 of
                     Inl e \<Rightarrow> Inl e
                   | Inr (sc2, c) \<Rightarrow>
                       Inr (sc2\<lparr>sc_components := sc_components sc2 @ [PotentialC c]\<rparr>, []))
              | MapperStencil m \<Rightarrow>
                  (case mapperUseAsStencil m (ix_instanceName instX) pins placement sc1 of
                     Inl e \<Rightarrow> Inl e
                   | Inr (sc2, c) \<Rightarrow>
                       Inr (sc2\<lparr>sc_components := sc_components sc2 @ [TransistorC c]\<rparr>, []))))"

fun parseInstances ::
  "(string \<rightharpoonup> stencil) \<Rightarrow> (nat \<Rightarrow> string) \<Rightarrow> real \<Rightarrow> schematic \<Rightarrow> instanceXml list \<Rightarrow>
   error + schematic \<times> string list" where
  "parseInstances catalog uuid scale0 sc [] = Inr (sc, [])"
| "parseInstances catalog uuid scale0 sc (instX # rest) =
     (case parseInstance catalog uuid scale0 sc instX of
        Inl e \<Rightarrow> Inl e
      | Inr (sc1, lg1) \<Rightarrow>
          (case parseInstances catalog uuid scale0 sc1 rest of
             Inl e \<Rightarrow> Inl e
           | Inr (sc2, lg2) \<Rightarrow> Inr (sc2, lg1 @ lg2)))"

text \<open>
  \<open>Schematic.fromXML\<close>: a new schematic, the wires, then the instances.  \<open>scale0\<close> is the
  unit factor (2.54 by default).
\<close>

definition parse ::
  "(string \<rightharpoonup> stencil) \<Rightarrow> (nat \<Rightarrow> string) \<Rightarrow> real \<Rightarrow> wireXml list \<Rightarrow> instanceXml list \<Rightarrow>
   error + schematic \<times> string list" where
  "parse catalog uuid scale0 wireArray instanceArray =
     (let (sc1, lg1) = parseWires scale0 emptySchematic wireArray
      in case parseInstances catalog uuid scale0 sc1 instanceArray of
           Inl e \<Rightarrow> Inl e
         | Inr (sc2, lg2) \<Rightarrow> Inr (sc2, lg1 @ lg2))"

text \<open>
  What the statements about the oriented placement need: a mapper with three anatomical
  pins, an anchor number among them and a template with three pins (every transistor
  mapper of the catalog is one), and names for intermediate results.
\<close>

definition wellFormedMapper :: "mapper \<Rightarrow> bool" where
  "wellFormedMapper m =
     (length (m_pins m) = 3 \<and> m_anchorNr m < 3 \<and> length (ts_pins (m_tikzTransistor m)) = 3 \<and>
      (case ts_anchorNr (m_tikzTransistor m) of None \<Rightarrow> True | Some k \<Rightarrow> k < 3))"










text \<open>
  A placement for examples: at (1, 2), turned by 90 degrees, mirrored on X, unit factor 2.
\<close>

definition examplePlacement :: placement where
  "examplePlacement = \<lparr>pl_x = 1, pl_y = 2, pl_angle = 90, pl_xScale = 1, pl_yScale = 1,
     pl_mirrorX = True, pl_mirrorY = False, pl_scaling = 2\<rparr>"

text \<open>
  What the statements about the nets need.  \<open>sameNets\<close>: two states differ at most in the
  store and the pool.  \<open>netTableOK\<close>: the table \<open>#nets\<close> and the \<open>Net\<close> objects
  correspond one to one, every object under its own name.  \<open>tableGrows\<close>: every entry of
  the table is still there.
\<close>

definition sameNets :: "schematic \<Rightarrow> schematic \<Rightarrow> bool" where
  "sameNets sc sc' =
     (sc_nets sc' = sc_nets sc \<and> sc_netObjs sc' = sc_netObjs sc \<and> sc_wires sc' = sc_wires sc \<and>
      sc_components sc' = sc_components sc \<and> sc_uuids sc' = sc_uuids sc)"

definition netTableOK :: "schematic \<Rightarrow> bool" where
  "netTableOK sc =
     ((\<forall>name n. sc_nets sc name = Some n \<longrightarrow>
          n < length (sc_netObjs sc) \<and> n_netname (sc_netObjs sc ! n) = name) \<and>
      (\<forall>n < length (sc_netObjs sc). sc_nets sc (n_netname (sc_netObjs sc ! n)) = Some n))"

definition tableGrows :: "schematic \<Rightarrow> schematic \<Rightarrow> bool" where
  "tableGrows sc sc' = (\<forall>name n. sc_nets sc name = Some n \<longrightarrow> sc_nets sc' name = Some n)"

text \<open>A generator of names for examples.\<close>

definition uuidExample :: "nat \<Rightarrow> string" where
  "uuidExample k = ''uuid-'' @ replicate k (CHR ''x'')"

text \<open>
  What the statements about the store need.  \<open>storeExtends\<close>: the second store is the first
  one with cells appended, so every cell of the first keeps its address and its value.
  \<open>pinAddrs\<close>: the addresses of the coordinates that the pins of a list refer to.
\<close>

definition storeExtends :: "store \<Rightarrow> store \<Rightarrow> bool" where
  "storeExtends st st' = (take (length st) st' = st)"

fun pinAddrs :: "pin option list \<Rightarrow> nat set" where
  "pinAddrs [] = {}"
| "pinAddrs (p # ps) =
     (case p of
        None \<Rightarrow> {}
      | Some q \<Rightarrow> (case p_coord q of None \<Rightarrow> {} | Some a \<Rightarrow> {a})) \<union> pinAddrs ps"

text \<open>
  \<open>pinAddr\<close>: the address of the coordinate a pin of a placed component refers to.
  \<open>wellAddressed\<close>: every coordinate of a wire and every entry of the pool is a cell of
  the store.
\<close>

definition pinAddr :: "pin option \<Rightarrow> nat option" where
  "pinAddr p = (case p of None \<Rightarrow> None | Some q \<Rightarrow> p_coord q)"

definition wellAddressed :: "schematic \<Rightarrow> bool" where
  "wellAddressed sc =
     (list_all (\<lambda>w. list_all (\<lambda>a. a < length (sc_store sc)) (w_coords w)) (sc_wires sc) \<and>
      list_all (\<lambda>e. case e of None \<Rightarrow> True | Some a \<Rightarrow> a < length (sc_store sc)) (sc_coords sc))"

text \<open>
  What the statements about the pool need.  \<open>cellOf\<close>: the value an entry of the pool
  holds.  \<open>poolOK\<close>: every entry of the pool is a coordinate of the store, and no two
  entries hold equal values.  \<open>noOriented\<close>: no instance of the list is mapped to an
  oriented three-terminal component by the catalog.
\<close>

definition cellOf :: "store \<Rightarrow> nat option \<Rightarrow> coordinate option" where
  "cellOf st e = map_option (\<lambda>a. st ! a) e"

definition poolOK :: "schematic \<Rightarrow> bool" where
  "poolOK sc =
     (list_all (\<lambda>e. case e of None \<Rightarrow> False | Some a \<Rightarrow> a < length (sc_store sc)) (sc_coords sc) \<and>
      distinct (map (cellOf (sc_store sc)) (sc_coords sc)))"

definition noOriented :: "(string \<rightharpoonup> stencil) \<Rightarrow> instanceXml list \<Rightarrow> bool" where
  "noOriented catalog instanceArray =
     list_all (\<lambda>instX. case lookupStencil catalog (ix_libraryName instX) (ix_cellName instX) of
                          Some (MapperStencil m) \<Rightarrow> False
                        | _ \<Rightarrow> True) instanceArray"

section \<open>Example schematics\<close>

text \<open>
  A stencil pin at the origin, and a pool of three coordinates with one net: the state in
  which a pin computed at (0, 0) has the vertex (1, 0) at the distance 1 and the vertex
  (5, 0) out of range.  The wires of the net are the parameter.
\<close>

definition ZERO_PIN :: stencilPin where
  "ZERO_PIN = \<lparr>s_coord = \<lparr>cx = 0, cy = 0\<rparr>, s_name = None, s_instTermNumber = 1\<rparr>"

definition boundaryState :: "wire list \<Rightarrow> schematic" where
  "boundaryState ws = \<lparr>sc_store = [\<lparr>cx = 5, cy = 0\<rparr>, \<lparr>cx = 1, cy = 0\<rparr>, \<lparr>cx = 0, cy = 0\<rparr>],
     sc_coords = [Some 0, Some 1, Some 2],
     sc_netObjs = [\<lparr>n_netname = ''n'', n_wires = ws\<rparr>], sc_nets = [''n'' \<mapsto> 0],
     sc_wires = ws, sc_components = [], sc_uuids = 0\<rparr>"

definition unitPlacement :: placement where
  "unitPlacement = \<lparr>pl_x = 0, pl_y = 0, pl_angle = 0, pl_xScale = 1, pl_yScale = 1,
     pl_mirrorX = False, pl_mirrorY = False, pl_scaling = 1\<rparr>"

definition lonePin :: pin where
  "lonePin = \<lparr>p_coord = None, p_name = Some ''P1'', p_instTermNumber = 1, p_net = Some 0\<rparr>"

text \<open>
  A catalog with the NPN transistor and a resistor; the anatomical triangle and the
  aligned render template of the transistor at \<open>examplePlacement\<close>.
\<close>

definition exampleCatalog :: "string \<rightharpoonup> stencil" where
  "exampleCatalog = [''BJT_NPN'' \<mapsto> MapperStencil BJT,
     ''R'' \<mapsto> PathStencil \<lparr>ps_tikzComponentName = ''R'',
        ps_pins = [ZERO_PIN, \<lparr>s_coord = \<lparr>cx = 1, cy = 0\<rparr>, s_name = None, s_instTermNumber = 2\<rparr>]\<rparr>]"

definition exampleAnatomical :: "stencilPin list" where
  "exampleAnatomical =
     [\<lparr>s_coord = \<lparr>cx = 1, cy = 3\<rparr>, s_name = None, s_instTermNumber = 1\<rparr>,
      \<lparr>s_coord = \<lparr>cx = 3, cy = 3\<rparr>, s_name = None, s_instTermNumber = 3\<rparr>,
      \<lparr>s_coord = \<lparr>cx = 2, cy = 4\<rparr>, s_name = None, s_instTermNumber = 2\<rparr>]"

definition exampleTemplate :: "(stencilPin, coordinate) transistor" where
  "exampleTemplate =
     \<lparr>t_tikzComponentName = ''npn'', t_instanceName = [],
      t_pins = [\<lparr>s_coord = \<lparr>cx = 1.23, cy = 3\<rparr>, s_name = None, s_instTermNumber = 0\<rparr>,
                \<lparr>s_coord = \<lparr>cx = 2.77, cy = 3\<rparr>, s_name = None, s_instTermNumber = 0\<rparr>,
                \<lparr>s_coord = \<lparr>cx = 2, cy = 3.84\<rparr>, s_name = None, s_instTermNumber = 0\<rparr>],
      t_anchorNames = [''C'', ''E'', ''B''], t_anchorNr = None, t_nodeName = [],
      t_anchorCoord = Some \<lparr>cx = 2, cy = 3\<rparr>, t_angle = 90, t_mirrorX = True, t_mirrorY = False\<rparr>"




text \<open>
  A transistor instance with a fourth pin, after one wire: the state after the wire, and
  the state and the live pins after the pins have been read.
\<close>

definition fourPins :: "instPinXml list" where
  "fourPins = [\<lparr>ipx_instTermNumber = 1, ipx_pinName = ''C'', ipx_netName = ''nc''\<rparr>,
               \<lparr>ipx_instTermNumber = 2, ipx_pinName = ''B'', ipx_netName = ''nb''\<rparr>,
               \<lparr>ipx_instTermNumber = 3, ipx_pinName = ''E'', ipx_netName = ''ne''\<rparr>,
               \<lparr>ipx_instTermNumber = 4, ipx_pinName = ''S'', ipx_netName = ''ns''\<rparr>]"

definition oneWire :: "wireXml list" where
  "oneWire = [\<lparr>wx_netName = ''w'', wx_points = [Point 0 0, Point 1 0]\<rparr>]"

definition wiredState :: schematic where
  "wiredState = \<lparr>sc_store = [\<lparr>cx = 0, cy = 0\<rparr>, \<lparr>cx = 2, cy = 0\<rparr>],
     sc_coords = [Some 0, Some 1],
     sc_netObjs = [\<lparr>n_netname = ''w'', n_wires = [\<lparr>w_net = 0, w_coords = [0, 1]\<rparr>]\<rparr>],
     sc_nets = [''w'' \<mapsto> 0], sc_wires = [\<lparr>w_net = 0, w_coords = [0, 1]\<rparr>],
     sc_components = [], sc_uuids = 0\<rparr>"

definition fourPinsState :: schematic where
  "fourPinsState = wiredState\<lparr>
     sc_netObjs := sc_netObjs wiredState @ [\<lparr>n_netname = ''nc'', n_wires = []\<rparr>,
        \<lparr>n_netname = ''nb'', n_wires = []\<rparr>, \<lparr>n_netname = ''ne'', n_wires = []\<rparr>,
        \<lparr>n_netname = ''ns'', n_wires = []\<rparr>],
     sc_nets := [''w'' \<mapsto> 0, ''nc'' \<mapsto> 1, ''nb'' \<mapsto> 2, ''ne'' \<mapsto> 3, ''ns'' \<mapsto> 4]\<rparr>"

definition fourLivePins :: "pin list" where
  "fourLivePins = [\<lparr>p_coord = None, p_name = Some ''C'', p_instTermNumber = 1, p_net = Some 1\<rparr>,
                   \<lparr>p_coord = None, p_name = Some ''B'', p_instTermNumber = 2, p_net = Some 2\<rparr>,
                   \<lparr>p_coord = None, p_name = Some ''E'', p_instTermNumber = 3, p_net = Some 3\<rparr>,
                   \<lparr>p_coord = None, p_name = Some ''S'', p_instTermNumber = 4, p_net = Some 4\<rparr>]"

text \<open>
  The transistor instance \<open>Q1\<close> whose base lies on the first vertex of a wire of its net:
  the state after the wire, after the pins have been read, after the positions have been
  searched, and after the placement.
\<close>

definition snapWire :: "wireXml list" where
  "snapWire = [\<lparr>wx_netName = ''nb'', wx_points = [Point 1 2, Point 0 2]\<rparr>]"

definition threePins :: "instPinXml list" where
  "threePins = [\<lparr>ipx_instTermNumber = 1, ipx_pinName = ''C'', ipx_netName = ''nc''\<rparr>,
                \<lparr>ipx_instTermNumber = 2, ipx_pinName = ''B'', ipx_netName = ''nb''\<rparr>,
                \<lparr>ipx_instTermNumber = 3, ipx_pinName = ''E'', ipx_netName = ''ne''\<rparr>]"

definition Q1 :: instanceXml where
  "Q1 = \<lparr>ix_libraryName = ''lib'', ix_cellName = ''BJT_NPN'', ix_instanceName = ''Q1'',
          ix_placement = Some examplePlacement, ix_pins = threePins\<rparr>"

definition snapState :: schematic where
  "snapState = \<lparr>sc_store = [\<lparr>cx = 2, cy = 4\<rparr>, \<lparr>cx = 0, cy = 4\<rparr>],
     sc_coords = [Some 0, Some 1],
     sc_netObjs = [\<lparr>n_netname = ''nb'', n_wires = [\<lparr>w_net = 0, w_coords = [0, 1]\<rparr>]\<rparr>],
     sc_nets = [''nb'' \<mapsto> 0], sc_wires = [\<lparr>w_net = 0, w_coords = [0, 1]\<rparr>],
     sc_components = [], sc_uuids = 0\<rparr>"

definition threePinsState :: schematic where
  "threePinsState = snapState\<lparr>
     sc_netObjs := sc_netObjs snapState @ [\<lparr>n_netname = ''nc'', n_wires = []\<rparr>,
        \<lparr>n_netname = ''ne'', n_wires = []\<rparr>],
     sc_nets := [''nb'' \<mapsto> 0, ''nc'' \<mapsto> 1, ''ne'' \<mapsto> 2]\<rparr>"

definition threeLivePins :: "pin list" where
  "threeLivePins = [\<lparr>p_coord = None, p_name = Some ''C'', p_instTermNumber = 1, p_net = Some 1\<rparr>,
                    \<lparr>p_coord = None, p_name = Some ''B'', p_instTermNumber = 2, p_net = Some 0\<rparr>,
                    \<lparr>p_coord = None, p_name = Some ''E'', p_instTermNumber = 3, p_net = Some 2\<rparr>]"

definition foundPins :: "pin list" where
  "foundPins = [\<lparr>p_coord = Some 2, p_name = Some ''C'', p_instTermNumber = 1, p_net = Some 1\<rparr>,
                \<lparr>p_coord = Some 0, p_name = Some ''B'', p_instTermNumber = 2, p_net = Some 0\<rparr>,
                \<lparr>p_coord = Some 3, p_name = Some ''E'', p_instTermNumber = 3, p_net = Some 2\<rparr>]"

definition foundState :: schematic where
  "foundState = threePinsState\<lparr>
     sc_store := [\<lparr>cx = 2, cy = 4\<rparr>, \<lparr>cx = 0, cy = 4\<rparr>, \<lparr>cx = 1, cy = 3\<rparr>, \<lparr>cx = 3, cy = 3\<rparr>],
     sc_coords := [Some 0, Some 1, Some 2, Some 3]\<rparr>"

definition placedQ1 :: "(pin option, cref) transistor" where
  "placedQ1 = \<lparr>t_tikzComponentName = ''npn'', t_instanceName = ''Q1'',
      t_pins = [Some (foundPins ! 0), Some (foundPins ! 2), Some (foundPins ! 1)],
      t_anchorNames = [''C'', ''E'', ''B''], t_anchorNr = None, t_nodeName = [],
      t_anchorCoord = Some (Fresh \<lparr>cx = 2, cy = 3\<rparr>), t_angle = 90, t_mirrorX = True,
      t_mirrorY = False\<rparr>"

definition movedState :: schematic where
  "movedState = foundState\<lparr>
     sc_store := [\<lparr>cx = 2, cy = 3.84\<rparr>, \<lparr>cx = 0, cy = 4\<rparr>, \<lparr>cx = 1.23, cy = 3\<rparr>, \<lparr>cx = 2.77, cy = 3\<rparr>],
     sc_components := [TransistorC placedQ1]\<rparr>"

text \<open>
  The resistor instance \<open>R1\<close> on the two ends of the wire of \<open>oneWire\<close>, and the state
  after its placement.
\<close>

definition R1 :: instanceXml where
  "R1 = \<lparr>ix_libraryName = ''lib'', ix_cellName = ''R'', ix_instanceName = ''R1'',
          ix_placement = Some unitPlacement,
          ix_pins = [\<lparr>ipx_instTermNumber = 1, ipx_pinName = ''P1'', ipx_netName = ''w''\<rparr>,
                     \<lparr>ipx_instTermNumber = 2, ipx_pinName = ''P2'', ipx_netName = ''w''\<rparr>]\<rparr>"

definition placedR1 :: pathComponent where
  "placedR1 = \<lparr>pc_tikzComponentName = ''R'', pc_instanceName = ''R1'',
      pc_pins = [\<lparr>p_coord = Some 0, p_name = Some ''P1'', p_instTermNumber = 1, p_net = Some 0\<rparr>,
                 \<lparr>p_coord = Some 1, p_name = Some ''P2'', p_instTermNumber = 2, p_net = Some 0\<rparr>],
      pc_angle = 0\<rparr>"

definition resistorState :: schematic where
  "resistorState = wiredState\<lparr>sc_components := sc_components wiredState @ [PathC placedR1]\<rparr>"

text \<open>
  Two instances of the transistor at the same placement, \<open>Q1\<close> and \<open>Q2\<close>, in a schematic
  without wires: the nets and the live pins, the pins after the search (with the first
  new cell of the store as parameter), the placed components, and the states after the
  first and after the second instance.
\<close>

definition Q2 :: instanceXml where
  "Q2 = Q1\<lparr>ix_instanceName := ''Q2''\<rparr>"

definition twinNets :: schematic where
  "twinNets = emptySchematic\<lparr>
     sc_netObjs := [\<lparr>n_netname = ''nc'', n_wires = []\<rparr>, \<lparr>n_netname = ''nb'', n_wires = []\<rparr>,
                    \<lparr>n_netname = ''ne'', n_wires = []\<rparr>],
     sc_nets := [''nc'' \<mapsto> 0, ''nb'' \<mapsto> 1, ''ne'' \<mapsto> 2]\<rparr>"

definition twinLivePins :: "pin list" where
  "twinLivePins = [\<lparr>p_coord = None, p_name = Some ''C'', p_instTermNumber = 1, p_net = Some 0\<rparr>,
                   \<lparr>p_coord = None, p_name = Some ''B'', p_instTermNumber = 2, p_net = Some 1\<rparr>,
                   \<lparr>p_coord = None, p_name = Some ''E'', p_instTermNumber = 3, p_net = Some 2\<rparr>]"

definition twinFound :: "nat \<Rightarrow> pin list" where
  "twinFound k = [\<lparr>p_coord = Some k, p_name = Some ''C'', p_instTermNumber = 1, p_net = Some 0\<rparr>,
                  \<lparr>p_coord = Some (k + 1), p_name = Some ''B'', p_instTermNumber = 2, p_net = Some 1\<rparr>,
                  \<lparr>p_coord = Some (k + 2), p_name = Some ''E'', p_instTermNumber = 3, p_net = Some 2\<rparr>]"

definition twinPlaced :: "string \<Rightarrow> nat \<Rightarrow> (pin option, cref) transistor" where
  "twinPlaced nm k = \<lparr>t_tikzComponentName = ''npn'', t_instanceName = nm,
      t_pins = [Some (twinFound k ! 0), Some (twinFound k ! 2), Some (twinFound k ! 1)],
      t_anchorNames = [''C'', ''E'', ''B''], t_anchorNr = None, t_nodeName = [],
      t_anchorCoord = Some (Fresh \<lparr>cx = 2, cy = 3\<rparr>), t_angle = 90, t_mirrorX = True,
      t_mirrorY = False\<rparr>"

definition twinState1 :: schematic where
  "twinState1 = twinNets\<lparr>
     sc_store := [\<lparr>cx = 1.23, cy = 3\<rparr>, \<lparr>cx = 2, cy = 3.84\<rparr>, \<lparr>cx = 2.77, cy = 3\<rparr>],
     sc_coords := [Some 0, Some 1, Some 2],
     sc_components := [TransistorC (twinPlaced ''Q1'' 0)]\<rparr>"

definition twinState2 :: schematic where
  "twinState2 = twinNets\<lparr>
     sc_store := [\<lparr>cx = 1.23, cy = 3\<rparr>, \<lparr>cx = 2, cy = 3.84\<rparr>, \<lparr>cx = 2.77, cy = 3\<rparr>,
                  \<lparr>cx = 1.23, cy = 3\<rparr>, \<lparr>cx = 2, cy = 3.84\<rparr>, \<lparr>cx = 2.77, cy = 3\<rparr>],
     sc_coords := [Some 0, Some 1, Some 2, Some 3, Some 4, Some 5],
     sc_components := [TransistorC (twinPlaced ''Q1'' 0), TransistorC (twinPlaced ''Q2'' 3)]\<rparr>"

section \<open>Theorems\<close>

subsection \<open>Coordinate.sum\<close>

text \<open>
  C10.  With at least one argument \<open>sum\<close> raises a TypeError instead of returning the
  component-wise sum; with no argument it returns a new coordinate (a cell appended to the
  store, so an object distinct from every existing one) holding the receiver's value, and
  leaves every existing coordinate as it was.
\<close>

theorem sum_unbound_add_throws:
  "sum_c st this (other # others) = Inl TypeError \<and>
   sum_c st this [] = Inr (st @ [\<lparr>cx = cx (st ! this), cy = cy (st ! this)\<rparr>], length st)"
  by (simp add: sum_c_def newCoordinate_def add_m_def)

subsection \<open>Instance names and serialization\<close>

lemma sep_not_letter: "isSeparator c \<Longrightarrow> \<not> isLetter c"
  by (auto simp: isSeparator_def isLetter_def)

lemma digit_not_letter: "isDigit c \<Longrightarrow> \<not> isLetter c"
  by (auto simp: isDigit_def isLetter_def Let_def)

lemma digit_not_sep: "isDigit c \<Longrightarrow> \<not> isSeparator c"
  by (auto simp: isDigit_def isSeparator_def)

lemma optional_separator:
  "\<exists>sep. r = sep @ (case r of [] \<Rightarrow> r | c # cs \<Rightarrow> if isSeparator c then cs else r) \<and>
         (sep = [] \<or> (\<exists>c. sep = [c] \<and> isSeparator c))"
  by (cases r) auto

text \<open>The matcher accepts exactly the strings of the pattern.\<close>

lemma match_imp_pattern:
  assumes "matchInstanceName s = Some r"
  shows "lettersThenDigits s"
proof -
  let ?name = "takeWhile isLetter s"
  let ?r1 = "dropWhile isLetter s"
  let ?r2 = "(case ?r1 of [] \<Rightarrow> ?r1 | c # cs \<Rightarrow> if isSeparator c then cs else ?r1)"
  let ?index = "takeWhile isDigit ?r2"
  from assms have n: "?name \<noteq> []" and i: "?index \<noteq> []" and e: "dropWhile isDigit ?r2 = []"
    by (simp_all add: matchInstanceName_def Let_def split: if_splits)
  have s: "s = ?name @ ?r1" by simp
  have r2i: "?r2 = ?index" using e by (simp add: takeWhile_eq_all_conv [THEN iffD2])
  have "\<exists>sep. ?r1 = sep @ ?r2 \<and> (sep = [] \<or> (\<exists>c. sep = [c] \<and> isSeparator c))"
    by (rule optional_separator)
  then obtain sep where sep: "?r1 = sep @ ?r2" "sep = [] \<or> (\<exists>c. sep = [c] \<and> isSeparator c)"
    by blast
  have ln: "list_all isLetter ?name" by (simp add: list_all_iff) (meson set_takeWhileD)
  have ld: "list_all isDigit ?index" by (simp add: list_all_iff) (meson set_takeWhileD)
  have "s = ?name @ sep @ ?index" using s sep(1) r2i by metis
  then show ?thesis
    unfolding lettersThenDigits_def using sep(2) n i ln ld by blast
qed

lemma pattern_imp_match:
  assumes "lettersThenDigits s"
  shows "\<exists>name index. matchInstanceName s = Some (s, name, index)"
proof -
  from assms obtain name sep index where
    s: "s = name @ sep @ index" and n: "name \<noteq> []" and ln: "list_all isLetter name"
    and sp: "sep = [] \<or> (\<exists>c. sep = [c] \<and> isSeparator c)" and i: "index \<noteq> []"
    and di: "list_all isDigit index"
    unfolding lettersThenDigits_def by blast
  obtain d ds where idx: "index = d # ds" using i by (cases index) auto
  have dd: "isDigit d" using di idx by simp
  have hd_nl: "takeWhile isLetter (sep @ index) = []"
    using sp idx dd by (auto simp: sep_not_letter digit_not_letter)
  have tw: "takeWhile isLetter s = name"
    using ln hd_nl by (simp add: s takeWhile_append2 list_all_iff)
  have dw: "dropWhile isLetter s = sep @ index"
    using ln sp idx dd by (auto simp: s dropWhile_append2 list_all_iff sep_not_letter digit_not_letter)
  have r2: "(case sep @ index of [] \<Rightarrow> sep @ index
             | c # cs \<Rightarrow> if isSeparator c then cs else sep @ index) = index"
    using sp idx dd by (auto simp: digit_not_sep)
  have twd: "takeWhile isDigit index = index" and dwd: "dropWhile isDigit index = []"
    using di by (simp_all add: list_all_iff)
  show ?thesis
    using n i di by (simp add: matchInstanceName_def Let_def tw dw r2 twd dwd list_all_iff)
qed

lemma match_iff_pattern: "matchInstanceName s \<noteq> None \<longleftrightarrow> lettersThenDigits s"
  using match_imp_pattern pattern_imp_match by fastforce

lemma nameLabel_None: "matchInstanceName n = None \<Longrightarrow> nameLabel str n = Inl TypeError"
  by (simp add: nameLabel_def)

lemma serialize_mismatch:
  assumes "instanceNameOf c = Some n" and "n \<noteq> []" and "matchInstanceName n = None"
  shows "serialize str debug st c indent = Inl TypeError"
proof (cases c)
  case (PathC pc)
  then show ?thesis using assms
    by (simp add: serialize_def instanceNameOf_def pathSerialize_def nameLabel_None)
next
  case (TransistorC t)
  then show ?thesis using assms
    by (simp add: serialize_def instanceNameOf_def transistorSerialize_def nodeSerialize_def
        transistorNodeText_def nameLabel_None)
next
  case (PotentialC po)
  then show ?thesis using assms by (simp add: instanceNameOf_def)
qed

text \<open>
  C9.  A placed component that carries an instance name (a path component or a
  transistor) whose name is not empty and is not letters, an optional separator and
  digits, raises a TypeError on \<open>serialize\<close>; so \<open>serialize\<close> returns a text only for an
  empty name or a name of that form.
\<close>

theorem serialize_name_mismatch_throws:
  assumes "instanceNameOf c = Some n"
  shows "(n \<noteq> [] \<and> \<not> lettersThenDigits n \<longrightarrow> serialize str debug st c indent = Inl TypeError) \<and>
         (\<forall>text. serialize str debug st c indent = Inr text \<longrightarrow> n = [] \<or> lettersThenDigits n)"
proof -
  have a: "n \<noteq> [] \<and> \<not> lettersThenDigits n \<longrightarrow> serialize str debug st c indent = Inl TypeError"
    using serialize_mismatch [OF assms] match_iff_pattern by blast
  then show ?thesis by auto
qed

lemma Rin_no_match: "matchInstanceName ''Rin'' = None"
  by (simp add: matchInstanceName_def isLetter_def isDigit_def isSeparator_def)

lemma R1a_no_match: "matchInstanceName ''R1a'' = None"
  by (simp add: matchInstanceName_def isLetter_def isDigit_def isSeparator_def)

lemma R_12_match: "matchInstanceName ''R_12'' = Some (''R_12'', ''R'', ''12'')"
  by (simp add: matchInstanceName_def Let_def isLetter_def isDigit_def isSeparator_def)

text \<open>
  The theorem at a resistor named \<open>Rin\<close> between the coordinates of the cells 0 and 1, and
  at a transistor named \<open>R1a\<close>.
\<close>

theorem serialize_name_mismatch_throws_witness:
  "serialize (\<lambda>x. ''0'') False [\<lparr>cx = 0, cy = 0\<rparr>, \<lparr>cx = 1, cy = 0\<rparr>]
     (PathC \<lparr>pc_tikzComponentName = ''R'', pc_instanceName = ''Rin'',
             pc_pins = [\<lparr>p_coord = Some 0, p_name = None, p_instTermNumber = 1, p_net = None\<rparr>,
                        \<lparr>p_coord = Some 1, p_name = None, p_instTermNumber = 2, p_net = None\<rparr>],
             pc_angle = 0\<rparr>) 1 = Inl TypeError \<and>
   serialize (\<lambda>x. ''0'') False [\<lparr>cx = 0, cy = 0\<rparr>]
     (TransistorC \<lparr>t_tikzComponentName = ''npn'', t_instanceName = ''R1a'', t_pins = [],
        t_anchorNames = [''C'', ''E'', ''B''], t_anchorNr = None, t_nodeName = [],
        t_anchorCoord = Some (Ref 0), t_angle = 0, t_mirrorX = False, t_mirrorY = False\<rparr>) 1
     = Inl TypeError"
proof -
  have n1: "\<not> lettersThenDigits ''Rin''"
    using match_iff_pattern [of "''Rin''"] Rin_no_match by simp
  have n2: "\<not> lettersThenDigits ''R1a''"
    using match_iff_pattern [of "''R1a''"] R1a_no_match by simp
  show ?thesis
    using n1 n2
      serialize_name_mismatch_throws [of "PathC \<lparr>pc_tikzComponentName = ''R'', pc_instanceName = ''Rin'',
             pc_pins = [\<lparr>p_coord = Some 0, p_name = None, p_instTermNumber = 1, p_net = None\<rparr>,
                        \<lparr>p_coord = Some 1, p_name = None, p_instTermNumber = 2, p_net = None\<rparr>],
             pc_angle = 0\<rparr>" "''Rin''"]
      serialize_name_mismatch_throws [of "TransistorC \<lparr>t_tikzComponentName = ''npn'', t_instanceName = ''R1a'', t_pins = [],
        t_anchorNames = [''C'', ''E'', ''B''], t_anchorNr = None, t_nodeName = [],
        t_anchorCoord = Some (Ref 0), t_angle = 0, t_mirrorX = False, t_mirrorY = False\<rparr>" "''R1a''"]
    by (simp add: instanceNameOf_def)
qed

subsection \<open>Oriented three-terminal placement\<close>

lemma upt3: "[0..<3] = [0, 1, 2]" by (simp add: upt_rec)

lemma length3: "length xs = 3 \<Longrightarrow> \<exists>a b c. xs = [a, b, c]"
  by (cases xs; cases "tl xs"; cases "tl (tl xs)") auto

lemma proj_translate:
  "orthogonalProjection (add p v) (add a v) (add b v) = add (orthogonalProjection p a b) v"
  by (simp add: orthogonalProjection_def add_def subtract_def scale_def Let_def)

lemma lineCrossing_translate:
  "lineCrossingCoord pins = Inr l \<Longrightarrow>
   lineCrossingCoord (map (translatePin v) pins) = Inr (add l v)"
  by (auto simp: lineCrossingCoord_def translatePin_def proj_translate split: list.splits)

lemma length_mapperRotate [simp]: "length (mapperRotate angle k pins) = length pins"
  by (simp add: mapperRotate_def)

lemma length_foldl_mirrorStep [simp]:
  "length (foldl (mirrorStep mX mY k) pins is) = length pins"
  by (induction "is" arbitrary: pins) (simp_all add: mirrorStep_def Let_def)

lemma mapperMirror_length:
  "mapperMirror mX mY k pins = Inr pins' \<Longrightarrow> length pins' = length pins"
  by (auto simp: mapperMirror_def split: if_splits)


lemma lineCrossing_ok: "length pins = 3 \<Longrightarrow> \<exists>l. lineCrossingCoord pins = Inr l"
  by (auto dest!: length3 simp: lineCrossingCoord_def)


lemma length_transistorRotate [simp]: "length (t_pins (transistorRotate a t)) = length (t_pins t)"
  by (simp add: transistorRotate_def)

lemma anchorNr_transistorRotate [simp]: "t_anchorNr (transistorRotate a t) = t_anchorNr t"
  by (simp add: transistorRotate_def)

lemma anchorCoord_transistorRotate [simp]: "t_anchorCoord (transistorRotate a t) = t_anchorCoord t"
  by (simp add: transistorRotate_def)

lemma transistorMirror_ok:
  assumes "case t_anchorNr t of None \<Rightarrow> t_anchorCoord t \<noteq> None | Some k \<Rightarrow> k < length (t_pins t)"
  shows "\<exists>t'. transistorMirror mX mY t = Inr t' \<and> length (t_pins t') = length (t_pins t)"
  using assms by (auto simp: transistorMirror_def Let_def split: option.splits)

lemma placeTemplate_ok:
  assumes "wellFormedMapper m" and "length ablPins = 3"
  shows "\<exists>t crossing. placeTemplate m pl ablPins = Inr t \<and> lineCrossingCoord ablPins = Inr crossing \<and>
           lineCrossingCoord (t_pins t) = Inr crossing"
proof -
  let ?t1 = "transistorRotate (normalizeAngle (pl_angle pl)) (tikzDeepClone (m_tikzTransistor m))"
  have "case t_anchorNr ?t1 of None \<Rightarrow> t_anchorCoord ?t1 \<noteq> None | Some k \<Rightarrow> k < length (t_pins ?t1)"
    using assms(1) by (auto simp: wellFormedMapper_def tikzDeepClone_def split: option.splits)
  from transistorMirror_ok [OF this, of "pl_mirrorX pl" "pl_mirrorY pl"]
  obtain t2 where t2: "transistorMirror (pl_mirrorX pl) (pl_mirrorY pl) ?t1 = Inr t2"
    and l2: "length (t_pins t2) = length (t_pins ?t1)" by blast
  have "length (t_pins t2) = 3" using l2 assms(1) by (simp add: wellFormedMapper_def tikzDeepClone_def)
  then obtain lt where lt: "lineCrossingCoord (t_pins t2) = Inr lt" using lineCrossing_ok by blast
  obtain la where la: "lineCrossingCoord ablPins = Inr la" using lineCrossing_ok assms(2) by blast
  have "lineCrossingCoord (t_pins (transistorTranslate (subtract la lt) t2)) = Inr (add lt (subtract la lt))"
    using lineCrossing_translate [OF lt] by (simp add: transistorTranslate_def)
  moreover have "add lt (subtract la lt) = la" by (simp add: add_def subtract_def)
  ultimately show ?thesis using t2 lt la by (simp add: placeTemplate_def Let_def)
qed

lemma normalizeUp_id: "- 180 < a \<Longrightarrow> normalizeUp a = a"
  by (subst normalizeUp.simps) simp

lemma normalizeDown_id: "a \<le> 180 \<Longrightarrow> normalizeDown a = a"
  by (subst normalizeDown.simps) simp

lemma normalizeAngle_id: "- 180 < a \<Longrightarrow> a \<le> 180 \<Longrightarrow> normalizeAngle a = a"
  by (simp add: normalizeAngle_def normalizeUp_id normalizeDown_id)


text \<open>
  The \<open>BJT\<close> mapper at the example placement: the anatomical triangle, and the template
  triangle as aligned.  The line-crossing point of both is (2, 3).
\<close>

lemma example_anatomical:
  "placeAnatomical BJT examplePlacement =
   Inr [\<lparr>s_coord = \<lparr>cx = 1, cy = 3\<rparr>, s_name = None, s_instTermNumber = 1\<rparr>,
        \<lparr>s_coord = \<lparr>cx = 3, cy = 3\<rparr>, s_name = None, s_instTermNumber = 3\<rparr>,
        \<lparr>s_coord = \<lparr>cx = 2, cy = 4\<rparr>, s_name = None, s_instTermNumber = 2\<rparr>]"
  by (simp add: placeAnatomical_def BJT_def examplePlacement_def normalizeAngle_id Let_def
      TRANSISTOR_TOP_PIN_def TRANSISTOR_BOTTOM_PIN_def TRANSISTOR_TAP_PIN_def scale_def
      mapperRotate_def upt3 rotate_c_def mapperMirror_def mirrorStep_def flipCoord_def
      subtract_def add_def translatePin_def instanceCoordOf_def)

lemma example_template:
  "\<exists>t. placeTemplate BJT examplePlacement
          [\<lparr>s_coord = \<lparr>cx = 1, cy = 3\<rparr>, s_name = None, s_instTermNumber = 1\<rparr>,
           \<lparr>s_coord = \<lparr>cx = 3, cy = 3\<rparr>, s_name = None, s_instTermNumber = 3\<rparr>,
           \<lparr>s_coord = \<lparr>cx = 2, cy = 4\<rparr>, s_name = None, s_instTermNumber = 2\<rparr>] = Inr t \<and>
        map s_coord (t_pins t) = [\<lparr>cx = 1.23, cy = 3\<rparr>, \<lparr>cx = 2.77, cy = 3\<rparr>, \<lparr>cx = 2, cy = 3.84\<rparr>]"
  by (simp add: placeTemplate_def BJT_def examplePlacement_def normalizeAngle_id Let_def
      npn_def fromStruct_def tikzDeepClone_def transistorRotate_def transistorMirror_def
      mirrorAbout_def lineCrossingCoord_def orthogonalProjection_def transistorTranslate_def
      scale_def upt3 rotate_c_def flipCoord_def
      subtract_def add_def translatePin_def power2_eq_square)

lemma ex_anat: "placeAnatomical BJT examplePlacement = Inr exampleAnatomical"
  unfolding exampleAnatomical_def by (rule example_anatomical)

lemma ex_templ: "placeTemplate BJT examplePlacement exampleAnatomical = Inr exampleTemplate"
  by (simp add: placeTemplate_def BJT_def examplePlacement_def normalizeAngle_id Let_def
      npn_def fromStruct_def tikzDeepClone_def transistorRotate_def transistorMirror_def
      mirrorAbout_def lineCrossingCoord_def orthogonalProjection_def transistorTranslate_def
      scale_def upt3 rotate_c_def flipCoord_def exampleAnatomical_def exampleTemplate_def
      subtract_def add_def translatePin_def power2_eq_square)





































subsection \<open>The oriented placement in double precision\<close>

text \<open>
  With the arithmetic \<open>exact\<close> the functions of the second model are the functions of the
  first one, and no loop of theirs fails to end.
\<close>

lemma exact_simps:
  "rnd exact = (\<lambda>x. x)" "square exact = (\<lambda>x. x\<^sup>2)" "mathCos exact = cos" "mathSin exact = sin"
  "mathPI exact = pi"
  by (simp_all add: exact_def)

lemma addF_exact: "addF exact = add"
  by (intro ext) (simp add: addF_def add_def exact_simps)

lemma subtractF_exact: "subtractF exact = subtract"
  by (intro ext) (simp add: subtractF_def subtract_def exact_simps)

lemma scaleF_exact: "scaleF exact = scale"
  by (intro ext) (simp only: scaleF_def scale_def exact_simps)

lemma normalizeUpF_exact: "normalizeUpF exact angle = Some (normalizeUp angle)"
proof (induction angle rule: normalizeUp.induct)
  case (1 angle)
  show ?case
  proof (cases "angle \<le> - 180")
    case True
    then show ?thesis
      using 1 by (subst normalizeUpF.simps, subst normalizeUp.simps) (simp add: exact_simps)
  next
    case False
    then show ?thesis
      by (subst normalizeUpF.simps, subst normalizeUp.simps) simp
  qed
qed

lemma normalizeDownF_exact: "normalizeDownF exact angle = Some (normalizeDown angle)"
proof (induction angle rule: normalizeDown.induct)
  case (1 angle)
  show ?case
  proof (cases "angle > 180")
    case True
    then show ?thesis
      using 1 by (subst normalizeDownF.simps, subst normalizeDown.simps) (simp add: exact_simps)
  next
    case False
    then show ?thesis
      by (subst normalizeDownF.simps, subst normalizeDown.simps) simp
  qed
qed

lemma normalizeAngleF_exact: "normalizeAngleF exact angle = Some (normalizeAngle angle)"
  by (simp add: normalizeAngleF_def normalizeAngle_def normalizeUpF_exact normalizeDownF_exact)

lemma rotateF_exact: "rotateF exact angle centerCoord this = Some (rotate_c angle centerCoord this)"
  unfolding rotateF_def rotate_c_def normalizeAngleF_exact addF_exact subtractF_exact exact_simps
    Let_def
  by simp

lemma orthogonalProjectionF_exact: "orthogonalProjectionF exact = orthogonalProjection"
  by (intro ext)
     (simp only: orthogonalProjectionF_def orthogonalProjection_def addF_exact subtractF_exact
      scaleF_exact exact_simps)

lemma lineCrossingCoordF_exact: "lineCrossingCoordF exact = lineCrossingCoord"
  by (intro ext) (simp only: lineCrossingCoordF_def lineCrossingCoord_def orthogonalProjectionF_exact)

lemma mirrorStepF_exact: "mirrorStepF exact = mirrorStep"
  by (intro ext) (simp only: mirrorStepF_def mirrorStep_def addF_exact subtractF_exact)

lemma mirrorAboutF_exact: "mirrorAboutF exact = mirrorAbout"
  by (intro ext) (simp only: mirrorAboutF_def mirrorAbout_def addF_exact subtractF_exact)

lemma mapperMirrorF_exact: "mapperMirrorF exact = mapperMirror"
  by (intro ext) (simp only: mapperMirrorF_def mapperMirror_def mirrorStepF_exact)

lemma rotatePinsF_exact:
  "rotatePinsF exact angle skip i pins =
     Some (map (\<lambda>(j, p). if \<not> skip j then p\<lparr>s_coord := rotate_c angle None (s_coord p)\<rparr> else p)
             (zip [i..<i + length pins] pins))"
proof (induction pins arbitrary: i)
  case Nil
  show ?case by simp
next
  case (Cons p ps)
  have "[i..<Suc (i + length ps)] = i # [Suc i..<Suc (i + length ps)]"
    by (rule upt_conv_Cons) simp
  then have u: "zip [i..<i + length (p # ps)] (p # ps) = (i, p) # zip [Suc i..<Suc i + length ps] ps"
    by (simp only: length_Cons add_Suc_right add_Suc zip_Cons_Cons)
  show ?case
    unfolding u rotatePinsF.simps Cons.IH rotateF_exact by simp
qed

lemma mapperRotateF_exact: "mapperRotateF exact angle anchor pins = Some (mapperRotate angle anchor pins)"
  by (simp add: mapperRotateF_def mapperRotate_def rotatePinsF_exact)

lemma translatePinF_exact: "translatePinF exact = translatePin"
  by (intro ext) (simp only: translatePinF_def translatePin_def addF_exact)

lemma transistorMirrorF_exact: "transistorMirrorF exact = transistorMirror"
  by (intro ext)
     (simp only: transistorMirrorF_def transistorMirror_def mirrorStepF_exact mirrorAboutF_exact)

lemma transistorRotateF_exact:
  "transistorRotateF exact angle this = Some (transistorRotate angle this)"
  unfolding transistorRotateF_def transistorRotate_def rotatePinsF_exact normalizeAngleF_exact
    exact_simps
  by simp

lemma transistorTranslateF_exact: "transistorTranslateF exact = transistorTranslate"
  by (intro ext)
     (simp only: transistorTranslateF_def transistorTranslate_def translatePinF_exact addF_exact)

lemma instanceCoordOfF_exact: "instanceCoordOfF exact = instanceCoordOf"
  by (intro ext) (simp add: instanceCoordOfF_def instanceCoordOf_def exact_simps)

lemma placeAnatomicalF_exact: "placeAnatomicalF exact m pl = Some (placeAnatomical m pl)"
  unfolding placeAnatomicalF_def placeAnatomical_def normalizeAngleF_exact scaleF_exact
    mapperRotateF_exact mapperMirrorF_exact translatePinF_exact instanceCoordOfF_exact exact_simps
  by simp

lemma placeTemplateF_exact: "placeTemplateF exact m pl ablPins = Some (placeTemplate m pl ablPins)"
  unfolding placeTemplateF_def placeTemplate_def normalizeAngleF_exact transistorRotateF_exact
    transistorMirrorF_exact lineCrossingCoordF_exact transistorTranslateF_exact subtractF_exact
  by simp

lemma BJTF_exact: "BJTF exact = BJT"
  by (simp add: BJTF_def BJT_def npnF_def npn_def fromStructF_def fromStruct_def exact_simps)

text \<open>
  In exact arithmetic the oriented placement of the second model is the one of the first
  model, for every mapper and every placement.
\<close>

lemma exact_arithmetic_gives_the_first_model:
  "placeAnatomicalF exact m pl = Some (placeAnatomical m pl) \<and>
   placeTemplateF exact m pl ablPins = Some (placeTemplate m pl ablPins) \<and>
   lineCrossingCoordF exact pins = lineCrossingCoord pins \<and>
   BJTF exact = BJT"
  by (simp only: placeAnatomicalF_exact placeTemplateF_exact lineCrossingCoordF_exact BJTF_exact)

text \<open>
  The value of \<open>double\<close> at a number whose binary exponent is known, and with it the
  evaluation of \<open>double\<close> at the numbers of the examples.
\<close>

lemma double_binade:
  assumes "2 powi k \<le> \<bar>x\<bar>" and "\<bar>x\<bar> < 2 powi (k + 1)"
  shows "double x = roundTo (k - 52) x"
proof -
  have pos: "(0::real) < 2 powi k" by simp
  then have x0: "0 < \<bar>x\<bar>" using assms(1) by linarith
  have p1: "(2::real) powr (real_of_int k) = 2 powi k" by (rule powr_real_of_int') simp_all
  have p2: "(2::real) powr (real_of_int (k + 1)) = 2 powi (k + 1)" by (rule powr_real_of_int') simp_all
  have "\<lfloor>log 2 \<bar>x\<bar>\<rfloor> = k"
    using floor_log_eq_powr_iff [of "\<bar>x\<bar>" 2 k] x0 assms p1 p2 by simp
  then show ?thesis using x0 by (simp add: double_def)
qed

lemma double_zero: "double 0 = 0"
  by (simp add: double_def)

lemmas double_binades =
  double_binade [of "-4", simplified] double_binade [of "-3", simplified]
  double_binade [of "-2", simplified] double_binade [of "-1", simplified]
  double_binade [of 0, simplified] double_binade [of 1, simplified]
  double_binade [of 2, simplified] double_binade [of 3, simplified]

lemmas double_eval = double_zero double_binades roundTo_def roundEven_def Let_def

lemma normalizeUpF_id: "\<not> angle \<le> - 180 \<Longrightarrow> normalizeUpF ar angle = Some angle"
  by (subst normalizeUpF.simps) simp

lemma normalizeDownF_id: "\<not> angle > 180 \<Longrightarrow> normalizeDownF ar angle = Some angle"
  by (subst normalizeDownF.simps) simp

lemma normalizeAngleF_id: "- 180 < angle \<Longrightarrow> angle \<le> 180 \<Longrightarrow> normalizeAngleF ar angle = Some angle"
  by (simp add: normalizeAngleF_def normalizeUpF_id normalizeDownF_id)

lemma scaling_254: "double 2.54 = 2859785763380265 / 1125899906842624"
  by (simp add: double_eval)

lemma ieee_rnd: "rnd (ieee ar) = double"
  by (simp add: ieee_def)

lemma ieee_square: "square (ieee ar) = (\<lambda>x. double (x * x))"
  by (simp add: ieee_def)

text \<open>The placement of the example, step by step.\<close>

lemma inch_coord: "instanceCoordOfF (ieee ar) inchPlacement =
   \<lparr>cx = - 2859785763380265 / 1125899906842624, cy = 8579357290140795 / 4503599627370496\<rparr>"
  by (simp add: instanceCoordOfF_def inchPlacement_def scaling_254 ieee_rnd double_eval)

lemma inch_anatomical: "placeAnatomicalF (ieee ar) (BJTF (ieee ar)) inchPlacement = Some (Inr inchAnatomical)"
  apply (simp add: placeAnatomicalF_def normalizeAngleF_id inchPlacement_def BJTF_def mapperRotateF_def mapperMirrorF_def)
  apply (simp add: inch_coord [unfolded inchPlacement_def, simplified])
  apply (simp add: TRANSISTOR_TOP_PIN_def TRANSISTOR_BOTTOM_PIN_def TRANSISTOR_TAP_PIN_def scaleF_def ieee_rnd scaling_254)
  apply (simp add: double_eval)
  apply (simp add: translatePinF_def addF_def ieee_rnd)
  apply (simp add: double_eval inchAnatomical_def)
  done

lemma inch_anatomical_crossing:
  "lineCrossingCoordF (ieee ar) inchAnatomical =
     Inr \<lparr>cx = - 2859785763380265 / 2251799813685248, cy = 8579357290140795 / 4503599627370496\<rparr>"
  apply (simp add: lineCrossingCoordF_def orthogonalProjectionF_def inchAnatomical_def subtractF_def
      ieee_rnd ieee_square)
  apply (simp add: double_eval)
  apply (simp add: scaleF_def addF_def ieee_rnd)
  apply (simp add: double_eval)
  done

lemma npn_double: "npnF (ieee ar) =
   \<lparr>ts_tikzComponentName = ''npn'', ts_pins = npnDouble, ts_anchorNames = [''C'', ''E'', ''B''],
    ts_anchorNr = None, ts_anchorCoord = Some \<lparr>cx = 0, cy = 0\<rparr>\<rparr>"
  apply (simp add: npnF_def fromStructF_def ieee_rnd)
  apply (simp add: double_eval npnDouble_def)
  done

lemma npn_crossing: "lineCrossingCoordF (ieee ar) npnDouble = Inr \<lparr>cx = 0, cy = 0\<rparr>"
  apply (simp add: lineCrossingCoordF_def orthogonalProjectionF_def npnDouble_def subtractF_def
      ieee_rnd ieee_square)
  apply (simp add: double_eval)
  apply (simp add: scaleF_def addF_def ieee_rnd)
  apply (simp add: double_eval)
  done

lemma inch_template:
  "placeTemplateF (ieee ar) (BJTF (ieee ar)) inchPlacement inchAnatomical = Some (Inr inchTemplate)"
  apply (simp add: placeTemplateF_def normalizeAngleF_id inchPlacement_def BJTF_def npn_double
      transistorRotateF_def transistorMirrorF_def tikzDeepClone_def inch_anatomical_crossing npn_crossing)
  apply (simp add: transistorTranslateF_def subtractF_def translatePinF_def addF_def npnDouble_def ieee_rnd)
  apply (simp add: double_eval inchTemplate_def)
  done

lemma inch_template_crossing:
  "lineCrossingCoordF (ieee ar) (t_pins inchTemplate) =
     Inr \<lparr>cx = - 2859785763380265 / 2251799813685248, cy = 2144839322535199 / 1125899906842624\<rparr>"
  apply (simp add: lineCrossingCoordF_def orthogonalProjectionF_def inchTemplate_def subtractF_def
      ieee_rnd ieee_square)
  apply (simp add: double_eval)
  apply (simp add: scaleF_def addF_def ieee_rnd)
  apply (simp add: double_eval)
  done

text \<open>
  In double precision the two line-crossing points of an oriented placement need not be
  equal.  For the mapper \<open>BJT\<close> at (-1, 0.75), not turned, with the unit factor 2.54, the
  line-crossing point of the anatomical triangle has the Y component
  \<open>8579357290140795 / 2 ^ 52\<close>, which is the double-precision number next to 1.905, and
  the one of the aligned template has \<open>2144839322535199 / 2 ^ 50\<close>, one unit in the last
  place more.  The template is translated by the rounded difference of the two points, and
  its line-crossing point is computed again from the translated pins.
\<close>

lemma line_crossing_points_differ_in_double_precision:
  "placeAnatomicalF (ieee ar) (BJTF (ieee ar)) inchPlacement = Some (Inr inchAnatomical) \<and>
   placeTemplateF (ieee ar) (BJTF (ieee ar)) inchPlacement inchAnatomical = Some (Inr inchTemplate) \<and>
   lineCrossingCoordF (ieee ar) inchAnatomical =
     Inr \<lparr>cx = - 2859785763380265 / 2251799813685248, cy = 8579357290140795 / 4503599627370496\<rparr> \<and>
   lineCrossingCoordF (ieee ar) (t_pins inchTemplate) =
     Inr \<lparr>cx = - 2859785763380265 / 2251799813685248, cy = 2144839322535199 / 1125899906842624\<rparr>"
  by (simp only: inch_anatomical inch_template inch_anatomical_crossing inch_template_crossing)

text \<open>The same placement with \<open>mirrorX\<close>, step by step.\<close>

lemma inch_anatomical_mirrored:
  "placeAnatomicalF (ieee ar) (BJTF (ieee ar)) (inchPlacement\<lparr>pl_mirrorX := True\<rparr>) =
     Some (Inr inchAnatomicalMirrored)"
  apply (simp add: placeAnatomicalF_def normalizeAngleF_id inchPlacement_def BJTF_def mapperRotateF_def
      mapperMirrorF_def upt3)
  apply (simp add: TRANSISTOR_TOP_PIN_def TRANSISTOR_BOTTOM_PIN_def TRANSISTOR_TAP_PIN_def scaleF_def
      ieee_rnd scaling_254 instanceCoordOfF_def)
  apply (simp add: double_eval)
  apply (simp add: mirrorStepF_def flipCoord_def subtractF_def addF_def ieee_rnd)
  apply (simp add: double_eval)
  apply (simp add: translatePinF_def addF_def ieee_rnd)
  apply (simp add: double_eval inchAnatomicalMirrored_def)
  done

lemma inch_anatomical_mirrored_crossing:
  "lineCrossingCoordF (ieee ar) inchAnatomicalMirrored =
     Inr \<lparr>cx = - 2859785763380265 / 2251799813685248, cy = 8579357290140795 / 4503599627370496\<rparr>"
  apply (simp add: lineCrossingCoordF_def orthogonalProjectionF_def inchAnatomicalMirrored_def
      subtractF_def ieee_rnd ieee_square)
  apply (simp add: double_eval)
  apply (simp add: scaleF_def addF_def ieee_rnd)
  apply (simp add: double_eval)
  done

lemma npn_mirrored:
  "map (mirrorAboutF (ieee ar) True False \<lparr>cx = 0, cy = 0\<rparr>) npnDouble = npnDoubleMirrored"
  apply (simp add: npnDouble_def mirrorAboutF_def flipCoord_def subtractF_def addF_def ieee_rnd)
  apply (simp add: double_eval npnDoubleMirrored_def)
  done

lemma npn_mirrored_crossing: "lineCrossingCoordF (ieee ar) npnDoubleMirrored = Inr \<lparr>cx = 0, cy = 0\<rparr>"
  apply (simp add: lineCrossingCoordF_def orthogonalProjectionF_def npnDoubleMirrored_def subtractF_def
      ieee_rnd ieee_square)
  apply (simp add: double_eval)
  apply (simp add: scaleF_def addF_def ieee_rnd)
  apply (simp add: double_eval)
  done

lemma inch_template_mirrored:
  "placeTemplateF (ieee ar) (BJTF (ieee ar)) (inchPlacement\<lparr>pl_mirrorX := True\<rparr>)
     inchAnatomicalMirrored = Some (Inr inchTemplateMirrored)"
  apply (simp add: placeTemplateF_def normalizeAngleF_id inchPlacement_def BJTF_def npn_double
      transistorRotateF_def transistorMirrorF_def tikzDeepClone_def npn_mirrored
      inch_anatomical_mirrored_crossing npn_mirrored_crossing)
  apply (simp add: transistorTranslateF_def subtractF_def translatePinF_def addF_def
      npnDoubleMirrored_def ieee_rnd)
  apply (simp add: double_eval inchTemplateMirrored_def)
  done

lemma inch_template_mirrored_crossing:
  "lineCrossingCoordF (ieee ar) (t_pins inchTemplateMirrored) =
     Inr \<lparr>cx = - 2859785763380265 / 2251799813685248, cy = 2144839322535199 / 1125899906842624\<rparr>"
  apply (simp add: lineCrossingCoordF_def orthogonalProjectionF_def inchTemplateMirrored_def
      subtractF_def ieee_rnd ieee_square)
  apply (simp add: double_eval)
  apply (simp add: scaleF_def addF_def ieee_rnd)
  apply (simp add: double_eval)
  done

text \<open>
  With \<open>mirrorX\<close> the two line-crossing points of the same placement differ in the same
  way.
\<close>

lemma mirrored_line_crossing_points_differ_in_double_precision:
  "placeAnatomicalF (ieee ar) (BJTF (ieee ar)) (inchPlacement\<lparr>pl_mirrorX := True\<rparr>) =
     Some (Inr inchAnatomicalMirrored) \<and>
   placeTemplateF (ieee ar) (BJTF (ieee ar)) (inchPlacement\<lparr>pl_mirrorX := True\<rparr>)
     inchAnatomicalMirrored = Some (Inr inchTemplateMirrored) \<and>
   lineCrossingCoordF (ieee ar) inchAnatomicalMirrored =
     Inr \<lparr>cx = - 2859785763380265 / 2251799813685248, cy = 8579357290140795 / 4503599627370496\<rparr> \<and>
   lineCrossingCoordF (ieee ar) (t_pins inchTemplateMirrored) =
     Inr \<lparr>cx = - 2859785763380265 / 2251799813685248, cy = 2144839322535199 / 1125899906842624\<rparr>"
  by (simp only: inch_anatomical_mirrored inch_template_mirrored inch_anatomical_mirrored_crossing
      inch_template_mirrored_crossing)

text \<open>
  In double precision the angle normalization does not end for every angle.  At the angle
  \<open>- (2 ^ 63)\<close> the sum with 360 is rounded back to \<open>- (2 ^ 63)\<close>, because the number
  next to it is 1024 away, so the first loop runs forever and the oriented placement does
  not return, whatever the mapper and the rest of the placement are.
\<close>

lemma double_angle: "double (- 9223372036854775448) = - 9223372036854775808"
  by (simp add: double_binade [of 62, simplified] roundTo_def roundEven_def Let_def)

lemma normalizeUpF_loops:
  assumes "normalizeUpF ar angle = Some y"
  shows "\<not> (rnd ar = double \<and> angle = - (2 ^ 63))"
proof (rule normalizeUpF.raw_induct
         [where P = "\<lambda>ar angle y. \<not> (rnd ar = double \<and> angle = - (2 ^ 63))", OF _ assms])
  fix f :: "arith \<Rightarrow> real \<Rightarrow> real option" and ar' angle' y'
  assume ih: "\<And>ar angle y. f ar angle = Some y \<Longrightarrow> \<not> (rnd ar = double \<and> angle = - (2 ^ 63))"
    and step: "(if angle' \<le> - 180 then f ar' (rnd ar' (angle' + 360)) else Some angle') = Some y'"
  show "\<not> (rnd ar' = double \<and> angle' = - (2 ^ 63))"
  proof
    assume a: "rnd ar' = double \<and> angle' = - (2 ^ 63)"
    then have "f ar' (- (2 ^ 63)) = Some y'"
      using step by (simp add: double_angle)
    then show False using ih a by blast
  qed
qed

lemma normalizeUp_does_not_return: "normalizeUpF (ieee ar) (- (2 ^ 63)) = None"
proof (cases "normalizeUpF (ieee ar) (- (2 ^ 63))")
  case None
  then show ?thesis .
next
  case (Some y)
  then show ?thesis using normalizeUpF_loops [of "ieee ar" "- (2 ^ 63)" y] by (simp add: ieee_rnd)
qed

lemma oriented_placement_does_not_return_in_double_precision:
  "placeAnatomicalF (ieee ar) m (pl\<lparr>pl_angle := - (2 ^ 63)\<rparr>) = None"
  by (simp add: placeAnatomicalF_def normalizeAngleF_def normalizeUp_does_not_return [simplified])

subsection \<open>Unknown instances\<close>

lemma parseInstances_append:
  "parseInstances catalog uuid scale0 sc (pre @ post) =
     (case parseInstances catalog uuid scale0 sc pre of
        Inl e \<Rightarrow> Inl e
      | Inr (sc1, lg1) \<Rightarrow>
          (case parseInstances catalog uuid scale0 sc1 post of
             Inl e \<Rightarrow> Inl e
           | Inr (sc2, lg2) \<Rightarrow> Inr (sc2, lg1 @ lg2)))"
  by (induction pre arbitrary: sc) (auto split: sum.splits)

lemma parseInstance_unknown:
  assumes "catalog (ix_libraryName instX @ '':'' @ ix_cellName instX) = None"
    and "catalog (ix_cellName instX) = None"
  shows "parseInstance catalog uuid scale0 sc instX = Inr (sc, [skipMessage instX])"
  using assms by (simp add: parseInstance_def lookupStencil_def)

text \<open>
  C8.  An instance whose library and cell have no entry in the catalog, neither under
  \<open>libraryName:cellName\<close> nor under \<open>cellName\<close>, raises no error and changes nothing but the
  log: its round returns the state as it was, with one warning.  The parse of a schematic
  that contains it ends as the parse of the schematic without it does, with the same error
  or with the same state (so the same components, none for this instance) and the same log
  plus the warning.
\<close>

theorem unknown_instance_skipped:
  assumes "catalog (ix_libraryName instX @ '':'' @ ix_cellName instX) = None"
    and "catalog (ix_cellName instX) = None"
  shows "parseInstance catalog uuid scale0 sc instX = Inr (sc, [skipMessage instX]) \<and>
         (case parse catalog uuid scale0 wireArray (pre @ post) of
            Inl e \<Rightarrow> parse catalog uuid scale0 wireArray (pre @ instX # post) = Inl e
          | Inr (sc', lg) \<Rightarrow>
              (\<exists>lg1 lg2. lg = lg1 @ lg2 \<and>
                 parse catalog uuid scale0 wireArray (pre @ instX # post)
                   = Inr (sc', lg1 @ skipMessage instX # lg2)))"
proof -
  note u = parseInstance_unknown [OF assms]
  obtain scw lgw where w: "parseWires scale0 emptySchematic wireArray = (scw, lgw)"
    by (cases "parseWires scale0 emptySchematic wireArray")
  have step: "\<And>s. parseInstances catalog uuid scale0 s (instX # post) =
      (case parseInstances catalog uuid scale0 s post of
         Inl e \<Rightarrow> Inl e | Inr (sc2, lg2) \<Rightarrow> Inr (sc2, skipMessage instX # lg2))"
    by (simp add: u split: sum.splits)
  show ?thesis
  proof (cases "parseInstances catalog uuid scale0 scw pre")
    case (Inl e)
    then show ?thesis using u w by (simp add: parse_def parseInstances_append)
  next
    case (Inr r)
    obtain sc1 lg1 where r: "r = (sc1, lg1)" by (cases r)
    show ?thesis
    proof (cases "parseInstances catalog uuid scale0 sc1 post")
      case (Inl e)
      then show ?thesis using u w Inr r by (simp add: parse_def parseInstances_append step)
    next
      case (Inr r2)
      obtain sc2 lg2 where r2: "r2 = (sc2, lg2)" by (cases r2)
      have "\<exists>l1 l2. lgw @ lg1 @ lg2 = l1 @ l2 \<and> lgw @ lg1 @ skipMessage instX # lg2 = l1 @ skipMessage instX # l2"
        by (rule exI [of _ "lgw @ lg1"], rule exI [of _ lg2]) simp
      then show ?thesis using u w \<open>parseInstances catalog uuid scale0 scw pre = Inr r\<close> r Inr r2
        by (simp add: parse_def parseInstances_append step)
    qed
  qed
qed

theorem unknown_instance_skipped_witness:
  "Map.empty (''ads_rflib'' @ '':'' @ ''FOO'') = (None :: stencil option) \<and>
   parse Map.empty uuidExample 2.54 []
     [\<lparr>ix_libraryName = ''ads_rflib'', ix_cellName = ''FOO'', ix_instanceName = ''X1'',
       ix_placement = None, ix_pins = []\<rparr>]
   = Inr (emptySchematic, [''Skipping not identified component         X1: ads_rflib:FOO''])"
proof -
  let ?i = "\<lparr>ix_libraryName = ''ads_rflib'', ix_cellName = ''FOO'', ix_instanceName = ''X1'',
       ix_placement = None, ix_pins = []\<rparr>"
  have h1: "(Map.empty :: string \<rightharpoonup> stencil) (ix_libraryName ?i @ '':'' @ ix_cellName ?i) = None" by simp
  have h2: "(Map.empty :: string \<rightharpoonup> stencil) (ix_cellName ?i) = None" by simp
  have p0: "parse Map.empty uuidExample 2.54 [] ([] @ []) = Inr (emptySchematic, [])"
    by (simp add: parse_def parseWires_def)
  from unknown_instance_skipped [OF h1 h2, where uuid = uuidExample and ?scale0.0 = "2.54"
      and sc = emptySchematic and wireArray = "[]" and pre = "[]" and post = "[]"]
  have "\<exists>lg1 lg2. [] = lg1 @ lg2 \<and>
          parse Map.empty uuidExample 2.54 [] ([] @ ?i # []) = Inr (emptySchematic, lg1 @ skipMessage ?i # lg2)"
    unfolding p0 by simp
  then have "parse Map.empty uuidExample 2.54 [] [?i] = Inr (emptySchematic, [skipMessage ?i])"
    by auto
  moreover have "skipMessage ?i = ''Skipping not identified component         X1: ads_rflib:FOO''"
    by (simp add: skipMessage_def numeral_eq_Suc)
  ultimately show ?thesis by simp
qed

subsection \<open>What placement leaves alone\<close>

lemma sameNets_refl [simp]: "sameNets sc sc"
  by (simp add: sameNets_def)

lemma sameNets_trans: "sameNets a b \<Longrightarrow> sameNets b c \<Longrightarrow> sameNets a c"
  by (simp add: sameNets_def)

lemma canonicalize_sameNets: "canonicalize sc c = (sc', a) \<Longrightarrow> sameNets sc sc'"
  by (auto simp: canonicalize_def sameNets_def split: option.splits)

lemma snapPin_sameNets: "snapPin maxDist sc p r = Inr (sc', p') \<Longrightarrow> sameNets sc sc'"
  by (auto simp: snapPin_def sameNets_def split: sum.splits option.splits if_splits cref.splits)

lemma findPosition_sameNets: "findPosition pins rel sc p = Inr (sc', p') \<Longrightarrow> sameNets sc sc'"
  unfolding findPosition_def by (rule snapPin_sameNets)

lemma findPositions_sameNets: "findPositions pins rel sc ps = Inr (sc', ps') \<Longrightarrow> sameNets sc sc'"
proof (induction ps arbitrary: sc ps')
  case Nil
  then show ?case by simp
next
  case (Cons p ps)
  from Cons.prems obtain sc1 p1 ps2 where
    a: "findPosition pins rel sc p = Inr (sc1, p1)" and b: "findPositions pins rel sc1 ps = Inr (sc', ps2)"
    by (auto split: sum.splits)
  show ?case using findPosition_sameNets [OF a] Cons.IH [OF b] sameNets_trans by blast
qed

lemma pathUseAsStencil_sameNets:
  "pathUseAsStencil this nm pins pl sc = Inr (sc', c) \<Longrightarrow> sameNets sc sc'"
  by (auto simp: pathUseAsStencil_def Let_def split: prod.splits option.splits sum.splits
      dest!: canonicalize_sameNets findPositions_sameNets intro: sameNets_trans)

lemma potentialUseAsStencil_sameNets:
  "potentialUseAsStencil this pins pl sc = Inr (sc', c) \<Longrightarrow> sameNets sc sc'"
  by (auto simp: potentialUseAsStencil_def Let_def split: prod.splits list.splits sum.splits
      dest!: canonicalize_sameNets findPosition_sameNets intro: sameNets_trans)

lemma internAnchor_sameNets: "internAnchor sc t = (sc', r) \<Longrightarrow> sameNets sc sc'"
  by (auto simp: internAnchor_def split: option.splits prod.splits dest!: canonicalize_sameNets)

lemma mapperUseAsStencil_sameNets:
  "mapperUseAsStencil this nm pins pl sc = Inr (sc', c) \<Longrightarrow> sameNets sc sc'"
proof -
  assume a: "mapperUseAsStencil this nm pins pl sc = Inr (sc', c)"
  then obtain ablPins transistor sc1 r sc2 pins1 st3 where
    i: "internAnchor sc transistor = (sc1, r)"
    and f: "findPositions ablPins None sc1 pins = Inr (sc2, pins1)"
    and s: "sc' = sc2\<lparr>sc_store := st3\<rparr>"
    by (auto simp: mapperUseAsStencil_def Let_def split: sum.splits prod.splits)
  have "sameNets sc sc2" using internAnchor_sameNets [OF i] findPositions_sameNets [OF f] sameNets_trans by blast
  then show ?thesis by (simp add: s sameNets_def)
qed

subsection \<open>Nets\<close>

lemma tableGrows_refl [simp]: "tableGrows sc sc" by (simp add: tableGrows_def)

lemma tableGrows_trans: "tableGrows a b \<Longrightarrow> tableGrows b c \<Longrightarrow> tableGrows a c"
  by (simp add: tableGrows_def)

lemma netTableOK_empty: "netTableOK emptySchematic"
  by (simp add: netTableOK_def emptySchematic_def)

lemma netTableOK_unique:
  "netTableOK sc \<Longrightarrow> n1 < length (sc_netObjs sc) \<Longrightarrow> n2 < length (sc_netObjs sc) \<Longrightarrow>
   n_netname (sc_netObjs sc ! n1) = n_netname (sc_netObjs sc ! n2) \<Longrightarrow> n1 = n2"
  by (metis netTableOK_def option.inject)

lemma getNet_ok:
  assumes "netTableOK sc" and "getNet sc name = (sc', n)"
  shows "netTableOK sc' \<and> sc_nets sc' name = Some n \<and> tableGrows sc sc' \<and>
         sc_store sc' = sc_store sc \<and> sc_coords sc' = sc_coords sc \<and> sc_wires sc' = sc_wires sc \<and>
         sc_components sc' = sc_components sc \<and> sc_uuids sc' = sc_uuids sc"
proof (cases "sc_nets sc name")
  case None
  then have e: "sc' = sc\<lparr>sc_netObjs := sc_netObjs sc @ [\<lparr>n_netname = name, n_wires = []\<rparr>],
                          sc_nets := (sc_nets sc)(name \<mapsto> length (sc_netObjs sc))\<rparr>"
    and n: "n = length (sc_netObjs sc)"
    using assms(2) by (auto simp: getNet_def)
  have a: "\<And>nm k. sc_nets sc nm = Some k \<Longrightarrow> k < length (sc_netObjs sc) \<and> n_netname (sc_netObjs sc ! k) = nm"
    and b: "\<And>k. k < length (sc_netObjs sc) \<Longrightarrow> sc_nets sc (n_netname (sc_netObjs sc ! k)) = Some k"
    using assms(1) by (simp_all add: netTableOK_def)
  have nk: "\<And>k. k < length (sc_netObjs sc) \<Longrightarrow> n_netname (sc_netObjs sc ! k) \<noteq> name"
    using b None by fastforce
  have "netTableOK sc'"
    unfolding netTableOK_def e
    by (auto simp: nth_append less_Suc_eq dest: a b nk)
  moreover have "tableGrows sc sc'" unfolding tableGrows_def e using None by auto
  ultimately show ?thesis by (simp add: e n)
next
  case (Some k)
  then show ?thesis using assms by (simp add: getNet_def)
qed

lemma netTableOK_cong:
  "netTableOK sc \<Longrightarrow> sc_nets sc' = sc_nets sc \<Longrightarrow> map n_netname (sc_netObjs sc') = map n_netname (sc_netObjs sc)
   \<Longrightarrow> netTableOK sc'"
  unfolding netTableOK_def
  by (metis length_map nth_map)

lemma map_netname_update:
  "map n_netname (xs[n := (xs ! n)\<lparr>n_wires := ws\<rparr>]) = map n_netname xs"
  by (induction xs arbitrary: n) (auto split: nat.splits)

lemma parsePoint_nets:
  "parsePoint scale0 (sc, wc, lg) tok = (sc', wc', lg') \<Longrightarrow> sameNets sc sc'"
  by (auto simp: parsePoint_def Let_def split: coordToken.splits prod.splits dest: canonicalize_sameNets)

lemma foldl_parsePoint_nets:
  "foldl (parsePoint scale0) (sc, wc, lg) toks = (sc', wc', lg') \<Longrightarrow> sameNets sc sc'"
proof (induction toks arbitrary: sc wc lg)
  case Nil
  then show ?case by simp
next
  case (Cons t ts)
  obtain sc1 wc1 lg1 where s: "parsePoint scale0 (sc, wc, lg) t = (sc1, wc1, lg1)"
    by (cases "parsePoint scale0 (sc, wc, lg) t") auto
  then show ?case using Cons parsePoint_nets [OF s] sameNets_trans by fastforce
qed

lemma parseWire_ok:
  assumes "netTableOK sc" and "parseWire scale0 sc wx = (sc', lg)"
  shows "netTableOK sc' \<and> tableGrows sc sc' \<and>
         (\<exists>w. sc_wires sc' = sc_wires sc @ [w] \<and> sc_nets sc' (wx_netName wx) = Some (w_net w)) \<and>
         sc_uuids sc' = sc_uuids sc"
proof -
  obtain sc1 n where g: "getNet sc (wx_netName wx) = (sc1, n)" by (cases "getNet sc (wx_netName wx)")
  obtain sc2 wc lg2 where f: "foldl (parsePoint scale0) (sc1, [], []) (wx_points wx) = (sc2, wc, lg2)"
    by (cases "foldl (parsePoint scale0) (sc1, [], []) (wx_points wx)") auto
  note g1 = getNet_ok [OF assms(1) g]
  note s12 = foldl_parsePoint_nets [OF f]
  define w where "w = \<lparr>w_net = n, w_coords = wc\<rparr>"
  have e: "sc' = sc2\<lparr>sc_netObjs := (sc_netObjs sc2)[n := (sc_netObjs sc2 ! n)\<lparr>n_wires := n_wires (sc_netObjs sc2 ! n) @ [w]\<rparr>],
                      sc_wires := sc_wires sc2 @ [w]\<rparr>"
    using assms(2) g f by (simp add: parseWire_def Let_def w_def)
  have ok2: "netTableOK sc2"
  proof (rule netTableOK_cong)
    show "netTableOK sc1" using g1 by simp
    show "sc_nets sc2 = sc_nets sc1" using s12 by (simp add: sameNets_def)
    show "map n_netname (sc_netObjs sc2) = map n_netname (sc_netObjs sc1)"
      using s12 by (simp add: sameNets_def)
  qed
  have "netTableOK sc'"
  proof (rule netTableOK_cong)
    show "netTableOK sc2" by (rule ok2)
    show "sc_nets sc' = sc_nets sc2" by (simp add: e)
    show "map n_netname (sc_netObjs sc') = map n_netname (sc_netObjs sc2)"
      unfolding e by (simp add: map_netname_update)
  qed
  moreover have "tableGrows sc sc'" using g1 s12 by (simp add: e tableGrows_def sameNets_def)
  moreover have "sc_wires sc' = sc_wires sc @ [w] \<and> sc_nets sc' (wx_netName wx) = Some (w_net w)"
    using g1 s12 by (simp add: e sameNets_def w_def)
  moreover have "sc_uuids sc' = sc_uuids sc" using g1 s12 by (simp add: e sameNets_def)
  ultimately show ?thesis by blast
qed

lemma parsePin_ok:
  assumes "netTableOK sc" and "parsePin uuid sc px = (sc', p)"
  shows "netTableOK sc' \<and> tableGrows sc sc' \<and>
         p_net p = sc_nets sc' (if ipx_netName px = [] then uuid (sc_uuids sc) else ipx_netName px) \<and>
         p_net p \<noteq> None \<and> sc_wires sc' = sc_wires sc"
proof -
  let ?name = "if ipx_netName px = [] then uuid (sc_uuids sc) else ipx_netName px"
  let ?sc1 = "if ipx_netName px = [] then sc\<lparr>sc_uuids := Suc (sc_uuids sc)\<rparr> else sc"
  obtain sc2 n where g: "getNet ?sc1 ?name = (sc2, n)" by (cases "getNet ?sc1 ?name")
  have ok1: "netTableOK ?sc1" using assms(1) by (simp add: netTableOK_def)
  note g1 = getNet_ok [OF ok1 g]
  have e: "sc' = sc2" and pn: "p_net p = Some n"
    using assms(2) g by (auto simp: parsePin_def Let_def split: if_splits)
  have "tableGrows sc sc2" using g1 by (auto simp: tableGrows_def split: if_splits)
  moreover have "sc_wires sc2 = sc_wires sc" using g1 by (auto split: if_splits)
  ultimately show ?thesis using g1 e pn by simp
qed


lemma parseWires_ok:
  "netTableOK sc \<Longrightarrow> parseWires scale0 sc ws = (sc', lg) \<Longrightarrow> netTableOK sc'"
proof -
  have "\<And>sc lg0 sc' lg. netTableOK sc \<Longrightarrow>
      foldl (\<lambda>(sc1, lg) wireX. let (sc2, lg2) = parseWire scale0 sc1 wireX in (sc2, lg @ lg2)) (sc, lg0) ws = (sc', lg)
      \<Longrightarrow> netTableOK sc'"
  proof (induction ws)
    case Nil
    then show ?case by simp
  next
    case (Cons w ws)
    obtain sc2 lg2 where p: "parseWire scale0 sc w = (sc2, lg2)" by (cases "parseWire scale0 sc w")
    have "netTableOK sc2" using parseWire_ok [OF Cons.prems(1) p] by simp
    then show ?case using Cons.IH [of sc2 "lg0 @ lg2" sc' lg] Cons.prems(2) p by simp
  qed
  then show "netTableOK sc \<Longrightarrow> parseWires scale0 sc ws = (sc', lg) \<Longrightarrow> netTableOK sc'"
    unfolding parseWires_def by blast
qed

lemma parsePins_ok:
  "netTableOK sc \<Longrightarrow> parsePins uuid sc pxs = (sc', ps) \<Longrightarrow> netTableOK sc'"
proof (induction pxs arbitrary: sc sc' ps)
  case Nil
  then show ?case by simp
next
  case (Cons px pxs)
  obtain sc1 p where a: "parsePin uuid sc px = (sc1, p)" by (cases "parsePin uuid sc px")
  obtain sc2 qs where b: "parsePins uuid sc1 pxs = (sc2, qs)" by (cases "parsePins uuid sc1 pxs")
  have "netTableOK sc1" using parsePin_ok [OF Cons.prems(1) a] by simp
  then have "netTableOK sc2" using Cons.IH b by blast
  then show ?case using Cons.prems(2) a b by simp
qed

lemma sameNets_ok: "netTableOK sc \<Longrightarrow> sameNets sc sc' \<Longrightarrow> netTableOK sc'"
  by (rule netTableOK_cong) (simp_all add: sameNets_def)

lemma netTableOK_components [simp]: "netTableOK (sc\<lparr>sc_components := cs\<rparr>) = netTableOK sc"
  by (simp add: netTableOK_def)

lemma parseInstance_ok:
  assumes "netTableOK sc" and "parseInstance catalog uuid scale0 sc instX = Inr (sc', lg)"
  shows "netTableOK sc'"
proof (cases "lookupStencil catalog (ix_libraryName instX) (ix_cellName instX)")
  case None
  then show ?thesis using assms by (simp add: parseInstance_def)
next
  case (Some stn)
  obtain sc1 pins where pp: "parsePins uuid sc (ix_pins instX) = (sc1, pins)"
    by (cases "parsePins uuid sc (ix_pins instX)")
  have ok1: "netTableOK sc1" using parsePins_ok [OF assms(1) pp] .
  show ?thesis
  proof (cases stn)
    case (PathStencil ps)
    then show ?thesis using assms(2) Some pp ok1
      by (auto simp: parseInstance_def Let_def split: sum.splits
          dest!: pathUseAsStencil_sameNets intro: sameNets_ok)
  next
    case (PotentialStencil pos)
    then show ?thesis using assms(2) Some pp ok1
      by (auto simp: parseInstance_def Let_def split: sum.splits
          dest!: potentialUseAsStencil_sameNets intro: sameNets_ok)
  next
    case (MapperStencil m)
    then show ?thesis using assms(2) Some pp ok1
      by (auto simp: parseInstance_def Let_def split: sum.splits
          dest!: mapperUseAsStencil_sameNets intro: sameNets_ok)
  qed
qed

lemma parseInstances_ok:
  "netTableOK sc \<Longrightarrow> parseInstances catalog uuid scale0 sc is = Inr (sc', lg) \<Longrightarrow> netTableOK sc'"
proof (induction "is" arbitrary: sc sc' lg)
  case Nil
  then show ?case by simp
next
  case (Cons i "is")
  from Cons.prems(2) obtain sc1 lg1 lg2 where
    a: "parseInstance catalog uuid scale0 sc i = Inr (sc1, lg1)"
    and b: "parseInstances catalog uuid scale0 sc1 is = Inr (sc', lg2)"
    by (auto split: sum.splits)
  show ?case using Cons.IH [OF parseInstance_ok [OF Cons.prems(1) a] b] .
qed

lemma parse_ok:
  assumes "parse catalog uuid scale0 ws is = Inr (sc', lg)"
  shows "netTableOK sc'"
proof -
  obtain sc1 lg1 where w: "parseWires scale0 emptySchematic ws = (sc1, lg1)"
    by (cases "parseWires scale0 emptySchematic ws")
  have ok1: "netTableOK sc1" using parseWires_ok [OF netTableOK_empty w] .
  from assms w obtain lg2 where "parseInstances catalog uuid scale0 sc1 is = Inr (sc', lg2)"
    by (auto simp: parse_def split: sum.splits)
  then show ?thesis using parseInstances_ok [OF ok1] by blast
qed

text \<open>
  C5, as amended.  The table of nets and the \<open>Net\<close> objects correspond one to one in every
  schematic that \<open>parse\<close> returns, and in any such state: two \<open>Net\<close> objects with the same
  name are one object; a wire refers to the object registered under the net name of its
  record, the empty name included; a pin with a net name refers to the object registered
  under that name, and a pin without one refers to the object registered under the text
  that \<open>uuid()\<close> returned for it; entries of the table are never replaced.
\<close>

theorem nets_resolve_by_name:
  "(parse catalog uuid scale0 wireArray instanceArray = Inr (sc0, lg0) \<longrightarrow> netTableOK sc0) \<and>
   (netTableOK sc \<longrightarrow>
      (\<forall>n1 n2. n1 < length (sc_netObjs sc) \<and> n2 < length (sc_netObjs sc) \<and>
           n_netname (sc_netObjs sc ! n1) = n_netname (sc_netObjs sc ! n2) \<longrightarrow> n1 = n2) \<and>
      (case parseWire scale0 sc wx of (sc', lg) \<Rightarrow>
         netTableOK sc' \<and> tableGrows sc sc' \<and>
         (\<exists>w. sc_wires sc' = sc_wires sc @ [w] \<and> sc_nets sc' (wx_netName wx) = Some (w_net w))) \<and>
      (case parsePin uuid sc px of (sc', p) \<Rightarrow>
         netTableOK sc' \<and> tableGrows sc sc' \<and> p_net p \<noteq> None \<and>
         p_net p = sc_nets sc' (if ipx_netName px = [] then uuid (sc_uuids sc) else ipx_netName px)))"
proof -
  have a: "parse catalog uuid scale0 wireArray instanceArray = Inr (sc0, lg0) \<longrightarrow> netTableOK sc0"
    using parse_ok by blast
  have b: "netTableOK sc \<Longrightarrow>
      (\<forall>n1 n2. n1 < length (sc_netObjs sc) \<and> n2 < length (sc_netObjs sc) \<and>
           n_netname (sc_netObjs sc ! n1) = n_netname (sc_netObjs sc ! n2) \<longrightarrow> n1 = n2)"
    using netTableOK_unique by blast
  have c: "netTableOK sc \<Longrightarrow> (case parseWire scale0 sc wx of (sc', lg) \<Rightarrow>
         netTableOK sc' \<and> tableGrows sc sc' \<and>
         (\<exists>w. sc_wires sc' = sc_wires sc @ [w] \<and> sc_nets sc' (wx_netName wx) = Some (w_net w)))"
    using parseWire_ok [of sc scale0 wx] by (cases "parseWire scale0 sc wx") simp
  have d: "netTableOK sc \<Longrightarrow> (case parsePin uuid sc px of (sc', p) \<Rightarrow>
         netTableOK sc' \<and> tableGrows sc sc' \<and> p_net p \<noteq> None \<and>
         p_net p = sc_nets sc' (if ipx_netName px = [] then uuid (sc_uuids sc) else ipx_netName px))"
  proof -
    assume ok: "netTableOK sc"
    obtain sc' p where e: "parsePin uuid sc px = (sc', p)" by (cases "parsePin uuid sc px")
    note r = parsePin_ok [OF ok e]
    have r1: "netTableOK sc'" using r by (rule conjunct1)
    have r2: "tableGrows sc sc'" using r by (elim conjE)
    have r3: "p_net p \<noteq> None" using r by (elim conjE)
    have r4: "p_net p = sc_nets sc' (if ipx_netName px = [] then uuid (sc_uuids sc) else ipx_netName px)"
      using r by (elim conjE)
    show ?thesis unfolding e prod.case using r1 r2 r3 r4 by (intro conjI)
  qed
  show ?thesis
    apply (rule conjI)
     apply (rule a)
    apply (rule impI)
    apply (intro conjI)
      apply (erule b)
     apply (erule c)
    apply (erule d)
    done
qed

theorem nets_resolve_by_name_witness:
  "netTableOK emptySchematic \<and>
   (case parsePin uuidExample emptySchematic
           \<lparr>ipx_instTermNumber = 1, ipx_pinName = ''P1'', ipx_netName = ''VCC''\<rparr> of
      (sc', p) \<Rightarrow> netTableOK sc' \<and> p_net p = sc_nets sc' ''VCC'' \<and> p_net p = Some 0)"
proof -
  let ?px = "\<lparr>ipx_instTermNumber = 1, ipx_pinName = ''P1'', ipx_netName = ''VCC''\<rparr>"
  obtain sc' p where e: "parsePin uuidExample emptySchematic ?px = (sc', p)"
    by (cases "parsePin uuidExample emptySchematic ?px")
  have v: "p_net p = Some 0"
    using e by (auto simp: parsePin_def getNet_def emptySchematic_def Let_def)
  note t = nets_resolve_by_name [where sc = emptySchematic and uuid = uuidExample and px = ?px,
      THEN conjunct2, THEN mp, OF netTableOK_empty, THEN conjunct2, THEN conjunct2]
  from t have "netTableOK sc' \<and> p_net p = sc_nets sc' ''VCC''" unfolding e by simp
  then show ?thesis using netTableOK_empty v unfolding e by simp
qed

text \<open>
  The claim as stated fails for the empty name: a wire without net name is given the
  \<open>Net\<close> object 0 (named \<open>""\<close>), and a pin without net name parsed next is given the
  object 1 (named by \<open>uuid()\<close>).
\<close>

theorem unnamed_pin_net_counterexample:
  "map w_net (sc_wires (fst (parseWire 2.54 emptySchematic \<lparr>wx_netName = [], wx_points = []\<rparr>))) = [0] \<and>
   p_net (snd (parsePin uuidExample
                 (fst (parseWire 2.54 emptySchematic \<lparr>wx_netName = [], wx_points = []\<rparr>))
                 \<lparr>ipx_instTermNumber = 1, ipx_pinName = ''P1'', ipx_netName = []\<rparr>)) = Some 1"
  by (simp add: parseWire_def parsePin_def getNet_def emptySchematic_def Let_def uuidExample_def)

subsection \<open>Snapping at the search radius\<close>

lemmas geometry_defs = scale_def rotate_c_def add_def subtract_def mirrorX_def mirrorY_def
  getDistance_def equals_def orthogonalProjection_def flipCoord_def instanceCoordOf_def

lemmas snap_defs = findPosition_def snapPin_def pinHint_def searchWires_def closestOnWire_def
  findCoord_def canonicalize_def deref_def

lemmas place_defs = pathUseAsStencil_def potentialUseAsStencil_def mapperUseAsStencil_def
  reorder_def pinMatches_def truthy_def normalizePlacement_def internAnchor_def
  placeAnatomical_def placeTemplate_def mapperRotate_def mapperMirror_def mirrorStep_def
  mirrorAbout_def translatePin_def transistorMirror_def transistorRotate_def
  transistorTranslate_def tikzDeepClone_def lineCrossingCoord_def

lemmas parse_defs = parse_def parseWires_def parseWire_def parsePoint_def getNet_def
  parseInstance_def lookupStencil_def parsePin_def emptySchematic_def defaultPlacement_def

text \<open>
  Away from the radius the search does what one expects of it.  With a vertex of a wire
  of the pin's net strictly inside the radius, the pin adopts a vertex of such a wire
  that is nearest among all their vertices, and the state is unchanged; with every such
  vertex strictly outside, the coordinate of the pin is canonicalized.
\<close>

lemma closest_fold:
  "foldl (\<lambda>prevVal a. let distance = getDistance c (st ! a)
                       in if fst prevVal < distance then prevVal else (distance, Some a))
     (d0, r0) as = (d, r) \<Longrightarrow>
   d \<le> d0 \<and> (\<forall>a \<in> set as. d \<le> getDistance c (st ! a)) \<and>
   ((d = d0 \<and> r = r0 \<and> (\<forall>a \<in> set as. d0 < getDistance c (st ! a))) \<or>
    (\<exists>a \<in> set as. r = Some a \<and> d = getDistance c (st ! a)))"
proof (induction as arbitrary: d0 r0)
  case Nil
  then show ?case by simp
next
  case (Cons a as)
  show ?case
  proof (cases "d0 < getDistance c (st ! a)")
    case True
    then have "foldl (\<lambda>prevVal a. let distance = getDistance c (st ! a)
                       in if fst prevVal < distance then prevVal else (distance, Some a))
                 (d0, r0) as = (d, r)"
      using Cons.prems by simp
    from Cons.IH [OF this] True show ?thesis by auto
  next
    case False
    then have "foldl (\<lambda>prevVal a. let distance = getDistance c (st ! a)
                       in if fst prevVal < distance then prevVal else (distance, Some a))
                 (getDistance c (st ! a), Some a) as = (d, r)"
      using Cons.prems by simp
    from Cons.IH [OF this] False show ?thesis by auto
  qed
qed

lemma closestOnWire_cases:
  assumes "closestOnWire st c maxDist w = (d, r)"
  shows "d \<le> maxDist \<and> (\<forall>a \<in> set (w_coords w). d \<le> getDistance c (st ! a)) \<and>
         ((d = maxDist \<and> r = None \<and> (\<forall>a \<in> set (w_coords w). maxDist < getDistance c (st ! a))) \<or>
          (\<exists>a \<in> set (w_coords w). r = Some a \<and> d = getDistance c (st ! a)))"
  using assms unfolding closestOnWire_def by (rule closest_fold)

lemma sort_key_head:
  assumes "sort_key f xs = y # ys"
  shows "y \<in> set xs \<and> (\<forall>x \<in> set xs. f y \<le> f x)"
proof -
  have s: "set (sort_key f xs) = set xs" by simp
  have "sorted (map f (sort_key f xs))" by (rule sorted_sort_key)
  then have "\<forall>x \<in> set ys. f y \<le> f x" unfolding assms by auto
  moreover have "set xs = insert y (set ys)" using s unfolding assms by simp
  ultimately show ?thesis by auto
qed

lemma searchWires_outside:
  assumes "\<forall>w \<in> set wires. w_net w = n \<longrightarrow> (\<forall>a \<in> set (w_coords w). maxDist < getDistance c (st ! a))"
  shows "searchWires st wires (Some n) (Some c) maxDist = Inr None"
proof (cases "sort_key fst (map (closestOnWire st c maxDist) (filter (\<lambda>w. w_net w = n) wires))")
  case Nil
  then show ?thesis by (simp add: searchWires_def)
next
  case (Cons cand rest)
  from sort_key_head [OF Cons] obtain w where w: "w \<in> set wires" "w_net w = n"
    and e: "cand = closestOnWire st c maxDist w" by auto
  obtain d r where dr: "closestOnWire st c maxDist w = (d, r)" by (cases "closestOnWire st c maxDist w")
  from closestOnWire_cases [OF dr] assms w have "r = None" by force
  then show ?thesis using Cons e dr by (simp add: searchWires_def)
qed

lemma searchWires_inside:
  assumes "w0 \<in> set wires" and "w_net w0 = n" and "a0 \<in> set (w_coords w0)"
    and "getDistance c (st ! a0) < maxDist"
  shows "\<exists>a. searchWires st wires (Some n) (Some c) maxDist = Inr (Some a) \<and>
             (\<exists>w \<in> set wires. w_net w = n \<and> a \<in> set (w_coords w)) \<and>
             (\<forall>w \<in> set wires. w_net w = n \<longrightarrow>
                (\<forall>b \<in> set (w_coords w). getDistance c (st ! a) \<le> getDistance c (st ! b)))"
proof -
  let ?ws = "filter (\<lambda>w. w_net w = n) wires"
  let ?cands = "map (closestOnWire st c maxDist) ?ws"
  have ne: "?cands \<noteq> []" using assms(1,2) by (auto simp: filter_empty_conv)
  have "length (sort_key fst ?cands) = length ?cands" by (rule length_sort)
  then have "sort_key fst ?cands \<noteq> []" using ne by (metis length_0_conv)
  then obtain cand rest where s: "sort_key fst ?cands = cand # rest"
    by (cases "sort_key fst ?cands") auto
  note h = sort_key_head [OF s]
  from h obtain w where w: "w \<in> set wires" "w_net w = n"
    and e: "cand = closestOnWire st c maxDist w" by auto
  obtain d r where dr: "closestOnWire st c maxDist w = (d, r)" by (cases "closestOnWire st c maxDist w")
  have min: "\<forall>w' \<in> set wires. w_net w' = n \<longrightarrow> d \<le> fst (closestOnWire st c maxDist w')"
    using h e dr by auto
  have le: "\<forall>w' \<in> set wires. w_net w' = n \<longrightarrow> (\<forall>b \<in> set (w_coords w'). d \<le> getDistance c (st ! b))"
  proof (intro ballI impI)
    fix w' b assume w': "w' \<in> set wires" "w_net w' = n" and b: "b \<in> set (w_coords w')"
    obtain d' r' where dr': "closestOnWire st c maxDist w' = (d', r')"
      by (cases "closestOnWire st c maxDist w'")
    have "d \<le> d'" using min w' dr' by auto
    moreover have "d' \<le> getDistance c (st ! b)" using closestOnWire_cases [OF dr'] b by blast
    ultimately show "d \<le> getDistance c (st ! b)" by simp
  qed
  then have "d < maxDist" using assms by force
  with closestOnWire_cases [OF dr] obtain a where a: "a \<in> set (w_coords w)" "r = Some a"
    "d = getDistance c (st ! a)" by auto
  have "searchWires st wires (Some n) (Some c) maxDist = Inr (Some a)"
    using s e dr a by (simp add: searchWires_def)
  then show ?thesis using w a le by blast
qed

lemma snapPin_adopts_nearest:
  assumes "p_net p = Some n" and "w0 \<in> set (sc_wires sc)" and "w_net w0 = n"
    and "a0 \<in> set (w_coords w0)" and "getDistance (deref (sc_store sc) r) (sc_store sc ! a0) < maxDist"
  shows "\<exists>a. snapPin maxDist sc p (Some r) = Inr (sc, p\<lparr>p_coord := Some a\<rparr>) \<and>
             (\<exists>w \<in> set (sc_wires sc). w_net w = n \<and> a \<in> set (w_coords w)) \<and>
             (\<forall>w \<in> set (sc_wires sc). w_net w = n \<longrightarrow>
                (\<forall>b \<in> set (w_coords w). getDistance (deref (sc_store sc) r) (sc_store sc ! a)
                                            \<le> getDistance (deref (sc_store sc) r) (sc_store sc ! b)))"
proof -
  from searchWires_inside [OF assms(2-5)] obtain a where
    s: "searchWires (sc_store sc) (sc_wires sc) (Some n) (Some (deref (sc_store sc) r)) maxDist = Inr (Some a)"
    and m: "\<exists>w \<in> set (sc_wires sc). w_net w = n \<and> a \<in> set (w_coords w)"
    and l: "\<forall>w \<in> set (sc_wires sc). w_net w = n \<longrightarrow>
                (\<forall>b \<in> set (w_coords w). getDistance (deref (sc_store sc) r) (sc_store sc ! a)
                                            \<le> getDistance (deref (sc_store sc) r) (sc_store sc ! b))"
    by blast
  have "snapPin maxDist sc p (Some r) = Inr (sc, p\<lparr>p_coord := Some a\<rparr>)"
    using s assms(1) by (simp add: snapPin_def)
  then show ?thesis using m l by blast
qed

lemma snapPin_canonicalizes_outside:
  assumes "p_net p = Some n"
    and "\<forall>w \<in> set (sc_wires sc). w_net w = n \<longrightarrow>
           (\<forall>a \<in> set (w_coords w). maxDist < getDistance c (sc_store sc ! a))"
  shows "snapPin maxDist sc p (Some (Fresh c)) =
           (case canonicalize sc c of (sc', a) \<Rightarrow> Inr (sc', p\<lparr>p_coord := Some a\<rparr>))"
  using searchWires_outside [OF assms(2)] assms(1)
  by (simp add: snapPin_def deref_def canonicalize_def split: option.splits)

text \<open>
  C1.  At the distance 1 exactly, the search radius of \<open>Pin.findPosition\<close>, whether the
  vertex is adopted depends on the order of the wires.  The \<open>reduce\<close> over a wire accepts
  a vertex at the distance 1 (its test is \<open>prevVal.distance < distance\<close>), and a wire of
  the same net without vertex in range yields the start value \<open>{distance: 1, coord: null}\<close>,
  which the stable sort leaves in front when that wire comes first.  For the pin computed
  at (0, 0) and the vertex (1, 0): with the wire out of range first the vertex is not
  adopted (the pin gets the pooled coordinate (0, 0), cell 2); with the wires the other
  way round, or with the near wire alone, the pin adopts the vertex (cell 1).
\<close>

theorem snap_at_radius_depends_on_wire_order:
  "findPosition [ZERO_PIN] (Some (unitPlacement, 2))
     (boundaryState [\<lparr>w_net = 0, w_coords = [0]\<rparr>, \<lparr>w_net = 0, w_coords = [1]\<rparr>]) lonePin
   = Inr (boundaryState [\<lparr>w_net = 0, w_coords = [0]\<rparr>, \<lparr>w_net = 0, w_coords = [1]\<rparr>],
          lonePin\<lparr>p_coord := Some 2\<rparr>) \<and>
   findPosition [ZERO_PIN] (Some (unitPlacement, 2))
     (boundaryState [\<lparr>w_net = 0, w_coords = [1]\<rparr>, \<lparr>w_net = 0, w_coords = [0]\<rparr>]) lonePin
   = Inr (boundaryState [\<lparr>w_net = 0, w_coords = [1]\<rparr>, \<lparr>w_net = 0, w_coords = [0]\<rparr>],
          lonePin\<lparr>p_coord := Some 1\<rparr>) \<and>
   findPosition [ZERO_PIN] (Some (unitPlacement, 2))
     (boundaryState [\<lparr>w_net = 0, w_coords = [1]\<rparr>]) lonePin
   = Inr (boundaryState [\<lparr>w_net = 0, w_coords = [1]\<rparr>], lonePin\<lparr>p_coord := Some 1\<rparr>)"
  by (simp add: snap_defs geometry_defs boundaryState_def unitPlacement_def lonePin_def ZERO_PIN_def
      normalizeAngle_id Let_def)

subsection \<open>A live pin without anatomical pin\<close>

lemma parse_oneWire: "parseWires 2 emptySchematic oneWire = (wiredState, [])"
  by (simp add: parseWires_def parseWire_def parsePoint_def getNet_def emptySchematic_def
      oneWire_def wiredState_def canonicalize_def findCoord_def equals_def Let_def)

lemma parse_fourPins: "parsePins uuidExample wiredState fourPins = (fourPinsState, fourLivePins)"
  by (simp add: parsePin_def getNet_def fourPins_def wiredState_def fourPinsState_def
      fourLivePins_def Let_def eval_nat_numeral)

lemma find_fourPins: "findPositions exampleAnatomical None fourPinsState fourLivePins = Inl TypeError"
  by (simp add: snap_defs geometry_defs exampleAnatomical_def fourPinsState_def wiredState_def
      fourLivePins_def Let_def)

lemma mapper_fourPins:
  "mapperUseAsStencil BJT ''Q1'' fourLivePins (examplePlacement\<lparr>pl_scaling := 2\<rparr>) fourPinsState = Inl TypeError"
proof -
  have e: "examplePlacement\<lparr>pl_scaling := 2\<rparr> = examplePlacement" by (simp add: examplePlacement_def)
  have i: "internAnchor fourPinsState exampleTemplate = (fourPinsState, Some (Fresh \<lparr>cx = 2, cy = 3\<rparr>))"
    by (simp add: internAnchor_def exampleTemplate_def)
  show ?thesis unfolding e by (simp add: mapperUseAsStencil_def ex_anat ex_templ i find_fourPins)
qed

text \<open>
  The pins of a placed component.  For a path component: one pin for every stencil pin,
  the first live pin that matches it (by name when both have one, else by terminal
  number), with its coordinate set; a live pin that no stencil pin matches is not among
  them, and the resistor with a third pin is placed as without it.  For an oriented
  component the list is the same selection, made after every live pin has been positioned.
\<close>

lemma snapPin_pin:
  "snapPin maxDist sc p r = Inr (sc', p') \<Longrightarrow> \<exists>x. p' = p\<lparr>p_coord := x\<rparr>"
  by (auto simp: snapPin_def split: sum.splits option.splits if_splits cref.splits)

lemma findPositions_pins:
  "findPositions pins rel sc ps = Inr (sc', ps') \<Longrightarrow>
   list_all2 (\<lambda>p p'. \<exists>x. p' = p\<lparr>p_coord := x\<rparr>) ps ps'"
proof (induction ps arbitrary: sc ps')
  case Nil
  then show ?case by simp
next
  case (Cons p ps)
  from Cons.prems obtain sc1 p1 ps2 where
    a: "findPosition pins rel sc p = Inr (sc1, p1)" and b: "findPositions pins rel sc1 ps = Inr (sc', ps2)"
    and e: "ps' = p1 # ps2"
    by (auto split: sum.splits)
  have "\<exists>x. p1 = p\<lparr>p_coord := x\<rparr>" using a unfolding findPosition_def by (rule snapPin_pin)
  then show ?case using Cons.IH [OF b] by (simp add: e)
qed

lemma definedPins_Some: "definedPins xs = Some ys \<Longrightarrow> xs = map Some ys"
  by (induction xs arbitrary: ys rule: definedPins.induct) auto

lemma path_placement_pins:
  assumes "pathUseAsStencil this nm pins pl sc = Inr (sc', c)"
  shows "list_all2 (\<lambda>ablPin p'. \<exists>p x. find (pinMatches ablPin) pins = Some p \<and> p' = p\<lparr>p_coord := x\<rparr>)
           (ps_pins this) (pc_pins c)"
proof -
  obtain sc1 ic where k: "canonicalize sc (instanceCoordOf (normalizePlacement pl)) = (sc1, ic)"
    by (cases "canonicalize sc (instanceCoordOf (normalizePlacement pl))")
  from assms k obtain pins1 where
    d: "definedPins (reorder (ps_pins this) pins) = Some pins1"
    and f: "findPositions (ps_pins this) (Some (normalizePlacement pl, ic)) sc1 pins1 = Inr (sc', pc_pins c)"
    by (auto simp: pathUseAsStencil_def Let_def split: option.splits sum.splits)
  have r: "map (\<lambda>ablPin. find (pinMatches ablPin) pins) (ps_pins this) = map Some pins1"
    using definedPins_Some [OF d] by (simp add: reorder_def)
  then have "list_all2 (\<lambda>ablPin p. find (pinMatches ablPin) pins = Some p) (ps_pins this) pins1"
    by (simp add: list_all2_conv_all_nth list_eq_iff_nth_eq)
  moreover note findPositions_pins [OF f]
  ultimately show ?thesis
    by (auto simp: list_all2_conv_all_nth)
qed

lemma mapper_placement_pins:
  assumes "mapperUseAsStencil m nm pins pl sc = Inr (sc', t)"
  shows "\<exists>ablPins pins1. placeAnatomical m pl = Inr ablPins \<and>
           list_all2 (\<lambda>p p'. \<exists>x. p' = p\<lparr>p_coord := x\<rparr>) pins pins1 \<and>
           t_pins t = map (\<lambda>ablPin. find (pinMatches ablPin) pins1) ablPins"
proof -
  from assms obtain ablPins T sc1 r sc2 pins1 where
    pa: "placeAnatomical m pl = Inr ablPins"
    and f: "findPositions ablPins None sc1 pins = Inr (sc2, pins1)"
    and tp: "t_pins t = reorder ablPins pins1"
    by (auto simp: mapperUseAsStencil_def Let_def split: sum.splits prod.splits)
  show ?thesis using pa findPositions_pins [OF f] tp by (auto simp: reorder_def)
qed

lemma extra_pin_dropped_in_path_placement:
  "parse exampleCatalog uuidExample 2 oneWire
     [R1\<lparr>ix_pins := ix_pins R1 @ [\<lparr>ipx_instTermNumber = 3, ipx_pinName = ''P3'', ipx_netName = ''w''\<rparr>]\<rparr>]
   = Inr (resistorState, [])"
proof -
  have p: "parsePins uuidExample wiredState
             (ix_pins R1 @ [\<lparr>ipx_instTermNumber = 3, ipx_pinName = ''P3'', ipx_netName = ''w''\<rparr>]) =
     (wiredState, [\<lparr>p_coord = None, p_name = Some ''P1'', p_instTermNumber = 1, p_net = Some 0\<rparr>,
                   \<lparr>p_coord = None, p_name = Some ''P2'', p_instTermNumber = 2, p_net = Some 0\<rparr>,
                   \<lparr>p_coord = None, p_name = Some ''P3'', p_instTermNumber = 3, p_net = Some 0\<rparr>])"
    by (simp add: parsePin_def getNet_def R1_def wiredState_def Let_def)
  have u: "pathUseAsStencil
     \<lparr>ps_tikzComponentName = ''R'',
      ps_pins = [ZERO_PIN, \<lparr>s_coord = \<lparr>cx = 1, cy = 0\<rparr>, s_name = None, s_instTermNumber = 2\<rparr>]\<rparr>
     ''R1'' [\<lparr>p_coord = None, p_name = Some ''P1'', p_instTermNumber = 1, p_net = Some 0\<rparr>,
             \<lparr>p_coord = None, p_name = Some ''P2'', p_instTermNumber = 2, p_net = Some 0\<rparr>,
             \<lparr>p_coord = None, p_name = Some ''P3'', p_instTermNumber = 3, p_net = Some 0\<rparr>]
     (unitPlacement\<lparr>pl_scaling := 2\<rparr>) wiredState = Inr (wiredState, placedR1)"
    by (simp add: place_defs snap_defs geometry_defs unitPlacement_def ZERO_PIN_def wiredState_def
        placedR1_def normalizeAngle_id Let_def)
  show ?thesis
    by (simp add: parse_def parse_oneWire parseInstance_def lookupStencil_def exampleCatalog_def
        p instancePlacement_def)
      (simp add: R1_def u resistorState_def)
qed

text \<open>
  C4.  In the oriented placement \<open>findPosition\<close> runs on every live pin before the
  reorder.  A live pin whose terminal number no anatomical pin has is left without
  coordinate, and the search of the pool raises a TypeError as soon as the pool is not
  empty: the transistor instance with the pins C, B, E and a fourth pin S, after one wire,
  is not placed with the pin S dropped; the parse raises.
\<close>

theorem extra_pin_raises_in_oriented_placement:
  "parse exampleCatalog uuidExample 2 oneWire
     [\<lparr>ix_libraryName = ''lib'', ix_cellName = ''BJT_NPN'', ix_instanceName = ''Q1'',
       ix_placement = Some examplePlacement, ix_pins = fourPins\<rparr>] = Inl TypeError"
  by (simp add: parse_def parse_oneWire parseInstance_def lookupStencil_def exampleCatalog_def
      parse_fourPins mapper_fourPins instancePlacement_def)

subsection \<open>The store under placement\<close>

lemma storeExtends_iff: "storeExtends st st' \<longleftrightarrow> (\<exists>ext. st' = st @ ext)"
proof
  assume "storeExtends st st'"
  then have "st' = st @ drop (length st) st'"
    unfolding storeExtends_def by (metis append_take_drop_id)
  then show "\<exists>ext. st' = st @ ext" ..
next
  assume "\<exists>ext. st' = st @ ext"
  then show "storeExtends st st'" by (auto simp: storeExtends_def)
qed

lemma storeExtends_refl [simp]: "storeExtends st st"
  by (simp add: storeExtends_iff)

lemma storeExtends_trans: "storeExtends a b \<Longrightarrow> storeExtends b c \<Longrightarrow> storeExtends a c"
  by (auto simp: storeExtends_iff)

lemma storeExtends_append [simp]: "storeExtends st (st @ ext)"
  by (simp add: storeExtends_iff)

lemma storeExtends_nth: "storeExtends st st' \<Longrightarrow> a < length st \<Longrightarrow> st' ! a = st ! a"
  by (auto simp: storeExtends_iff nth_append)

lemma storeExtends_length: "storeExtends st st' \<Longrightarrow> length st \<le> length st'"
  by (auto simp: storeExtends_iff)

lemma canonicalize_extends:
  "canonicalize sc c = (sc', a) \<Longrightarrow> storeExtends (sc_store sc) (sc_store sc')"
  by (auto simp: canonicalize_def split: option.splits)

lemma snapPin_extends:
  "snapPin maxDist sc p r = Inr (sc', p') \<Longrightarrow> storeExtends (sc_store sc) (sc_store sc')"
  by (auto simp: snapPin_def split: sum.splits option.splits if_splits cref.splits)

lemma findPosition_extends:
  "findPosition pins rel sc p = Inr (sc', p') \<Longrightarrow> storeExtends (sc_store sc) (sc_store sc')"
  unfolding findPosition_def by (rule snapPin_extends)

lemma findPositions_extends:
  "findPositions pins rel sc ps = Inr (sc', ps') \<Longrightarrow> storeExtends (sc_store sc) (sc_store sc')"
proof (induction ps arbitrary: sc ps')
  case Nil
  then show ?case by simp
next
  case (Cons p ps)
  from Cons.prems obtain sc1 p1 ps2 where
    a: "findPosition pins rel sc p = Inr (sc1, p1)" and b: "findPositions pins rel sc1 ps = Inr (sc', ps2)"
    by (auto split: sum.splits)
  show ?case using findPosition_extends [OF a] Cons.IH [OF b] storeExtends_trans by blast
qed

lemma clonePins_extends:
  "clonePins pins rel sc ps = Inr (sc', ps') \<Longrightarrow> storeExtends (sc_store sc) (sc_store sc')"
proof (induction ps arbitrary: sc ps')
  case Nil
  then show ?case by simp
next
  case (Cons p ps)
  from Cons.prems obtain sc1 p1 ps2 where
    a: "snapPin MAX_VALUE sc p (pinHint pins (Some rel) (sc_store sc) p) = Inr (sc1, p1)"
    and b: "clonePins pins rel sc1 ps = Inr (sc', ps2)"
    by (auto split: sum.splits)
  show ?case using snapPin_extends [OF a] Cons.IH [OF b] storeExtends_trans by blast
qed

lemma pathUseAsStencil_extends:
  assumes "pathUseAsStencil this nm pins pl sc = Inr (sc', c)"
  shows "storeExtends (sc_store sc) (sc_store sc')"
proof -
  obtain sc1 ic where c: "canonicalize sc (instanceCoordOf (normalizePlacement pl)) = (sc1, ic)"
    by (cases "canonicalize sc (instanceCoordOf (normalizePlacement pl))")
  from assms c obtain pins1 pins2 where
    f: "findPositions (ps_pins this) (Some (normalizePlacement pl, ic)) sc1 pins1 = Inr (sc', pins2)"
    by (auto simp: pathUseAsStencil_def Let_def split: option.splits sum.splits)
  show ?thesis using canonicalize_extends [OF c] findPositions_extends [OF f] storeExtends_trans by blast
qed

lemma potentialUseAsStencil_extends:
  assumes "potentialUseAsStencil this pins pl sc = Inr (sc', c)"
  shows "storeExtends (sc_store sc) (sc_store sc')"
proof -
  let ?pl = "normalizePlacement (pl\<lparr>pl_angle := pl_angle pl + 90\<rparr>)"
  obtain sc1 ic where c: "canonicalize sc (instanceCoordOf ?pl) = (sc1, ic)"
    by (cases "canonicalize sc (instanceCoordOf ?pl)")
  from assms c obtain p p1 where
    f: "findPosition (case pos_pin this of None \<Rightarrow> [] | Some sp \<Rightarrow> [sp]) (Some (?pl, ic)) sc1 p = Inr (sc', p1)"
    by (auto simp: potentialUseAsStencil_def Let_def split: list.splits sum.splits)
  show ?thesis using canonicalize_extends [OF c] findPosition_extends [OF f] storeExtends_trans by blast
qed

lemma cloneToPosition_extends:
  assumes "cloneToPosition this nm pins pl sc = Inr (sc', c)"
  shows "storeExtends (sc_store sc) (sc_store sc')"
proof -
  obtain sc1 ic where c: "canonicalize sc (instanceCoordOf (normalizePlacement pl)) = (sc1, ic)"
    by (cases "canonicalize sc (instanceCoordOf (normalizePlacement pl))")
  from assms c obtain pins2 where
    f: "clonePins (cs_pins this) (normalizePlacement pl, ic) sc1 pins = Inr (sc', pins2)"
    by (auto simp: cloneToPosition_def Let_def split: sum.splits)
  show ?thesis using canonicalize_extends [OF c] clonePins_extends [OF f] storeExtends_trans by blast
qed

lemma internAnchor_extends:
  "internAnchor sc t = (sc', r) \<Longrightarrow> storeExtends (sc_store sc) (sc_store sc')"
  by (auto simp: internAnchor_def split: option.splits prod.splits dest!: canonicalize_extends)

lemma pinAddrs_take: "pinAddrs (take n ps) \<subseteq> pinAddrs ps"
proof (induction ps arbitrary: n)
  case Nil
  then show ?case by simp
next
  case (Cons p ps)
  show ?case
  proof (cases n)
    case 0
    then show ?thesis by simp
  next
    case (Suc k)
    then show ?thesis using Cons.IH [of k] by auto
  qed
qed

lemma overwriteCoords_frame:
  "overwriteCoords st ps tps = Inr st' \<Longrightarrow>
   length st' = length st \<and>
   (\<forall>a. a \<notin> pinAddrs (take (length tps) ps) \<longrightarrow> st' ! a = st ! a) \<and>
   (\<forall>a \<in> pinAddrs (take (length tps) ps). a < length st \<longrightarrow> st' ! a \<in> s_coord ` set tps)"
proof (induction st ps tps arbitrary: st' rule: overwriteCoords.induct)
  case (1 st p ps tp tps)
  from "1.prems" obtain q a where p: "p = Some q" and qa: "p_coord q = Some a"
    and r: "overwriteCoords (st[a := s_coord tp]) ps tps = Inr st'"
    by (auto split: option.splits)
  note ih = "1.IH" [OF p qa r]
  have pa: "pinAddrs (take (length (tp # tps)) (p # ps)) = {a} \<union> pinAddrs (take (length tps) ps)"
    by (simp add: p qa)
  show ?case
  proof (intro conjI allI ballI impI)
    show "length st' = length st" using ih by simp
  next
    fix b assume "b \<notin> pinAddrs (take (length (tp # tps)) (p # ps))"
    then have "b \<noteq> a" "b \<notin> pinAddrs (take (length tps) ps)" unfolding pa by auto
    then show "st' ! b = st ! b" using ih by simp
  next
    fix b assume b: "b \<in> pinAddrs (take (length (tp # tps)) (p # ps))" and l: "b < length st"
    show "st' ! b \<in> s_coord ` set (tp # tps)"
    proof (cases "b \<in> pinAddrs (take (length tps) ps)")
      case True
      then show ?thesis using ih l by auto
    next
      case False
      then have "b = a" using b unfolding pa by auto
      moreover have "st' ! b = (st[a := s_coord tp]) ! b" using ih False by simp
      ultimately show ?thesis using l by simp
    qed
  qed
qed simp_all

lemma mapperUseAsStencil_frame:
  assumes "mapperUseAsStencil m nm pins pl sc = Inr (sc', t)"
  shows "length (sc_store sc) \<le> length (sc_store sc') \<and>
         (\<exists>ablPins T. placeAnatomical m pl = Inr ablPins \<and> placeTemplate m pl ablPins = Inr T \<and>
            (\<forall>a < length (sc_store sc). a \<notin> pinAddrs (take (length (t_pins T)) (t_pins t)) \<longrightarrow>
                sc_store sc' ! a = sc_store sc ! a) \<and>
            (\<forall>a \<in> pinAddrs (take (length (t_pins T)) (t_pins t)).
                a < length (sc_store sc') \<longrightarrow> sc_store sc' ! a \<in> s_coord ` set (t_pins T)))"
proof -
  from assms obtain ablPins T sc1 r sc2 pins1 st3 where
    pa: "placeAnatomical m pl = Inr ablPins" and pt: "placeTemplate m pl ablPins = Inr T"
    and i: "internAnchor sc T = (sc1, r)"
    and f: "findPositions ablPins None sc1 pins = Inr (sc2, pins1)"
    and o: "overwriteCoords (sc_store sc2) (reorder ablPins pins1) (t_pins T) = Inr st3"
    and s: "sc' = sc2\<lparr>sc_store := st3\<rparr>" and tp: "t_pins t = reorder ablPins pins1"
    by (auto simp: mapperUseAsStencil_def Let_def split: sum.splits prod.splits)
  have e: "storeExtends (sc_store sc) (sc_store sc2)"
    using internAnchor_extends [OF i] findPositions_extends [OF f] storeExtends_trans by blast
  note fr = overwriteCoords_frame [OF o]
  have l: "length (sc_store sc) \<le> length (sc_store sc')"
    using storeExtends_length [OF e] fr by (simp add: s)
  have u: "\<forall>a < length (sc_store sc). a \<notin> pinAddrs (take (length (t_pins T)) (t_pins t)) \<longrightarrow>
             sc_store sc' ! a = sc_store sc ! a"
  proof (intro allI impI)
    fix a assume a: "a < length (sc_store sc)"
      and n: "a \<notin> pinAddrs (take (length (t_pins T)) (t_pins t))"
    have "st3 ! a = sc_store sc2 ! a" using fr n by (simp add: tp)
    then show "sc_store sc' ! a = sc_store sc ! a" using storeExtends_nth [OF e a] by (simp add: s)
  qed
  have w: "\<forall>a \<in> pinAddrs (take (length (t_pins T)) (t_pins t)).
             a < length (sc_store sc') \<longrightarrow> sc_store sc' ! a \<in> s_coord ` set (t_pins T)"
    using fr by (simp add: s tp)
  show ?thesis using l u pa pt w by blast
qed

lemma getNet_store: "getNet sc nm = (sc', n) \<Longrightarrow>
  sc_store sc' = sc_store sc \<and> sc_coords sc' = sc_coords sc \<and> sc_components sc' = sc_components sc \<and>
  sc_wires sc' = sc_wires sc"
  by (auto simp: getNet_def split: option.splits)

lemma parsePin_store: "parsePin uuid sc px = (sc', p) \<Longrightarrow>
  sc_store sc' = sc_store sc \<and> sc_coords sc' = sc_coords sc \<and> sc_components sc' = sc_components sc \<and>
  sc_wires sc' = sc_wires sc"
  by (auto simp: parsePin_def Let_def split: prod.splits if_splits dest!: getNet_store)

lemma parsePins_store: "parsePins uuid sc pxs = (sc', ps) \<Longrightarrow>
  sc_store sc' = sc_store sc \<and> sc_coords sc' = sc_coords sc \<and> sc_components sc' = sc_components sc \<and>
  sc_wires sc' = sc_wires sc"
proof (induction pxs arbitrary: sc sc' ps)
  case Nil
  then show ?case by simp
next
  case (Cons px pxs)
  obtain sc1 p where a: "parsePin uuid sc px = (sc1, p)" by (cases "parsePin uuid sc px")
  obtain sc2 qs where b: "parsePins uuid sc1 pxs = (sc2, qs)" by (cases "parsePins uuid sc1 pxs")
  have "sc' = sc2" using Cons.prems a b by simp
  then show ?case using parsePin_store [OF a] Cons.IH [OF b] by simp
qed

lemma parse_snapWire: "parseWires 2 emptySchematic snapWire = (snapState, [])"
  by (simp add: parseWires_def parseWire_def parsePoint_def getNet_def emptySchematic_def
      snapWire_def snapState_def canonicalize_def findCoord_def equals_def Let_def)

lemma parse_threePins: "parsePins uuidExample snapState threePins = (threePinsState, threeLivePins)"
  by (simp add: parsePin_def getNet_def threePins_def snapState_def threePinsState_def
      threeLivePins_def Let_def eval_nat_numeral)

lemma find_threePins:
  "findPositions exampleAnatomical None threePinsState threeLivePins = Inr (foundState, foundPins)"
  by (simp add: snap_defs geometry_defs exampleAnatomical_def threePinsState_def snapState_def
      threeLivePins_def foundState_def foundPins_def Let_def)

lemma mapper_threePins:
  "mapperUseAsStencil BJT ''Q1'' threeLivePins (examplePlacement\<lparr>pl_scaling := 2\<rparr>) threePinsState
     = Inr (foundState\<lparr>sc_store := sc_store movedState\<rparr>, placedQ1)"
proof -
  have e: "examplePlacement\<lparr>pl_scaling := 2\<rparr> = examplePlacement" by (simp add: examplePlacement_def)
  have i: "internAnchor threePinsState exampleTemplate = (threePinsState, Some (Fresh \<lparr>cx = 2, cy = 3\<rparr>))"
    by (simp add: internAnchor_def exampleTemplate_def)
  have r: "reorder exampleAnatomical foundPins = t_pins placedQ1"
    by (simp add: reorder_def pinMatches_def truthy_def exampleAnatomical_def foundPins_def placedQ1_def)
  have o: "overwriteCoords (sc_store foundState) (t_pins placedQ1) (t_pins exampleTemplate)
             = Inr (sc_store movedState)"
    by (simp add: foundState_def placedQ1_def foundPins_def exampleTemplate_def movedState_def)
  show ?thesis unfolding e
    by (simp add: mapperUseAsStencil_def ex_anat ex_templ i find_threePins r o)
      (simp add: exampleTemplate_def placedQ1_def)
qed

lemma parseInstance_Q1: "parseInstance exampleCatalog uuidExample 2 snapState Q1 = Inr (movedState, [])"
  by (simp add: parseInstance_def lookupStencil_def exampleCatalog_def Q1_def
      parse_threePins mapper_threePins instancePlacement_def)
    (simp add: movedState_def foundState_def threePinsState_def snapState_def)

lemma find_Some_member: "find P xs = Some x \<Longrightarrow> x \<in> set xs \<and> P x"
  by (induction xs) (auto split: if_splits)

lemma findCoord_Some:
  "findCoord st coords c = Some a \<Longrightarrow> Some a \<in> set coords \<and> st ! a = c"
proof -
  assume f: "findCoord st coords c = Some a"
  then have "find (\<lambda>e. equals c (map_option (\<lambda>a. st ! a) e)) coords = Some (Some a)"
    by (simp add: findCoord_def split: option.splits)
  then have "Some a \<in> set coords \<and> equals c (map_option (\<lambda>a. st ! a) (Some a))"
    using find_Some_member by fast
  then show ?thesis by (auto simp: equals_def)
qed

lemma pinAddrs_iff: "a \<in> pinAddrs ps \<longleftrightarrow> (\<exists>j < length ps. pinAddr (ps ! j) = Some a)"
proof (induction ps)
  case Nil
  then show ?case by simp
next
  case (Cons p ps)
  have "(\<exists>j < length (p # ps). pinAddr ((p # ps) ! j) = Some a)
        \<longleftrightarrow> pinAddr p = Some a \<or> (\<exists>j < length ps. pinAddr (ps ! j) = Some a)"
    by (auto simp: less_Suc_eq_0_disj)
  then show ?case using Cons.IH by (auto simp: pinAddr_def split: option.splits)
qed

lemma overwriteCoords_writes:
  "overwriteCoords st ps tps = Inr st' \<Longrightarrow> i < min (length ps) (length tps) \<Longrightarrow>
   \<exists>a. pinAddr (ps ! i) = Some a \<and>
       (a < length st \<and> (\<forall>j. i < j \<and> j < min (length ps) (length tps) \<longrightarrow> pinAddr (ps ! j) \<noteq> Some a)
        \<longrightarrow> st' ! a = s_coord (tps ! i))"
proof (induction st ps tps arbitrary: st' i rule: overwriteCoords.induct)
  case (1 st p ps tp tps)
  from "1.prems"(1) obtain q a0 where p: "p = Some q" and qa: "p_coord q = Some a0"
    and r: "overwriteCoords (st[a0 := s_coord tp]) ps tps = Inr st'"
    by (auto split: option.splits)
  show ?case
  proof (cases i)
    case 0
    have "st' ! a0 = s_coord tp"
      if l: "a0 < length st"
        and n: "\<forall>j. 0 < j \<and> j < min (length (p # ps)) (length (tp # tps)) \<longrightarrow> pinAddr ((p # ps) ! j) \<noteq> Some a0"
    proof -
      have "a0 \<notin> pinAddrs (take (length tps) ps)"
      proof
        assume "a0 \<in> pinAddrs (take (length tps) ps)"
        then obtain j where j: "j < length (take (length tps) ps)"
          and e: "pinAddr (take (length tps) ps ! j) = Some a0"
          unfolding pinAddrs_iff by blast
        have "pinAddr ((p # ps) ! Suc j) = Some a0" using j e by simp
        moreover have "Suc j < min (length (p # ps)) (length (tp # tps))" using j by simp
        ultimately show False using n by blast
      qed
      then have "st' ! a0 = (st[a0 := s_coord tp]) ! a0" using overwriteCoords_frame [OF r] by blast
      then show ?thesis using l by simp
    qed
    then show ?thesis using 0 by (auto simp: pinAddr_def p qa)
  next
    case (Suc k)
    then have k: "k < min (length ps) (length tps)" using "1.prems"(2) by simp
    from "1.IH" [OF p qa r k] obtain a where a: "pinAddr (ps ! k) = Some a"
      and w: "a < length (st[a0 := s_coord tp]) \<and>
              (\<forall>j. k < j \<and> j < min (length ps) (length tps) \<longrightarrow> pinAddr (ps ! j) \<noteq> Some a)
              \<longrightarrow> st' ! a = s_coord (tps ! k)" by blast
    have "st' ! a = s_coord ((tp # tps) ! i)"
      if l: "a < length st"
        and n: "\<forall>j. i < j \<and> j < min (length (p # ps)) (length (tp # tps)) \<longrightarrow> pinAddr ((p # ps) ! j) \<noteq> Some a"
    proof -
      have "\<forall>j. k < j \<and> j < min (length ps) (length tps) \<longrightarrow> pinAddr (ps ! j) \<noteq> Some a"
      proof (intro allI impI)
        fix j assume j: "k < j \<and> j < min (length ps) (length tps)"
        then have "i < Suc j \<and> Suc j < min (length (p # ps)) (length (tp # tps))" using Suc by simp
        then have "pinAddr ((p # ps) ! Suc j) \<noteq> Some a" using n by blast
        then show "pinAddr (ps ! j) \<noteq> Some a" by simp
      qed
      then show ?thesis using w l Suc by simp
    qed
    then show ?thesis using a Suc by auto
  qed
qed simp_all

lemma wellAddressed_iff:
  "wellAddressed sc \<longleftrightarrow>
     (\<forall>w \<in> set (sc_wires sc). \<forall>a \<in> set (w_coords w). a < length (sc_store sc)) \<and>
     (\<forall>a. Some a \<in> set (sc_coords sc) \<longrightarrow> a < length (sc_store sc))"
  by (auto simp: wellAddressed_def list_all_iff split: option.splits)

lemma searchWires_Some:
  assumes "searchWires st wires n c maxDist = Inr (Some a)"
  shows "\<exists>w \<in> set wires. a \<in> set (w_coords w)"
proof -
  from assms obtain k c0 cand rest where n: "n = Some k" and c: "c = Some c0"
    and s: "sort_key fst (map (closestOnWire st c0 maxDist) (filter (\<lambda>w. w_net w = k) wires)) = cand # rest"
    and r: "snd cand = Some a"
    by (auto simp: searchWires_def Let_def split: option.splits if_splits list.splits)
  from sort_key_head [OF s] obtain w where w: "w \<in> set wires"
    and e: "cand = closestOnWire st c0 maxDist w" by auto
  obtain d r' where dr: "closestOnWire st c0 maxDist w = (d, r')" by (cases "closestOnWire st c0 maxDist w")
  from closestOnWire_cases [OF dr] r e dr have "a \<in> set (w_coords w)" by auto
  then show ?thesis using w by blast
qed

lemma snapPin_addr:
  assumes ok: "wellAddressed sc" and s: "snapPin maxDist sc p r = Inr (sc', p')"
    and rin: "\<forall>a. r = Some (Ref a) \<longrightarrow> a < length (sc_store sc)"
  shows "wellAddressed sc' \<and> (\<forall>a. p_coord p' = Some a \<longrightarrow> a < length (sc_store sc'))"
proof (cases "searchWires (sc_store sc) (sc_wires sc) (p_net p) (map_option (deref (sc_store sc)) r) maxDist")
  case (Inl e)
  then show ?thesis using s by (simp add: snapPin_def)
next
  case (Inr found)
  show ?thesis
  proof (cases found)
    case (Some a)
    then have e: "sc' = sc" "p' = p\<lparr>p_coord := Some a\<rparr>" using s Inr by (auto simp: snapPin_def)
    from searchWires_Some [OF Inr [unfolded Some]] ok have "a < length (sc_store sc)"
      by (auto simp: wellAddressed_iff)
    then show ?thesis using ok e by simp
  next
    case None
    show ?thesis
    proof (cases r)
      case rn: None
      then show ?thesis using s Inr None ok
        by (auto simp: snapPin_def wellAddressed_iff split: if_splits)
    next
      case (Some cr)
      show ?thesis
      proof (cases "findCoord (sc_store sc) (sc_coords sc) (deref (sc_store sc) cr)")
        case fs: (Some a)
        then have e: "sc' = sc" "p' = p\<lparr>p_coord := Some a\<rparr>"
          using s Inr None Some by (auto simp: snapPin_def)
        have "Some a \<in> set (sc_coords sc)" using findCoord_Some [OF fs] by simp
        then show ?thesis using ok e by (auto simp: wellAddressed_iff)
      next
        case nf: None
        show ?thesis
        proof (cases cr)
          case (Fresh c)
          then have e: "sc' = sc\<lparr>sc_store := sc_store sc @ [c],
                                 sc_coords := sc_coords sc @ [Some (length (sc_store sc))]\<rparr>"
            "p' = p\<lparr>p_coord := Some (length (sc_store sc))\<rparr>"
            using s Inr None Some nf by (auto simp: snapPin_def)
          show ?thesis using ok unfolding e by (auto simp: wellAddressed_iff less_Suc_eq)
        next
          case (Ref a)
          then have e: "sc' = sc\<lparr>sc_coords := sc_coords sc @ [Some a]\<rparr>" "p' = p\<lparr>p_coord := Some a\<rparr>"
            using s Inr None Some nf by (auto simp: snapPin_def)
          have "a < length (sc_store sc)" using rin Some Ref by simp
          then show ?thesis using ok unfolding e by (auto simp: wellAddressed_iff)
        qed
      qed
    qed
  qed
qed

lemma findPositions_addr:
  "wellAddressed sc \<Longrightarrow> findPositions pins None sc ps = Inr (sc', ps') \<Longrightarrow>
   wellAddressed sc' \<and> (\<forall>p \<in> set ps'. \<forall>a. p_coord p = Some a \<longrightarrow> a < length (sc_store sc'))"
proof (induction ps arbitrary: sc ps')
  case Nil
  then show ?case by simp
next
  case (Cons p ps)
  from Cons.prems(2) obtain sc1 p1 ps2 where
    a: "findPosition pins None sc p = Inr (sc1, p1)"
    and b: "findPositions pins None sc1 ps = Inr (sc', ps2)" and e: "ps' = p1 # ps2"
    by (auto split: sum.splits)
  have s: "snapPin 1 sc p (pinHint pins None (sc_store sc) p) = Inr (sc1, p1)"
    using a by (simp add: findPosition_def)
  have "\<forall>a. pinHint pins None (sc_store sc) p = Some (Ref a) \<longrightarrow> a < length (sc_store sc)"
    by (auto simp: pinHint_def Let_def)
  note k = snapPin_addr [OF Cons.prems(1) s this]
  note ih = Cons.IH [OF k [THEN conjunct1] b]
  have "length (sc_store sc1) \<le> length (sc_store sc')"
    using storeExtends_length [OF findPositions_extends [OF b]] .
  then have "\<forall>a. p_coord p1 = Some a \<longrightarrow> a < length (sc_store sc')" using k by fastforce
  then show ?case using ih by (simp add: e)
qed

lemma canonicalize_addr:
  "wellAddressed sc \<Longrightarrow> canonicalize sc c = (sc', a) \<Longrightarrow> wellAddressed sc'"
  by (auto simp: canonicalize_def wellAddressed_iff less_Suc_eq split: option.splits)

lemma internAnchor_addr: "wellAddressed sc \<Longrightarrow> internAnchor sc t = (sc', r) \<Longrightarrow> wellAddressed sc'"
  by (auto simp: internAnchor_def split: option.splits prod.splits dest: canonicalize_addr)

lemma reorder_member: "Some q \<in> set (reorder ablPins pins) \<Longrightarrow> q \<in> set pins"
proof -
  assume "Some q \<in> set (reorder ablPins pins)"
  then obtain ablPin where "find (pinMatches ablPin) pins = Some q"
    by (auto simp: reorder_def)
  then show ?thesis using find_Some_member by fast
qed

lemma mapperUseAsStencil_writes:
  assumes "mapperUseAsStencil m nm pins pl sc = Inr (sc', t)"
  shows "\<exists>ablPins T. placeAnatomical m pl = Inr ablPins \<and> placeTemplate m pl ablPins = Inr T \<and>
           length (t_pins t) = length ablPins \<and>
           (\<forall>i < min (length (t_pins t)) (length (t_pins T)).
              \<exists>a. pinAddr (t_pins t ! i) = Some a \<and> (wellAddressed sc \<longrightarrow> a < length (sc_store sc')) \<and>
                  (a < length (sc_store sc') \<and>
                   (\<forall>j. i < j \<and> j < min (length (t_pins t)) (length (t_pins T))
                        \<longrightarrow> pinAddr (t_pins t ! j) \<noteq> Some a)
                   \<longrightarrow> sc_store sc' ! a = s_coord (t_pins T ! i)))"
proof -
  from assms obtain ablPins T sc1 r sc2 pins1 st3 where
    pa: "placeAnatomical m pl = Inr ablPins" and pt: "placeTemplate m pl ablPins = Inr T"
    and i: "internAnchor sc T = (sc1, r)"
    and f: "findPositions ablPins None sc1 pins = Inr (sc2, pins1)"
    and o: "overwriteCoords (sc_store sc2) (reorder ablPins pins1) (t_pins T) = Inr st3"
    and s: "sc' = sc2\<lparr>sc_store := st3\<rparr>" and tp: "t_pins t = reorder ablPins pins1"
    by (auto simp: mapperUseAsStencil_def Let_def split: sum.splits prod.splits)
  have len: "length st3 = length (sc_store sc2)" using overwriteCoords_frame [OF o] by simp
  have "\<exists>a. pinAddr (t_pins t ! i) = Some a \<and> (wellAddressed sc \<longrightarrow> a < length (sc_store sc')) \<and>
            (a < length (sc_store sc') \<and>
             (\<forall>j. i < j \<and> j < min (length (t_pins t)) (length (t_pins T))
                  \<longrightarrow> pinAddr (t_pins t ! j) \<noteq> Some a)
             \<longrightarrow> sc_store sc' ! a = s_coord (t_pins T ! i))"
    if ii: "i < min (length (t_pins t)) (length (t_pins T))" for i
  proof -
    from overwriteCoords_writes [OF o ii [unfolded tp]] obtain a where
      a: "pinAddr (reorder ablPins pins1 ! i) = Some a"
      and w: "a < length (sc_store sc2) \<and>
              (\<forall>j. i < j \<and> j < min (length (reorder ablPins pins1)) (length (t_pins T))
                   \<longrightarrow> pinAddr (reorder ablPins pins1 ! j) \<noteq> Some a)
              \<longrightarrow> st3 ! a = s_coord (t_pins T ! i)" by blast
    have v: "a < length (sc_store sc')" if wa: "wellAddressed sc"
    proof -
      note k = findPositions_addr [OF internAnchor_addr [OF wa i] f]
      from a obtain q where q: "reorder ablPins pins1 ! i = Some q" and qa: "p_coord q = Some a"
        by (auto simp: pinAddr_def split: option.splits)
      have "Some q \<in> set (reorder ablPins pins1)" using q ii tp by (metis min_less_iff_conj nth_mem)
      then have "q \<in> set pins1" by (rule reorder_member)
      then have "a < length (sc_store sc2)" using k qa by blast
      then show ?thesis by (simp add: s len)
    qed
    show ?thesis using a w v by (auto simp: s tp len)
  qed
  moreover have "length (t_pins t) = length ablPins" by (simp add: tp reorder_def)
  ultimately show ?thesis using pa pt by blast
qed

lemma wellAddressed_cong:
  "sc_store sc' = sc_store sc \<Longrightarrow> sc_coords sc' = sc_coords sc \<Longrightarrow> sc_wires sc' = sc_wires sc \<Longrightarrow>
   wellAddressed sc' = wellAddressed sc"
  by (simp add: wellAddressed_iff)

lemma wellAddressed_snapState: "wellAddressed snapState"
  by (simp add: wellAddressed_def snapState_def)

text \<open>
  Every state of a parse is a state whose wires and pool refer to cells of the store only:
  the empty schematic is one, and reading a wire and the round of an instance keep the
  property.
\<close>

lemma canonicalize_addr_lt:
  "wellAddressed sc \<Longrightarrow> canonicalize sc c = (sc', a) \<Longrightarrow> a < length (sc_store sc')"
  by (auto simp: canonicalize_def wellAddressed_iff split: option.splits dest: findCoord_Some)

lemma findPosition_rel_addr:
  assumes "wellAddressed sc" and "findPosition pins (Some (pl, ic)) sc p = Inr (sc', p')"
    and "ic < length (sc_store sc)"
  shows "wellAddressed sc'"
proof -
  have s: "snapPin 1 sc p (pinHint pins (Some (pl, ic)) (sc_store sc) p) = Inr (sc', p')"
    using assms(2) by (simp add: findPosition_def)
  have "\<forall>a. pinHint pins (Some (pl, ic)) (sc_store sc) p = Some (Ref a) \<longrightarrow> a < length (sc_store sc)"
    using assms(3) by (auto simp: pinHint_def Let_def split: option.splits)
  from snapPin_addr [OF assms(1) s this] show ?thesis by simp
qed

lemma findPositions_rel_addr:
  "wellAddressed sc \<Longrightarrow> findPositions pins (Some (pl, ic)) sc ps = Inr (sc', ps') \<Longrightarrow>
   ic < length (sc_store sc) \<Longrightarrow> wellAddressed sc'"
proof (induction ps arbitrary: sc ps')
  case Nil
  then show ?case by simp
next
  case (Cons p ps)
  from Cons.prems(2) obtain sc1 p1 ps2 where
    a: "findPosition pins (Some (pl, ic)) sc p = Inr (sc1, p1)"
    and b: "findPositions pins (Some (pl, ic)) sc1 ps = Inr (sc', ps2)"
    by (auto split: sum.splits)
  have k: "wellAddressed sc1" using findPosition_rel_addr [OF Cons.prems(1) a Cons.prems(3)] .
  have "length (sc_store sc) \<le> length (sc_store sc1)"
    using storeExtends_length [OF findPosition_extends [OF a]] .
  then have "ic < length (sc_store sc1)" using Cons.prems(3) by simp
  then show ?case using Cons.IH [OF k b] by simp
qed

lemma pathUseAsStencil_addr:
  assumes "wellAddressed sc" and "pathUseAsStencil this nm pins pl sc = Inr (sc', c)"
  shows "wellAddressed sc'"
proof -
  obtain sc1 ic where c: "canonicalize sc (instanceCoordOf (normalizePlacement pl)) = (sc1, ic)"
    by (cases "canonicalize sc (instanceCoordOf (normalizePlacement pl))")
  from assms(2) c obtain pins1 pins2 where
    f: "findPositions (ps_pins this) (Some (normalizePlacement pl, ic)) sc1 pins1 = Inr (sc', pins2)"
    by (auto simp: pathUseAsStencil_def Let_def split: option.splits sum.splits)
  show ?thesis
    using findPositions_rel_addr [OF canonicalize_addr [OF assms(1) c] f canonicalize_addr_lt [OF assms(1) c]] .
qed

lemma potentialUseAsStencil_addr:
  assumes "wellAddressed sc" and "potentialUseAsStencil this pins pl sc = Inr (sc', c)"
  shows "wellAddressed sc'"
proof -
  let ?pl = "normalizePlacement (pl\<lparr>pl_angle := pl_angle pl + 90\<rparr>)"
  obtain sc1 ic where c: "canonicalize sc (instanceCoordOf ?pl) = (sc1, ic)"
    by (cases "canonicalize sc (instanceCoordOf ?pl)")
  from assms(2) c obtain p p1 where
    f: "findPosition (case pos_pin this of None \<Rightarrow> [] | Some sp \<Rightarrow> [sp]) (Some (?pl, ic)) sc1 p = Inr (sc', p1)"
    by (auto simp: potentialUseAsStencil_def Let_def split: list.splits sum.splits)
  show ?thesis
    using findPosition_rel_addr [OF canonicalize_addr [OF assms(1) c] f canonicalize_addr_lt [OF assms(1) c]] .
qed

lemma mapperUseAsStencil_addr:
  assumes "wellAddressed sc" and "mapperUseAsStencil m nm pins pl sc = Inr (sc', t)"
  shows "wellAddressed sc'"
proof -
  from assms(2) obtain ablPins T where pa: "placeAnatomical m pl = Inr ablPins"
    and pt: "placeTemplate m pl ablPins = Inr T"
    by (auto simp: mapperUseAsStencil_def split: sum.splits)
  obtain sc1 r where ia: "internAnchor sc T = (sc1, r)" by (cases "internAnchor sc T")
  from assms(2) pa pt ia obtain sc2 pins1 st3 where
    f: "findPositions ablPins None sc1 pins = Inr (sc2, pins1)"
    and o: "overwriteCoords (sc_store sc2) (reorder ablPins pins1) (t_pins T) = Inr st3"
    and e: "sc' = sc2\<lparr>sc_store := st3\<rparr>"
    by (auto simp: mapperUseAsStencil_def Let_def split: sum.splits)
  have k: "wellAddressed sc2"
    using findPositions_addr [OF internAnchor_addr [OF assms(1) ia] f] by simp
  have "length st3 = length (sc_store sc2)" using overwriteCoords_frame [OF o] by simp
  then show ?thesis using k by (simp add: e wellAddressed_iff)
qed

lemma parseInstance_addr:
  assumes ok: "wellAddressed sc" and p: "parseInstance catalog uuid scale0 sc instX = Inr (sc', lg)"
  shows "wellAddressed sc'"
proof (cases "lookupStencil catalog (ix_libraryName instX) (ix_cellName instX)")
  case None
  then show ?thesis using ok p by (simp add: parseInstance_def)
next
  case (Some stn)
  obtain sc1 pins where pp: "parsePins uuid sc (ix_pins instX) = (sc1, pins)"
    by (cases "parsePins uuid sc (ix_pins instX)")
  have "wellAddressed sc1 = wellAddressed sc"
    by (rule wellAddressed_cong) (simp_all add: parsePins_store [OF pp])
  then have ok1: "wellAddressed sc1" using ok by simp
  show ?thesis
  proof (cases stn)
    case (PathStencil pst)
    with p Some pp obtain sc2 c where
      u: "pathUseAsStencil pst (ix_instanceName instX) pins (instancePlacement scale0 instX) sc1 = Inr (sc2, c)"
      and e: "sc' = sc2\<lparr>sc_components := sc_components sc2 @ [PathC c]\<rparr>"
      by (auto simp: parseInstance_def Let_def split: sum.splits)
    show ?thesis using pathUseAsStencil_addr [OF ok1 u] by (simp add: e wellAddressed_iff)
  next
    case (PotentialStencil pos)
    with p Some pp obtain sc2 c where
      u: "potentialUseAsStencil pos pins (instancePlacement scale0 instX) sc1 = Inr (sc2, c)"
      and e: "sc' = sc2\<lparr>sc_components := sc_components sc2 @ [PotentialC c]\<rparr>"
      by (auto simp: parseInstance_def Let_def split: sum.splits)
    show ?thesis using potentialUseAsStencil_addr [OF ok1 u] by (simp add: e wellAddressed_iff)
  next
    case (MapperStencil m)
    with p Some pp obtain sc2 c where
      u: "mapperUseAsStencil m (ix_instanceName instX) pins (instancePlacement scale0 instX) sc1 = Inr (sc2, c)"
      and e: "sc' = sc2\<lparr>sc_components := sc_components sc2 @ [TransistorC c]\<rparr>"
      by (auto simp: parseInstance_def Let_def split: sum.splits)
    show ?thesis using mapperUseAsStencil_addr [OF ok1 u] by (simp add: e wellAddressed_iff)
  qed
qed

lemma parseInstances_addr:
  "wellAddressed sc \<Longrightarrow> parseInstances catalog uuid scale0 sc is = Inr (sc', lg) \<Longrightarrow> wellAddressed sc'"
proof (induction "is" arbitrary: sc sc' lg)
  case Nil
  then show ?case by simp
next
  case (Cons i "is")
  from Cons.prems(2) obtain sc1 lg1 lg2 where
    a: "parseInstance catalog uuid scale0 sc i = Inr (sc1, lg1)"
    and b: "parseInstances catalog uuid scale0 sc1 is = Inr (sc', lg2)"
    by (auto split: sum.splits)
  show ?case using Cons.IH [OF parseInstance_addr [OF Cons.prems(1) a] b] .
qed

lemma parsePoint_addr:
  assumes "wellAddressed sc" and "\<forall>a \<in> set wc. a < length (sc_store sc)"
    and "parsePoint scale0 (sc, wc, lg) tok = (sc', wc', lg')"
  shows "wellAddressed sc' \<and> (\<forall>a \<in> set wc'. a < length (sc_store sc'))"
proof (cases tok)
  case (Point x y)
  obtain sc1 a where c: "canonicalize sc \<lparr>cx = scale0 * x, cy = scale0 * y\<rparr> = (sc1, a)"
    by (cases "canonicalize sc \<lparr>cx = scale0 * x, cy = scale0 * y\<rparr>")
  then have e: "sc' = sc1" "wc' = wc @ [a]" using assms(3) Point by (simp_all add: parsePoint_def)
  have "length (sc_store sc) \<le> length (sc_store sc1)"
    using storeExtends_length [OF canonicalize_extends [OF c]] .
  then have "\<forall>b \<in> set wc. b < length (sc_store sc1)" using assms(2) by fastforce
  then show ?thesis
    using canonicalize_addr [OF assms(1) c] canonicalize_addr_lt [OF assms(1) c] by (simp add: e)
next
  case (Unparsable str)
  then show ?thesis using assms by (simp add: parsePoint_def)
qed

lemma foldl_parsePoint_addr:
  "wellAddressed sc \<Longrightarrow> \<forall>a \<in> set wc. a < length (sc_store sc) \<Longrightarrow>
   foldl (parsePoint scale0) (sc, wc, lg) toks = (sc', wc', lg') \<Longrightarrow>
   wellAddressed sc' \<and> (\<forall>a \<in> set wc'. a < length (sc_store sc'))"
proof (induction toks arbitrary: sc wc lg)
  case Nil
  then show ?case by simp
next
  case (Cons t ts)
  obtain sc1 wc1 lg1 where s: "parsePoint scale0 (sc, wc, lg) t = (sc1, wc1, lg1)"
    by (cases "parsePoint scale0 (sc, wc, lg) t") auto
  note k = parsePoint_addr [OF Cons.prems(1) Cons.prems(2) s]
  show ?case using Cons.IH [OF k [THEN conjunct1] k [THEN conjunct2]] Cons.prems(3) s by simp
qed

lemma parseWire_addr:
  assumes "wellAddressed sc" and "parseWire scale0 sc wx = (sc', lg)"
  shows "wellAddressed sc'"
proof -
  obtain sc1 n where g: "getNet sc (wx_netName wx) = (sc1, n)" by (cases "getNet sc (wx_netName wx)")
  obtain sc2 wc lg2 where f: "foldl (parsePoint scale0) (sc1, [], []) (wx_points wx) = (sc2, wc, lg2)"
    by (cases "foldl (parsePoint scale0) (sc1, [], []) (wx_points wx)") auto
  have "wellAddressed sc1 = wellAddressed sc"
    by (rule wellAddressed_cong) (simp_all add: getNet_store [OF g])
  then have "wellAddressed sc1" using assms(1) by simp
  from foldl_parsePoint_addr [OF this _ f]
  have k: "wellAddressed sc2" and w: "\<forall>a \<in> set wc. a < length (sc_store sc2)" by simp_all
  have "sc_store sc' = sc_store sc2 \<and> sc_coords sc' = sc_coords sc2 \<and>
        sc_wires sc' = sc_wires sc2 @ [\<lparr>w_net = n, w_coords = wc\<rparr>]"
    using assms(2) g f by (auto simp: parseWire_def Let_def)
  then show ?thesis using k w by (auto simp: wellAddressed_iff)
qed

lemma parseWires_addr:
  "wellAddressed sc \<Longrightarrow> parseWires scale0 sc ws = (sc', lg) \<Longrightarrow> wellAddressed sc'"
proof -
  have "\<And>sc lg0 sc' lg. wellAddressed sc \<Longrightarrow>
      foldl (\<lambda>(sc1, lg) wireX. let (sc2, lg2) = parseWire scale0 sc1 wireX in (sc2, lg @ lg2)) (sc, lg0) ws = (sc', lg)
      \<Longrightarrow> wellAddressed sc'"
  proof (induction ws)
    case Nil
    then show ?case by simp
  next
    case (Cons w ws)
    obtain sc2 lg2 where p: "parseWire scale0 sc w = (sc2, lg2)" by (cases "parseWire scale0 sc w")
    have "wellAddressed sc2" using parseWire_addr [OF Cons.prems(1) p] by simp
    then show ?case using Cons.IH [of sc2 "lg0 @ lg2" sc' lg] Cons.prems(2) p by simp
  qed
  then show "wellAddressed sc \<Longrightarrow> parseWires scale0 sc ws = (sc', lg) \<Longrightarrow> wellAddressed sc'"
    unfolding parseWires_def by blast
qed

lemma wellAddressed_empty: "wellAddressed emptySchematic"
  by (simp add: wellAddressed_def emptySchematic_def)

lemma parse_addr:
  assumes "parse catalog uuid scale0 ws is = Inr (sc', lg)"
  shows "wellAddressed sc'"
proof -
  obtain sc1 lg1 where w: "parseWires scale0 emptySchematic ws = (sc1, lg1)"
    by (cases "parseWires scale0 emptySchematic ws")
  have ok1: "wellAddressed sc1" using parseWires_addr [OF wellAddressed_empty w] .
  from assms w obtain lg2 where "parseInstances catalog uuid scale0 sc1 is = Inr (sc', lg2)"
    by (auto simp: parse_def split: sum.splits)
  then show ?thesis using parseInstances_addr [OF ok1] by blast
qed

lemma parseInstance_store:
  assumes "parseInstance catalog uuid scale0 sc instX = Inr (sc', lg)"
  shows "length (sc_store sc) \<le> length (sc_store sc') \<and>
         (\<forall>a < length (sc_store sc). sc_store sc' ! a \<noteq> sc_store sc ! a \<longrightarrow>
            (\<exists>m t ablPins T.
               lookupStencil catalog (ix_libraryName instX) (ix_cellName instX) = Some (MapperStencil m) \<and>
               sc_components sc' = sc_components sc @ [TransistorC t] \<and> a \<in> pinAddrs (t_pins t) \<and>
               placeAnatomical m (instancePlacement scale0 instX) = Inr ablPins \<and>
               placeTemplate m (instancePlacement scale0 instX) ablPins = Inr T \<and>
               sc_store sc' ! a \<in> s_coord ` set (t_pins T))) \<and>
         (\<forall>m. lookupStencil catalog (ix_libraryName instX) (ix_cellName instX) = Some (MapperStencil m) \<longrightarrow>
            (\<exists>t ablPins T.
               sc_components sc' = sc_components sc @ [TransistorC t] \<and>
               placeAnatomical m (instancePlacement scale0 instX) = Inr ablPins \<and>
               placeTemplate m (instancePlacement scale0 instX) ablPins = Inr T \<and>
               length (t_pins t) = length ablPins \<and>
               (\<forall>i < min (length (t_pins t)) (length (t_pins T)).
                  \<exists>a. pinAddr (t_pins t ! i) = Some a \<and>
                      (wellAddressed sc \<longrightarrow> a < length (sc_store sc')) \<and>
                      (a < length (sc_store sc') \<and>
                       (\<forall>j. i < j \<and> j < min (length (t_pins t)) (length (t_pins T))
                            \<longrightarrow> pinAddr (t_pins t ! j) \<noteq> Some a)
                       \<longrightarrow> sc_store sc' ! a = s_coord (t_pins T ! i)))))"
proof (cases "lookupStencil catalog (ix_libraryName instX) (ix_cellName instX)")
  case None
  then show ?thesis using assms by (simp add: parseInstance_def)
next
  case (Some stn)
  obtain sc1 pins where pp: "parsePins uuid sc (ix_pins instX) = (sc1, pins)"
    by (cases "parsePins uuid sc (ix_pins instX)")
  note ps = parsePins_store [OF pp]
  show ?thesis
  proof (cases stn)
    case (PathStencil pst)
    with assms Some pp obtain sc2 c where
      u: "pathUseAsStencil pst (ix_instanceName instX) pins (instancePlacement scale0 instX) sc1 = Inr (sc2, c)"
      and e: "sc' = sc2\<lparr>sc_components := sc_components sc2 @ [PathC c]\<rparr>"
      by (auto simp: parseInstance_def Let_def split: sum.splits)
    have "storeExtends (sc_store sc) (sc_store sc')"
      using pathUseAsStencil_extends [OF u] ps by (simp add: e)
    then have l: "length (sc_store sc) \<le> length (sc_store sc')"
      and same: "\<forall>a < length (sc_store sc). sc_store sc' ! a = sc_store sc ! a"
      by (simp_all add: storeExtends_nth storeExtends_length)
    have nm: "\<forall>m. lookupStencil catalog (ix_libraryName instX) (ix_cellName instX) \<noteq> Some (MapperStencil m)"
      using Some PathStencil by simp
    show ?thesis
      apply (intro conjI)
        apply (rule l)
       apply (simp add: same)
      apply (simp add: nm)
      done
  next
    case (PotentialStencil pos)
    with assms Some pp obtain sc2 c where
      u: "potentialUseAsStencil pos pins (instancePlacement scale0 instX) sc1 = Inr (sc2, c)"
      and e: "sc' = sc2\<lparr>sc_components := sc_components sc2 @ [PotentialC c]\<rparr>"
      by (auto simp: parseInstance_def Let_def split: sum.splits)
    have "storeExtends (sc_store sc) (sc_store sc')"
      using potentialUseAsStencil_extends [OF u] ps by (simp add: e)
    then have l: "length (sc_store sc) \<le> length (sc_store sc')"
      and same: "\<forall>a < length (sc_store sc). sc_store sc' ! a = sc_store sc ! a"
      by (simp_all add: storeExtends_nth storeExtends_length)
    have nm: "\<forall>m. lookupStencil catalog (ix_libraryName instX) (ix_cellName instX) \<noteq> Some (MapperStencil m)"
      using Some PotentialStencil by simp
    show ?thesis
      apply (intro conjI)
        apply (rule l)
       apply (simp add: same)
      apply (simp add: nm)
      done
  next
    case (MapperStencil m)
    with assms Some pp obtain sc2 t where
      u: "mapperUseAsStencil m (ix_instanceName instX) pins (instancePlacement scale0 instX) sc1 = Inr (sc2, t)"
      and e: "sc' = sc2\<lparr>sc_components := sc_components sc2 @ [TransistorC t]\<rparr>"
      by (auto simp: parseInstance_def Let_def split: sum.splits)
    note fr = mapperUseAsStencil_frame [OF u]
    from fr obtain ablPins T where
      pa: "placeAnatomical m (instancePlacement scale0 instX) = Inr ablPins"
      and pt: "placeTemplate m (instancePlacement scale0 instX) ablPins = Inr T"
      and un: "\<forall>a < length (sc_store sc1). a \<notin> pinAddrs (take (length (t_pins T)) (t_pins t)) \<longrightarrow>
                sc_store sc2 ! a = sc_store sc1 ! a"
      and w: "\<forall>a \<in> pinAddrs (take (length (t_pins T)) (t_pins t)).
                a < length (sc_store sc2) \<longrightarrow> sc_store sc2 ! a \<in> s_coord ` set (t_pins T)"
      by blast
    have cm: "sc_components sc' = sc_components sc @ [TransistorC t]"
      using mapperUseAsStencil_sameNets [OF u] ps by (simp add: e sameNets_def)
    have l: "length (sc_store sc) \<le> length (sc_store sc')" using fr ps by (simp add: e)
    have ch: "\<forall>a < length (sc_store sc). sc_store sc' ! a \<noteq> sc_store sc ! a \<longrightarrow>
            a \<in> pinAddrs (t_pins t) \<and> sc_store sc' ! a \<in> s_coord ` set (t_pins T)"
    proof (intro allI impI)
      fix a assume a: "a < length (sc_store sc)" and d: "sc_store sc' ! a \<noteq> sc_store sc ! a"
      have in1: "a \<in> pinAddrs (take (length (t_pins T)) (t_pins t))"
        using un a d ps by (auto simp: e)
      then have "a \<in> pinAddrs (t_pins t)" using pinAddrs_take by blast
      moreover have "sc_store sc' ! a \<in> s_coord ` set (t_pins T)"
        using w in1 a l by (simp add: e)
      ultimately show "a \<in> pinAddrs (t_pins t) \<and> sc_store sc' ! a \<in> s_coord ` set (t_pins T)" ..
    qed
    have wa: "wellAddressed sc1 = wellAddressed sc" by (rule wellAddressed_cong) (simp_all add: ps)
    from mapperUseAsStencil_writes [OF u] obtain ablPins' T' where
      pa': "placeAnatomical m (instancePlacement scale0 instX) = Inr ablPins'"
      and pt': "placeTemplate m (instancePlacement scale0 instX) ablPins' = Inr T'"
      and ln': "length (t_pins t) = length ablPins'"
      and wr': "\<forall>i < min (length (t_pins t)) (length (t_pins T')).
                  \<exists>a. pinAddr (t_pins t ! i) = Some a \<and>
                      (wellAddressed sc1 \<longrightarrow> a < length (sc_store sc2)) \<and>
                      (a < length (sc_store sc2) \<and>
                       (\<forall>j. i < j \<and> j < min (length (t_pins t)) (length (t_pins T'))
                            \<longrightarrow> pinAddr (t_pins t ! j) \<noteq> Some a)
                       \<longrightarrow> sc_store sc2 ! a = s_coord (t_pins T' ! i))"
      by (elim exE conjE) (rule that)
    have ea: "ablPins' = ablPins" using pa pa' by simp
    have eT: "T' = T" using pt pt' unfolding ea by simp
    have st: "sc_store sc' = sc_store sc2" by (simp add: e)
    have wr: "length (t_pins t) = length ablPins \<and>
              (\<forall>i < min (length (t_pins t)) (length (t_pins T)).
                  \<exists>a. pinAddr (t_pins t ! i) = Some a \<and>
                      (wellAddressed sc \<longrightarrow> a < length (sc_store sc')) \<and>
                      (a < length (sc_store sc') \<and>
                       (\<forall>j. i < j \<and> j < min (length (t_pins t)) (length (t_pins T))
                            \<longrightarrow> pinAddr (t_pins t ! j) \<noteq> Some a)
                       \<longrightarrow> sc_store sc' ! a = s_coord (t_pins T ! i)))"
      using ln' wr' unfolding ea eT st wa by (rule conjI)
    have c2: "\<forall>a < length (sc_store sc). sc_store sc' ! a \<noteq> sc_store sc ! a \<longrightarrow>
            (\<exists>m t ablPins T.
               lookupStencil catalog (ix_libraryName instX) (ix_cellName instX) = Some (MapperStencil m) \<and>
               sc_components sc' = sc_components sc @ [TransistorC t] \<and> a \<in> pinAddrs (t_pins t) \<and>
               placeAnatomical m (instancePlacement scale0 instX) = Inr ablPins \<and>
               placeTemplate m (instancePlacement scale0 instX) ablPins = Inr T \<and>
               sc_store sc' ! a \<in> s_coord ` set (t_pins T))"
      using ch MapperStencil Some cm pa pt by blast
    have c3: "\<forall>m'. lookupStencil catalog (ix_libraryName instX) (ix_cellName instX) = Some (MapperStencil m') \<longrightarrow>
            (\<exists>t ablPins T.
               sc_components sc' = sc_components sc @ [TransistorC t] \<and>
               placeAnatomical m' (instancePlacement scale0 instX) = Inr ablPins \<and>
               placeTemplate m' (instancePlacement scale0 instX) ablPins = Inr T \<and>
               length (t_pins t) = length ablPins \<and>
               (\<forall>i < min (length (t_pins t)) (length (t_pins T)).
                  \<exists>a. pinAddr (t_pins t ! i) = Some a \<and>
                      (wellAddressed sc \<longrightarrow> a < length (sc_store sc')) \<and>
                      (a < length (sc_store sc') \<and>
                       (\<forall>j. i < j \<and> j < min (length (t_pins t)) (length (t_pins T))
                            \<longrightarrow> pinAddr (t_pins t ! j) \<noteq> Some a)
                       \<longrightarrow> sc_store sc' ! a = s_coord (t_pins T ! i))))"
    proof (intro allI impI)
      fix m' assume "lookupStencil catalog (ix_libraryName instX) (ix_cellName instX) = Some (MapperStencil m')"
      then have "m' = m" using Some MapperStencil by simp
      then show "\<exists>t ablPins T.
               sc_components sc' = sc_components sc @ [TransistorC t] \<and>
               placeAnatomical m' (instancePlacement scale0 instX) = Inr ablPins \<and>
               placeTemplate m' (instancePlacement scale0 instX) ablPins = Inr T \<and>
               length (t_pins t) = length ablPins \<and>
               (\<forall>i < min (length (t_pins t)) (length (t_pins T)).
                  \<exists>a. pinAddr (t_pins t ! i) = Some a \<and>
                      (wellAddressed sc \<longrightarrow> a < length (sc_store sc')) \<and>
                      (a < length (sc_store sc') \<and>
                       (\<forall>j. i < j \<and> j < min (length (t_pins t)) (length (t_pins T))
                            \<longrightarrow> pinAddr (t_pins t ! j) \<noteq> Some a)
                       \<longrightarrow> sc_store sc' ! a = s_coord (t_pins T ! i)))"
        apply (simp only:)
        apply (rule exI [of _ t], rule exI [of _ ablPins], rule exI [of _ T])
        apply (intro conjI)
            apply (rule cm)
           apply (rule pa)
          apply (rule pt)
         apply (rule wr [THEN conjunct1])
        apply (rule wr [THEN conjunct2])
        done
    qed
    show ?thesis
      apply (intro conjI)
        apply (rule l)
       apply (rule c2)
      apply (rule c3)
      done
  qed
qed

text \<open>
  C2, as amended.  The round of one instance never shortens the store.  A cell that was
  there before holds a different value afterwards only if the instance is an oriented
  three-terminal component and one of the pins of the placed component refers to that
  cell; path and potential components leave every cell as it was.  An oriented component
  does overwrite: each pin of the placed component that has a pin of the aligned render
  template at its position in the list refers to a cell, and that cell holds afterwards
  the position of that template pin, unless a later pin of the component refers to the
  same cell (whose template position it then holds).  In a state whose wires and pool
  refer to cells of the store only, the cell of such a pin is a cell of the store, and the
  state after the round is such a state again; by \<open>parse_addr\<close> every state of a parse
  is one.
\<close>

theorem oriented_placement_overwrites_its_pins:
  assumes "parseInstance catalog uuid scale0 sc instX = Inr (sc', lg)"
  shows "length (sc_store sc) \<le> length (sc_store sc') \<and>
         (\<forall>a < length (sc_store sc). sc_store sc' ! a \<noteq> sc_store sc ! a \<longrightarrow>
            (\<exists>m t ablPins T.
               lookupStencil catalog (ix_libraryName instX) (ix_cellName instX) = Some (MapperStencil m) \<and>
               sc_components sc' = sc_components sc @ [TransistorC t] \<and> a \<in> pinAddrs (t_pins t) \<and>
               placeAnatomical m (instancePlacement scale0 instX) = Inr ablPins \<and>
               placeTemplate m (instancePlacement scale0 instX) ablPins = Inr T \<and>
               sc_store sc' ! a \<in> s_coord ` set (t_pins T))) \<and>
         (\<forall>m. lookupStencil catalog (ix_libraryName instX) (ix_cellName instX) = Some (MapperStencil m) \<longrightarrow>
            (\<exists>t ablPins T.
               sc_components sc' = sc_components sc @ [TransistorC t] \<and>
               placeAnatomical m (instancePlacement scale0 instX) = Inr ablPins \<and>
               placeTemplate m (instancePlacement scale0 instX) ablPins = Inr T \<and>
               length (t_pins t) = length ablPins \<and>
               (\<forall>i < min (length (t_pins t)) (length (t_pins T)).
                  \<exists>a. pinAddr (t_pins t ! i) = Some a \<and>
                      (wellAddressed sc \<longrightarrow> a < length (sc_store sc')) \<and>
                      (a < length (sc_store sc') \<and>
                       (\<forall>j. i < j \<and> j < min (length (t_pins t)) (length (t_pins T))
                            \<longrightarrow> pinAddr (t_pins t ! j) \<noteq> Some a)
                       \<longrightarrow> sc_store sc' ! a = s_coord (t_pins T ! i))))) \<and>
         (wellAddressed sc \<longrightarrow> wellAddressed sc')"
proof -
  note s = parseInstance_store [OF assms]
  have w: "wellAddressed sc \<longrightarrow> wellAddressed sc'" using parseInstance_addr [OF _ assms] by blast
  show ?thesis
    apply (intro conjI)
       apply (rule s [THEN conjunct1])
      apply (rule s [THEN conjunct2, THEN conjunct1])
     apply (rule s [THEN conjunct2, THEN conjunct2])
    apply (rule w)
    done
qed

theorem oriented_placement_overwrites_its_pins_witness:
  "parseInstance exampleCatalog uuidExample 2 snapState Q1 = Inr (movedState, []) \<and>
   wellAddressed snapState \<and> wellAddressed movedState \<and>
   length (sc_store snapState) \<le> length (sc_store movedState) \<and>
   sc_store movedState ! 0 \<noteq> sc_store snapState ! 0 \<and>
   (\<exists>m t ablPins T.
      lookupStencil exampleCatalog (ix_libraryName Q1) (ix_cellName Q1) = Some (MapperStencil m) \<and>
      sc_components movedState = sc_components snapState @ [TransistorC t] \<and>
      0 \<in> pinAddrs (t_pins t) \<and>
      placeAnatomical m (instancePlacement 2 Q1) = Inr ablPins \<and>
      placeTemplate m (instancePlacement 2 Q1) ablPins = Inr T \<and>
      sc_store movedState ! 0 \<in> s_coord ` set (t_pins T)) \<and>
   (\<exists>t ablPins T.
      sc_components movedState = sc_components snapState @ [TransistorC t] \<and>
      placeAnatomical BJT (instancePlacement 2 Q1) = Inr ablPins \<and>
      placeTemplate BJT (instancePlacement 2 Q1) ablPins = Inr T \<and>
      pinAddr (t_pins t ! 2) = Some 0 \<and>
      sc_store movedState ! 0 = s_coord (t_pins T ! 2) \<and>
      s_coord (t_pins T ! 2) = \<lparr>cx = 2, cy = 3.84\<rparr>)"
proof -
  have l: "0 < length (sc_store snapState)" by (simp add: snapState_def)
  have d: "sc_store movedState ! 0 \<noteq> sc_store snapState ! 0"
    by (simp add: movedState_def snapState_def)
  have k: "lookupStencil exampleCatalog (ix_libraryName Q1) (ix_cellName Q1) = Some (MapperStencil BJT)"
    by (simp add: lookupStencil_def exampleCatalog_def Q1_def)
  have pl: "instancePlacement 2 Q1 = examplePlacement"
    by (simp add: instancePlacement_def Q1_def examplePlacement_def)
  note t = oriented_placement_overwrites_its_pins [OF parseInstance_Q1]
  from t [THEN conjunct2, THEN conjunct2, THEN conjunct1, rule_format, OF k] obtain t' ablPins T where
    c: "sc_components movedState = sc_components snapState @ [TransistorC t']"
    and pa: "placeAnatomical BJT (instancePlacement 2 Q1) = Inr ablPins"
    and pt: "placeTemplate BJT (instancePlacement 2 Q1) ablPins = Inr T"
    and w: "\<forall>i < min (length (t_pins t')) (length (t_pins T)).
              \<exists>a. pinAddr (t_pins t' ! i) = Some a \<and>
                  (wellAddressed snapState \<longrightarrow> a < length (sc_store movedState)) \<and>
                  (a < length (sc_store movedState) \<and>
                   (\<forall>j. i < j \<and> j < min (length (t_pins t')) (length (t_pins T))
                        \<longrightarrow> pinAddr (t_pins t' ! j) \<noteq> Some a)
                   \<longrightarrow> sc_store movedState ! a = s_coord (t_pins T ! i))"
    by (elim exE conjE) (rule that)
  have te: "t' = placedQ1" using c by (simp add: movedState_def foundState_def threePinsState_def snapState_def)
  have ae: "ablPins = exampleAnatomical" using pa unfolding pl ex_anat by simp
  have Te: "T = exampleTemplate" using pt unfolding pl ae ex_templ by simp
  have i2: "2 < min (length (t_pins t')) (length (t_pins T))"
    by (simp add: te Te placedQ1_def exampleTemplate_def)
  from w [rule_format, OF i2] obtain a where
    a: "pinAddr (t_pins t' ! 2) = Some a"
    and v: "wellAddressed snapState \<longrightarrow> a < length (sc_store movedState)"
    and x: "a < length (sc_store movedState) \<and>
            (\<forall>j. 2 < j \<and> j < min (length (t_pins t')) (length (t_pins T))
                 \<longrightarrow> pinAddr (t_pins t' ! j) \<noteq> Some a)
            \<longrightarrow> sc_store movedState ! a = s_coord (t_pins T ! 2)" by blast
  have a0: "a = 0" using a by (simp add: te placedQ1_def foundPins_def pinAddr_def)
  have nl: "\<forall>j. 2 < j \<and> j < min (length (t_pins t')) (length (t_pins T))
                 \<longrightarrow> pinAddr (t_pins t' ! j) \<noteq> Some a"
    by (auto simp: te Te placedQ1_def exampleTemplate_def)
  have val: "sc_store movedState ! 0 = s_coord (t_pins T ! 2)"
    using x v nl wellAddressed_snapState a0 by blast
  have tv: "s_coord (t_pins T ! 2) = \<lparr>cx = 2, cy = 3.84\<rparr>" by (simp add: Te exampleTemplate_def)
  have third: "\<exists>t ablPins T.
      sc_components movedState = sc_components snapState @ [TransistorC t] \<and>
      placeAnatomical BJT (instancePlacement 2 Q1) = Inr ablPins \<and>
      placeTemplate BJT (instancePlacement 2 Q1) ablPins = Inr T \<and>
      pinAddr (t_pins t ! 2) = Some 0 \<and>
      sc_store movedState ! 0 = s_coord (t_pins T ! 2) \<and>
      s_coord (t_pins T ! 2) = \<lparr>cx = 2, cy = 3.84\<rparr>"
    apply (rule exI [of _ t'], rule exI [of _ ablPins], rule exI [of _ T])
    apply (intro conjI)
         apply (rule c)
        apply (rule pa)
       apply (rule pt)
      apply (rule a [unfolded a0])
     apply (rule val)
    apply (rule tv)
    done
  have wm: "wellAddressed movedState"
    using t [THEN conjunct2, THEN conjunct2, THEN conjunct2] wellAddressed_snapState by blast
  from t [THEN conjunct2, THEN conjunct1, rule_format, OF l d] t [THEN conjunct1] parseInstance_Q1 d
    wellAddressed_snapState wm third
  show ?thesis by (intro conjI)
qed

text \<open>
  The claim as stated fails in the oriented placement: the base of \<open>Q1\<close> is snapped onto
  the wire vertex (2, 4), cell 0 of the pool, and the loop over the pins then writes the
  position (2, 3.84) of the template pin into that cell.  The pool and the wire still
  refer to the cell.
\<close>

theorem snapped_wire_vertex_is_moved:
  "parseWires 2 emptySchematic snapWire = (snapState, []) \<and>
   parse exampleCatalog uuidExample 2 snapWire [Q1] = Inr (movedState, []) \<and>
   sc_coords snapState ! 0 = Some 0 \<and> sc_coords movedState ! 0 = Some 0 \<and>
   w_coords (sc_wires movedState ! 0) = [0, 1] \<and>
   sc_store snapState ! 0 = \<lparr>cx = 2, cy = 4\<rparr> \<and>
   sc_store movedState ! 0 = \<lparr>cx = 2, cy = 3.84\<rparr>"
  by (simp add: parse_def parse_snapWire parseInstance_Q1)
    (simp add: movedState_def foundState_def threePinsState_def snapState_def)

subsection \<open>The coordinate pool\<close>

lemma coordinate_eq: "(c :: coordinate) = d \<longleftrightarrow> cx c = cx d \<and> cy c = cy d"
  by auto

lemma findCoord_None:
  "findCoord st coords c = None \<Longrightarrow> Some c \<notin> cellOf st ` set coords"
proof -
  assume f: "findCoord st coords c = None"
  have "find (\<lambda>e. equals c (map_option (\<lambda>a. st ! a) e)) coords = None"
  proof (cases "find (\<lambda>e. equals c (map_option (\<lambda>a. st ! a) e)) coords")
    case None
    then show ?thesis .
  next
    case (Some e)
    then have "e = None" using f by (simp add: findCoord_def)
    moreover have "equals c (map_option (\<lambda>a. st ! a) e)" using Some find_Some_member by fast
    ultimately show ?thesis by (simp add: equals_def)
  qed
  then have n: "\<forall>e \<in> set coords. \<not> equals c (map_option (\<lambda>a. st ! a) e)"
    by (simp add: find_None_iff)
  show ?thesis
  proof
    assume "Some c \<in> cellOf st ` set coords"
    then obtain e where e: "e \<in> set coords" and v: "cellOf st e = Some c" by force
    then have "equals c (map_option (\<lambda>a. st ! a) e)" by (auto simp: cellOf_def equals_def)
    then show False using n e by simp
  qed
qed

lemma cellOf_append:
  "list_all (\<lambda>e. case e of None \<Rightarrow> False | Some a \<Rightarrow> a < length st) coords \<Longrightarrow>
   map (cellOf (st @ ext)) coords = map (cellOf st) coords"
  by (induction coords) (auto simp: cellOf_def nth_append split: option.splits)

lemma poolOK_push:
  assumes "poolOK sc" and "Some c \<notin> cellOf (sc_store sc) ` set (sc_coords sc)"
  shows "poolOK (sc\<lparr>sc_store := sc_store sc @ [c],
                     sc_coords := sc_coords sc @ [Some (length (sc_store sc))]\<rparr>)"
proof -
  have a: "list_all (\<lambda>e. case e of None \<Rightarrow> False | Some a \<Rightarrow> a < length (sc_store sc)) (sc_coords sc)"
    and d: "distinct (map (cellOf (sc_store sc)) (sc_coords sc))"
    using assms(1) by (simp_all add: poolOK_def)
  have a': "list_all (\<lambda>e. case e of None \<Rightarrow> False | Some a \<Rightarrow> a < Suc (length (sc_store sc))) (sc_coords sc)"
    using a by (auto simp: list_all_iff split: option.splits)
  show ?thesis
    using a' d assms(2) by (simp add: poolOK_def cellOf_append [OF a]) (simp add: cellOf_def)
qed

lemma canonicalize_poolOK:
  assumes "poolOK sc" and "canonicalize sc c = (sc', a)"
  shows "poolOK sc' \<and> Some a \<in> set (sc_coords sc') \<and> sc_store sc' ! a = c \<and>
         set (sc_coords sc) \<subseteq> set (sc_coords sc')"
proof (cases "findCoord (sc_store sc) (sc_coords sc) c")
  case None
  then have e: "sc' = sc\<lparr>sc_store := sc_store sc @ [c],
                         sc_coords := sc_coords sc @ [Some (length (sc_store sc))]\<rparr>"
    and a: "a = length (sc_store sc)"
    using assms(2) by (auto simp: canonicalize_def)
  show ?thesis using poolOK_push [OF assms(1) findCoord_None [OF None]] by (auto simp: e a)
next
  case (Some b)
  then have "sc' = sc" "a = b" using assms(2) by (auto simp: canonicalize_def)
  then show ?thesis using assms(1) findCoord_Some [OF Some] by simp
qed

lemma poolOK_member:
  "poolOK sc \<Longrightarrow> Some a \<in> set (sc_coords sc) \<Longrightarrow>
   findCoord (sc_store sc) (sc_coords sc) (sc_store sc ! a) = Some a"
proof -
  assume ok: "poolOK sc" and m: "Some a \<in> set (sc_coords sc)"
  show ?thesis
  proof (cases "findCoord (sc_store sc) (sc_coords sc) (sc_store sc ! a)")
    case None
    from findCoord_None [OF None] m show ?thesis by (force simp: cellOf_def)
  next
    case (Some b)
    from findCoord_Some [OF Some] have b: "Some b \<in> set (sc_coords sc)"
      and v: "sc_store sc ! b = sc_store sc ! a" by simp_all
    have i: "inj_on (cellOf (sc_store sc)) (set (sc_coords sc))"
      using ok by (simp add: poolOK_def distinct_map)
    have "cellOf (sc_store sc) (Some b) = cellOf (sc_store sc) (Some a)"
      using v by (simp add: cellOf_def)
    then have "Some b = Some a" using inj_onD [OF i _ b m] by blast
    then show ?thesis using Some by simp
  qed
qed

lemma poolOK_cong:
  "sc_store sc' = sc_store sc \<Longrightarrow> sc_coords sc' = sc_coords sc \<Longrightarrow> poolOK sc' = poolOK sc"
  by (simp add: poolOK_def cong: option.case_cong)

lemma pinHint_rel:
  "\<exists>r. pinHint pins (Some (pl, ic)) st p = Some r \<and> (\<forall>a. r = Ref a \<longrightarrow> a = ic)"
  by (simp add: pinHint_def Let_def split: option.splits)

lemma snapPin_poolOK:
  assumes ok: "poolOK sc" and s: "snapPin maxDist sc p (Some r) = Inr (sc', p')"
    and rin: "\<forall>a. r = Ref a \<longrightarrow> Some a \<in> set (sc_coords sc)"
  shows "poolOK sc' \<and> set (sc_coords sc) \<subseteq> set (sc_coords sc')"
proof (cases "searchWires (sc_store sc) (sc_wires sc) (p_net p) (Some (deref (sc_store sc) r)) maxDist")
  case (Inl e)
  then show ?thesis using s by (simp add: snapPin_def)
next
  case (Inr found)
  show ?thesis
  proof (cases found)
    case (Some a)
    then have "sc' = sc" using s Inr by (auto simp: snapPin_def)
    then show ?thesis using ok by simp
  next
    case None
    show ?thesis
    proof (cases "findCoord (sc_store sc) (sc_coords sc) (deref (sc_store sc) r)")
      case (Some a)
      then have "sc' = sc" using s Inr None by (auto simp: snapPin_def)
      then show ?thesis using ok by simp
    next
      case nf: None
      show ?thesis
      proof (cases r)
        case (Fresh c)
        then have e: "sc' = sc\<lparr>sc_store := sc_store sc @ [c],
                               sc_coords := sc_coords sc @ [Some (length (sc_store sc))]\<rparr>"
          using s Inr None nf by (auto simp: snapPin_def)
        have "Some c \<notin> cellOf (sc_store sc) ` set (sc_coords sc)"
          using findCoord_None [OF nf] Fresh by (simp add: deref_def)
        from poolOK_push [OF ok this] show ?thesis by (auto simp: e)
      next
        case (Ref a)
        then have "Some a \<in> set (sc_coords sc)" using rin by simp
        from poolOK_member [OF ok this] nf Ref show ?thesis by (simp add: deref_def)
      qed
    qed
  qed
qed

lemma findPosition_poolOK:
  assumes "poolOK sc" and "findPosition pins (Some (pl, ic)) sc p = Inr (sc', p')"
    and "Some ic \<in> set (sc_coords sc)"
  shows "poolOK sc' \<and> set (sc_coords sc) \<subseteq> set (sc_coords sc')"
proof -
  obtain r where h: "pinHint pins (Some (pl, ic)) (sc_store sc) p = Some r"
    and r: "\<forall>a. r = Ref a \<longrightarrow> a = ic"
    using pinHint_rel by blast
  have s: "snapPin 1 sc p (Some r) = Inr (sc', p')" using assms(2) by (simp add: findPosition_def h)
  show ?thesis using snapPin_poolOK [OF assms(1) s] r assms(3) by blast
qed

lemma findPositions_poolOK:
  "poolOK sc \<Longrightarrow> findPositions pins (Some (pl, ic)) sc ps = Inr (sc', ps') \<Longrightarrow>
   Some ic \<in> set (sc_coords sc) \<Longrightarrow> poolOK sc' \<and> set (sc_coords sc) \<subseteq> set (sc_coords sc')"
proof (induction ps arbitrary: sc ps')
  case Nil
  then show ?case by simp
next
  case (Cons p ps)
  from Cons.prems(2) obtain sc1 p1 ps2 where
    a: "findPosition pins (Some (pl, ic)) sc p = Inr (sc1, p1)"
    and b: "findPositions pins (Some (pl, ic)) sc1 ps = Inr (sc', ps2)"
    by (auto split: sum.splits)
  note f = findPosition_poolOK [OF Cons.prems(1) a Cons.prems(3)]
  have m: "Some ic \<in> set (sc_coords sc1)" using f Cons.prems(3) by blast
  show ?case using f Cons.IH [OF f [THEN conjunct1] b m] by blast
qed

lemma clonePins_poolOK:
  "poolOK sc \<Longrightarrow> clonePins pins (pl, ic) sc ps = Inr (sc', ps') \<Longrightarrow>
   Some ic \<in> set (sc_coords sc) \<Longrightarrow> poolOK sc' \<and> set (sc_coords sc) \<subseteq> set (sc_coords sc')"
proof (induction ps arbitrary: sc ps')
  case Nil
  then show ?case by simp
next
  case (Cons p ps)
  from Cons.prems(2) obtain sc1 p1 ps2 where
    a: "snapPin MAX_VALUE sc p (pinHint pins (Some (pl, ic)) (sc_store sc) p) = Inr (sc1, p1)"
    and b: "clonePins pins (pl, ic) sc1 ps = Inr (sc', ps2)"
    by (auto split: sum.splits)
  obtain r where h: "pinHint pins (Some (pl, ic)) (sc_store sc) p = Some r"
    and r: "\<forall>a. r = Ref a \<longrightarrow> a = ic"
    using pinHint_rel by blast
  have "\<forall>a. r = Ref a \<longrightarrow> Some a \<in> set (sc_coords sc)" using r Cons.prems(3) by blast
  note f = snapPin_poolOK [OF Cons.prems(1) a [unfolded h] this]
  have m: "Some ic \<in> set (sc_coords sc1)" using f Cons.prems(3) by blast
  show ?case using f Cons.IH [OF f [THEN conjunct1] b m] by blast
qed

lemma pathUseAsStencil_poolOK:
  assumes "poolOK sc" and "pathUseAsStencil this nm pins pl sc = Inr (sc', c)"
  shows "poolOK sc'"
proof -
  obtain sc1 ic where c: "canonicalize sc (instanceCoordOf (normalizePlacement pl)) = (sc1, ic)"
    by (cases "canonicalize sc (instanceCoordOf (normalizePlacement pl))")
  from assms(2) c obtain pins1 pins2 where
    f: "findPositions (ps_pins this) (Some (normalizePlacement pl, ic)) sc1 pins1 = Inr (sc', pins2)"
    by (auto simp: pathUseAsStencil_def Let_def split: option.splits sum.splits)
  note k = canonicalize_poolOK [OF assms(1) c]
  show ?thesis using findPositions_poolOK [OF k [THEN conjunct1] f] k by blast
qed

lemma potentialUseAsStencil_poolOK:
  assumes "poolOK sc" and "potentialUseAsStencil this pins pl sc = Inr (sc', c)"
  shows "poolOK sc'"
proof -
  let ?pl = "normalizePlacement (pl\<lparr>pl_angle := pl_angle pl + 90\<rparr>)"
  obtain sc1 ic where c: "canonicalize sc (instanceCoordOf ?pl) = (sc1, ic)"
    by (cases "canonicalize sc (instanceCoordOf ?pl)")
  from assms(2) c obtain p p1 where
    f: "findPosition (case pos_pin this of None \<Rightarrow> [] | Some sp \<Rightarrow> [sp]) (Some (?pl, ic)) sc1 p = Inr (sc', p1)"
    by (auto simp: potentialUseAsStencil_def Let_def split: list.splits sum.splits)
  note k = canonicalize_poolOK [OF assms(1) c]
  show ?thesis using findPosition_poolOK [OF k [THEN conjunct1] f] k by blast
qed

lemma cloneToPosition_poolOK:
  assumes "poolOK sc" and "cloneToPosition this nm pins pl sc = Inr (sc', c)"
  shows "poolOK sc'"
proof -
  obtain sc1 ic where c: "canonicalize sc (instanceCoordOf (normalizePlacement pl)) = (sc1, ic)"
    by (cases "canonicalize sc (instanceCoordOf (normalizePlacement pl))")
  from assms(2) c obtain pins2 where
    f: "clonePins (cs_pins this) (normalizePlacement pl, ic) sc1 pins = Inr (sc', pins2)"
    by (auto simp: cloneToPosition_def Let_def split: sum.splits)
  note k = canonicalize_poolOK [OF assms(1) c]
  show ?thesis using clonePins_poolOK [OF k [THEN conjunct1] f] k by blast
qed

lemma poolOK_empty: "poolOK emptySchematic"
  by (simp add: poolOK_def emptySchematic_def)

lemma parsePoint_poolOK:
  "poolOK sc \<Longrightarrow> parsePoint scale0 (sc, wc, lg) tok = (sc', wc', lg') \<Longrightarrow> poolOK sc'"
  by (auto simp: parsePoint_def Let_def split: coordToken.splits prod.splits dest: canonicalize_poolOK)

lemma foldl_parsePoint_poolOK:
  "poolOK sc \<Longrightarrow> foldl (parsePoint scale0) (sc, wc, lg) toks = (sc', wc', lg') \<Longrightarrow> poolOK sc'"
proof (induction toks arbitrary: sc wc lg)
  case Nil
  then show ?case by simp
next
  case (Cons t ts)
  obtain sc1 wc1 lg1 where s: "parsePoint scale0 (sc, wc, lg) t = (sc1, wc1, lg1)"
    by (cases "parsePoint scale0 (sc, wc, lg) t") auto
  have "poolOK sc1" using parsePoint_poolOK [OF Cons.prems(1) s] .
  then show ?case using Cons.IH [of sc1 wc1 lg1] Cons.prems(2) s by simp
qed

lemma parseWire_poolOK:
  assumes "poolOK sc" and "parseWire scale0 sc wx = (sc', lg)"
  shows "poolOK sc'"
proof -
  obtain sc1 n where g: "getNet sc (wx_netName wx) = (sc1, n)" by (cases "getNet sc (wx_netName wx)")
  obtain sc2 wc lg2 where f: "foldl (parsePoint scale0) (sc1, [], []) (wx_points wx) = (sc2, wc, lg2)"
    by (cases "foldl (parsePoint scale0) (sc1, [], []) (wx_points wx)") auto
  have "poolOK sc1" using getNet_store [OF g] assms(1) poolOK_cong by blast
  then have ok2: "poolOK sc2" using foldl_parsePoint_poolOK f by blast
  have "sc_store sc' = sc_store sc2 \<and> sc_coords sc' = sc_coords sc2"
    using assms(2) g f by (auto simp: parseWire_def Let_def)
  then show ?thesis using ok2 poolOK_cong by blast
qed

lemma parseWires_poolOK:
  "poolOK sc \<Longrightarrow> parseWires scale0 sc ws = (sc', lg) \<Longrightarrow> poolOK sc'"
proof -
  have "\<And>sc lg0 sc' lg. poolOK sc \<Longrightarrow>
      foldl (\<lambda>(sc1, lg) wireX. let (sc2, lg2) = parseWire scale0 sc1 wireX in (sc2, lg @ lg2)) (sc, lg0) ws = (sc', lg)
      \<Longrightarrow> poolOK sc'"
  proof (induction ws)
    case Nil
    then show ?case by simp
  next
    case (Cons w ws)
    obtain sc2 lg2 where p: "parseWire scale0 sc w = (sc2, lg2)" by (cases "parseWire scale0 sc w")
    have "poolOK sc2" using parseWire_poolOK [OF Cons.prems(1) p] by simp
    then show ?case using Cons.IH [of sc2 "lg0 @ lg2" sc' lg] Cons.prems(2) p by simp
  qed
  then show "poolOK sc \<Longrightarrow> parseWires scale0 sc ws = (sc', lg) \<Longrightarrow> poolOK sc'"
    unfolding parseWires_def by blast
qed

lemma parseInstance_poolOK:
  assumes ok: "poolOK sc" and n: "noOriented catalog [instX]"
    and p: "parseInstance catalog uuid scale0 sc instX = Inr (sc', lg)"
  shows "poolOK sc'"
proof (cases "lookupStencil catalog (ix_libraryName instX) (ix_cellName instX)")
  case None
  then show ?thesis using ok p by (simp add: parseInstance_def)
next
  case (Some stn)
  obtain sc1 pins where pp: "parsePins uuid sc (ix_pins instX) = (sc1, pins)"
    by (cases "parsePins uuid sc (ix_pins instX)")
  have ok1: "poolOK sc1" using parsePins_store [OF pp] ok poolOK_cong by blast
  show ?thesis
  proof (cases stn)
    case (PathStencil pst)
    with p Some pp obtain sc2 c where
      u: "pathUseAsStencil pst (ix_instanceName instX) pins (instancePlacement scale0 instX) sc1 = Inr (sc2, c)"
      and e: "sc' = sc2\<lparr>sc_components := sc_components sc2 @ [PathC c]\<rparr>"
      by (auto simp: parseInstance_def Let_def split: sum.splits)
    have "poolOK sc2" using pathUseAsStencil_poolOK [OF ok1 u] .
    then show ?thesis using poolOK_cong [of sc' sc2] by (simp add: e)
  next
    case (PotentialStencil pos)
    with p Some pp obtain sc2 c where
      u: "potentialUseAsStencil pos pins (instancePlacement scale0 instX) sc1 = Inr (sc2, c)"
      and e: "sc' = sc2\<lparr>sc_components := sc_components sc2 @ [PotentialC c]\<rparr>"
      by (auto simp: parseInstance_def Let_def split: sum.splits)
    have "poolOK sc2" using potentialUseAsStencil_poolOK [OF ok1 u] .
    then show ?thesis using poolOK_cong [of sc' sc2] by (simp add: e)
  next
    case (MapperStencil m)
    then show ?thesis using n Some by (simp add: noOriented_def)
  qed
qed

lemma parseInstances_poolOK:
  "poolOK sc \<Longrightarrow> noOriented catalog is \<Longrightarrow>
   parseInstances catalog uuid scale0 sc is = Inr (sc', lg) \<Longrightarrow> poolOK sc'"
proof (induction "is" arbitrary: sc sc' lg)
  case Nil
  then show ?case by simp
next
  case (Cons i "is")
  from Cons.prems(3) obtain sc1 lg1 lg2 where
    a: "parseInstance catalog uuid scale0 sc i = Inr (sc1, lg1)"
    and b: "parseInstances catalog uuid scale0 sc1 is = Inr (sc', lg2)"
    by (auto split: sum.splits)
  have n1: "noOriented catalog [i]" and n2: "noOriented catalog is"
    using Cons.prems(2) by (simp_all add: noOriented_def)
  show ?case using Cons.IH [OF parseInstance_poolOK [OF Cons.prems(1) n1 a] n2 b] .
qed

lemma parse_poolOK:
  assumes "noOriented catalog is" and "parse catalog uuid scale0 ws is = Inr (sc', lg)"
  shows "poolOK sc'"
proof -
  obtain sc1 lg1 where w: "parseWires scale0 emptySchematic ws = (sc1, lg1)"
    by (cases "parseWires scale0 emptySchematic ws")
  have ok1: "poolOK sc1" using parseWires_poolOK [OF poolOK_empty w] .
  from assms(2) w obtain lg2 where "parseInstances catalog uuid scale0 sc1 is = Inr (sc', lg2)"
    by (auto simp: parse_def split: sum.splits)
  then show ?thesis using parseInstances_poolOK [OF ok1 assms(1)] by blast
qed

lemma poolOK_identity:
  assumes "poolOK sc" and "e \<in> set (sc_coords sc)" and "f \<in> set (sc_coords sc)"
  shows "e = f \<longleftrightarrow> cellOf (sc_store sc) e = cellOf (sc_store sc) f"
proof -
  have "inj_on (cellOf (sc_store sc)) (set (sc_coords sc))"
    using assms(1) by (simp add: poolOK_def distinct_map)
  then show ?thesis using assms(2,3) by (auto dest: inj_onD)
qed

lemma canonicalize_twice:
  assumes ok: "poolOK sc" and c1: "canonicalize sc c = (sc1, a)" and c2: "canonicalize sc1 d = (sc2, b)"
  shows "poolOK sc2 \<and> Some a \<in> set (sc_coords sc2) \<and> Some b \<in> set (sc_coords sc2) \<and>
         sc_store sc2 ! a = c \<and> sc_store sc2 ! b = d \<and> (a = b \<longleftrightarrow> equals c (Some d))"
proof -
  note k1 = canonicalize_poolOK [OF ok c1]
  note k2 = canonicalize_poolOK [OF k1 [THEN conjunct1] c2]
  have a1: "a < length (sc_store sc1)"
    using k1 by (auto simp: poolOK_def list_all_iff split: option.splits)
  have va: "sc_store sc2 ! a = c"
    using storeExtends_nth [OF canonicalize_extends [OF c2] a1] k1 by simp
  have ma: "Some a \<in> set (sc_coords sc2)" using k1 k2 by blast
  have "Some a = Some b \<longleftrightarrow> cellOf (sc_store sc2) (Some a) = cellOf (sc_store sc2) (Some b)"
    using poolOK_identity [OF k2 [THEN conjunct1] ma] k2 by blast
  then have "a = b \<longleftrightarrow> c = d" using va k2 by (simp add: cellOf_def)
  then show ?thesis using k2 va ma by (auto simp: equals_def)
qed

lemma parsePins_R1:
  "parsePins uuidExample wiredState (ix_pins R1) =
     (wiredState, [\<lparr>p_coord = None, p_name = Some ''P1'', p_instTermNumber = 1, p_net = Some 0\<rparr>,
                   \<lparr>p_coord = None, p_name = Some ''P2'', p_instTermNumber = 2, p_net = Some 0\<rparr>])"
  by (simp add: parsePin_def getNet_def R1_def wiredState_def Let_def)

lemma path_R1:
  "pathUseAsStencil
     \<lparr>ps_tikzComponentName = ''R'',
      ps_pins = [ZERO_PIN, \<lparr>s_coord = \<lparr>cx = 1, cy = 0\<rparr>, s_name = None, s_instTermNumber = 2\<rparr>]\<rparr>
     ''R1'' [\<lparr>p_coord = None, p_name = Some ''P1'', p_instTermNumber = 1, p_net = Some 0\<rparr>,
             \<lparr>p_coord = None, p_name = Some ''P2'', p_instTermNumber = 2, p_net = Some 0\<rparr>]
     (unitPlacement\<lparr>pl_scaling := 2\<rparr>) wiredState = Inr (wiredState, placedR1)"
  by (simp add: place_defs snap_defs geometry_defs unitPlacement_def ZERO_PIN_def wiredState_def
      placedR1_def normalizeAngle_id Let_def)

lemma parse_R1: "parse exampleCatalog uuidExample 2 oneWire [R1] = Inr (resistorState, [])"
  by (simp add: parse_def parse_oneWire parseInstance_def lookupStencil_def exampleCatalog_def
      parsePins_R1 instancePlacement_def)
    (simp add: R1_def path_R1 resistorState_def)

lemma noOriented_R1: "noOriented exampleCatalog [R1]"
  by (simp add: noOriented_def lookupStencil_def exampleCatalog_def R1_def)

lemma parse_twinPins1: "parsePins uuidExample emptySchematic threePins = (twinNets, twinLivePins)"
  by (simp add: parsePin_def getNet_def threePins_def emptySchematic_def twinNets_def
      twinLivePins_def Let_def eval_nat_numeral)

lemma parse_twinPins2: "parsePins uuidExample twinState1 threePins = (twinState1, twinLivePins)"
  by (simp add: parsePin_def getNet_def threePins_def twinState1_def emptySchematic_def twinNets_def
      twinLivePins_def Let_def eval_nat_numeral)

lemma twin_reorder: "reorder exampleAnatomical (twinFound k) = t_pins (twinPlaced nm k)"
  by (simp add: reorder_def pinMatches_def truthy_def exampleAnatomical_def twinFound_def
      twinPlaced_def)

lemma find_twin1:
  "findPositions exampleAnatomical None twinNets twinLivePins
     = Inr (twinNets\<lparr>sc_store := [\<lparr>cx = 1, cy = 3\<rparr>, \<lparr>cx = 2, cy = 4\<rparr>, \<lparr>cx = 3, cy = 3\<rparr>],
                     sc_coords := [Some 0, Some 1, Some 2]\<rparr>, twinFound 0)"
  by (simp add: snap_defs geometry_defs exampleAnatomical_def twinNets_def emptySchematic_def
      twinLivePins_def twinFound_def Let_def eval_nat_numeral)

lemma find_twin2:
  "findPositions exampleAnatomical None twinState1 twinLivePins
     = Inr (twinState1\<lparr>sc_store := sc_store twinState1 @ [\<lparr>cx = 1, cy = 3\<rparr>, \<lparr>cx = 2, cy = 4\<rparr>, \<lparr>cx = 3, cy = 3\<rparr>],
                     sc_coords := [Some 0, Some 1, Some 2, Some 3, Some 4, Some 5]\<rparr>, twinFound 3)"
  by (simp add: snap_defs geometry_defs exampleAnatomical_def twinState1_def twinNets_def
      emptySchematic_def twinLivePins_def twinFound_def Let_def eval_nat_numeral)

lemma mapper_twin1:
  "mapperUseAsStencil BJT ''Q1'' twinLivePins (examplePlacement\<lparr>pl_scaling := 2\<rparr>) twinNets
     = Inr (twinState1\<lparr>sc_components := []\<rparr>, twinPlaced ''Q1'' 0)"
proof -
  have e: "examplePlacement\<lparr>pl_scaling := 2\<rparr> = examplePlacement" by (simp add: examplePlacement_def)
  have i: "internAnchor twinNets exampleTemplate = (twinNets, Some (Fresh \<lparr>cx = 2, cy = 3\<rparr>))"
    by (simp add: internAnchor_def exampleTemplate_def)
  have o: "overwriteCoords [\<lparr>cx = 1, cy = 3\<rparr>, \<lparr>cx = 2, cy = 4\<rparr>, \<lparr>cx = 3, cy = 3\<rparr>]
             (t_pins (twinPlaced ''Q1'' 0)) (t_pins exampleTemplate) = Inr (sc_store twinState1)"
    by (simp add: twinPlaced_def twinFound_def exampleTemplate_def twinState1_def)
  show ?thesis unfolding e
    by (simp add: mapperUseAsStencil_def ex_anat ex_templ i find_twin1 twin_reorder [where nm = "''Q1''"] o)
      (simp add: exampleTemplate_def twinPlaced_def twinState1_def twinNets_def emptySchematic_def)
qed

lemma mapper_twin2:
  "mapperUseAsStencil BJT ''Q2'' twinLivePins (examplePlacement\<lparr>pl_scaling := 2\<rparr>) twinState1
     = Inr (twinState2\<lparr>sc_components := sc_components twinState1\<rparr>, twinPlaced ''Q2'' 3)"
proof -
  have e: "examplePlacement\<lparr>pl_scaling := 2\<rparr> = examplePlacement" by (simp add: examplePlacement_def)
  have i: "internAnchor twinState1 exampleTemplate = (twinState1, Some (Fresh \<lparr>cx = 2, cy = 3\<rparr>))"
    by (simp add: internAnchor_def exampleTemplate_def)
  have o: "overwriteCoords (sc_store twinState1 @ [\<lparr>cx = 1, cy = 3\<rparr>, \<lparr>cx = 2, cy = 4\<rparr>, \<lparr>cx = 3, cy = 3\<rparr>])
             (t_pins (twinPlaced ''Q2'' 3)) (t_pins exampleTemplate) = Inr (sc_store twinState2)"
    by (simp add: twinPlaced_def twinFound_def exampleTemplate_def twinState1_def twinState2_def)
  show ?thesis unfolding e
    by (simp add: mapperUseAsStencil_def ex_anat ex_templ i find_twin2 twin_reorder [where nm = "''Q2''"] o)
      (simp add: exampleTemplate_def twinPlaced_def twinState1_def twinState2_def twinNets_def
        emptySchematic_def)
qed

lemma parseInstance_twin1:
  "parseInstance exampleCatalog uuidExample 2 emptySchematic Q1 = Inr (twinState1, [])"
  by (simp add: parseInstance_def lookupStencil_def exampleCatalog_def Q1_def
      parse_twinPins1 mapper_twin1 instancePlacement_def)
    (simp add: twinState1_def)

lemma parseInstance_twin2:
  "parseInstance exampleCatalog uuidExample 2 twinState1 Q2 = Inr (twinState2, [])"
  by (simp add: parseInstance_def lookupStencil_def exampleCatalog_def Q1_def Q2_def
      parse_twinPins2 mapper_twin2 instancePlacement_def)
    (simp add: twinState1_def twinState2_def)

text \<open>
  C6, as amended.  When the catalog maps no instance of the schematic to an oriented
  three-terminal component, the pool of the parsed schematic holds no two value-equal
  entries, so that two of its entries are the same reference exactly when they hold equal
  values; and canonicalizing two candidates one after the other into it returns two
  members of the pool that hold the candidates' values and are the same reference
  exactly when the candidates are value-equal, the pool staying free of value-equal
  entries.
\<close>

theorem pool_canonical_without_oriented_placement:
  assumes "noOriented catalog instanceArray"
    and "parse catalog uuid scale0 wireArray instanceArray = Inr (sc, lg)"
  shows "poolOK sc \<and>
         (\<forall>e \<in> set (sc_coords sc). \<forall>f \<in> set (sc_coords sc).
            e = f \<longleftrightarrow> cellOf (sc_store sc) e = cellOf (sc_store sc) f) \<and>
         (\<forall>c d. case canonicalize sc c of
                   (sc1, a) \<Rightarrow>
                     (case canonicalize sc1 d of
                        (sc2, b) \<Rightarrow>
                          poolOK sc2 \<and> Some a \<in> set (sc_coords sc2) \<and> Some b \<in> set (sc_coords sc2) \<and>
                          sc_store sc2 ! a = c \<and> sc_store sc2 ! b = d \<and>
                          (a = b \<longleftrightarrow> equals c (Some d))))"
proof -
  have ok: "poolOK sc" using parse_poolOK [OF assms] .
  have i: "\<forall>e \<in> set (sc_coords sc). \<forall>f \<in> set (sc_coords sc).
            e = f \<longleftrightarrow> cellOf (sc_store sc) e = cellOf (sc_store sc) f"
    using poolOK_identity [OF ok] by blast
  have t: "\<forall>c d. case canonicalize sc c of
                   (sc1, a) \<Rightarrow>
                     (case canonicalize sc1 d of
                        (sc2, b) \<Rightarrow>
                          poolOK sc2 \<and> Some a \<in> set (sc_coords sc2) \<and> Some b \<in> set (sc_coords sc2) \<and>
                          sc_store sc2 ! a = c \<and> sc_store sc2 ! b = d \<and>
                          (a = b \<longleftrightarrow> equals c (Some d)))"
  proof (intro allI)
    fix c d
    obtain sc1 a where c1: "canonicalize sc c = (sc1, a)" by (cases "canonicalize sc c")
    obtain sc2 b where c2: "canonicalize sc1 d = (sc2, b)" by (cases "canonicalize sc1 d")
    show "case canonicalize sc c of
            (sc1, a) \<Rightarrow>
              (case canonicalize sc1 d of
                 (sc2, b) \<Rightarrow>
                   poolOK sc2 \<and> Some a \<in> set (sc_coords sc2) \<and> Some b \<in> set (sc_coords sc2) \<and>
                   sc_store sc2 ! a = c \<and> sc_store sc2 ! b = d \<and>
                   (a = b \<longleftrightarrow> equals c (Some d)))"
      using canonicalize_twice [OF ok c1 c2] by (simp add: c1 c2)
  qed
  show ?thesis using ok i t by (intro conjI)
qed

theorem pool_canonical_without_oriented_placement_witness:
  "noOriented exampleCatalog [R1] \<and>
   parse exampleCatalog uuidExample 2 oneWire [R1] = Inr (resistorState, []) \<and>
   poolOK resistorState \<and>
   (case canonicalize resistorState \<lparr>cx = 2, cy = 0\<rparr> of
      (sc1, a) \<Rightarrow>
        (case canonicalize sc1 \<lparr>cx = 2, cy = 0\<rparr> of
           (sc2, b) \<Rightarrow>
             poolOK sc2 \<and> Some a \<in> set (sc_coords sc2) \<and> Some b \<in> set (sc_coords sc2) \<and>
             sc_store sc2 ! a = \<lparr>cx = 2, cy = 0\<rparr> \<and> sc_store sc2 ! b = \<lparr>cx = 2, cy = 0\<rparr> \<and>
             (a = b \<longleftrightarrow> equals \<lparr>cx = 2, cy = 0\<rparr> (Some \<lparr>cx = 2, cy = 0\<rparr>))))"
proof -
  note t = pool_canonical_without_oriented_placement [OF noOriented_R1 parse_R1]
  from t [THEN conjunct1]
    t [THEN conjunct2, THEN conjunct2, THEN spec, THEN spec,
       of "\<lparr>cx = 2, cy = 0\<rparr>" "\<lparr>cx = 2, cy = 0\<rparr>"]
    noOriented_R1 parse_R1
  show ?thesis by (intro conjI)
qed

text \<open>
  The claim as stated fails after an oriented placement.  The pins of \<open>Q1\<close> are interned
  at the anatomical positions and then overwritten in place with the positions of the
  template pins; the pins of \<open>Q2\<close>, at the same anatomical positions, find no equal entry
  in the pool, are interned as new entries and overwritten with the same template
  positions.  The entries 0 and 3 of the pool are two references holding equal values.
\<close>

theorem oriented_placement_duplicates_pool_entry:
  "parse exampleCatalog uuidExample 2 [] [Q1] = Inr (twinState1, []) \<and> poolOK twinState1 \<and>
   parse exampleCatalog uuidExample 2 [] [Q1, Q2] = Inr (twinState2, []) \<and>
   sc_coords twinState2 ! 0 = Some 0 \<and> sc_coords twinState2 ! 3 = Some 3 \<and>
   sc_store twinState2 ! 0 = sc_store twinState2 ! 3 \<and>
   \<not> poolOK twinState2"
  by (simp add: parse_def parseWires_def parseInstance_twin1 parseInstance_twin2)
    (simp add: poolOK_def cellOf_def twinState1_def twinState2_def)

end
